theory Spec2Isabelle
  imports Main "HOL-Library.Word" "HOL-Library.Signed_Division" "HOL-Library.Multiset" "HOL-Library.AList"
begin

section \<open>Go values\<close>

text \<open>
  Go's \<open>int\<close> and \<open>int64\<close> are 64-bit two's complement integers. They are modelled as
  \<open>int\<close>; where the source adds two of them the wrap-around is written out with
  \<open>int64\<close>. Go's \<open>%\<close> truncates towards zero: it is \<open>smod\<close>. A \<open>[]byte\<close> is a list
  of 8-bit words, a Go \<open>string\<close> a \<open>string\<close>.
\<close>

type_synonym byte = "8 word"

definition int64 :: "int \<Rightarrow> int" where
  "int64 k = sint (word_of_int k :: 64 word)"

text \<open>Run-time panics and returned errors of the program, one constructor per place
  of the source that raises it.\<close>

datatype cipher_error =
    KeySizeError                \<comment> \<open>\<open>aes.NewCipher\<close>: "failed to create cipher"\<close>
  | NonceError                  \<comment> \<open>\<open>io.ReadFull(rand.Reader, nonce)\<close>: "failed to generate nonce"\<close>
  | CiphertextTooShort          \<comment> \<open>"ciphertext too short"\<close>
  | AuthenticationFailed        \<comment> \<open>\<open>gcm.Open\<close>: "failed to decrypt"\<close>

datatype config_error =
    ChunkSizeNotPositive            \<comment> \<open>"chunk size must be positive"\<close>
  | ReplicationCountTooSmall        \<comment> \<open>"replication count must be at least 1"\<close>
  | InvalidLoadBalancing string     \<comment> \<open>"invalid load balancing strategy: %s"\<close>
  | AccountNameEmpty nat            \<comment> \<open>"google drive account %d: name cannot be empty"\<close>
  | DuplicateAccountName string     \<comment> \<open>"duplicate google drive account name: %s"\<close>
  | CredsFileEmpty string           \<comment> \<open>"google drive account %s: credentials file cannot be empty"\<close>
  | TokenFileEmpty string           \<comment> \<open>"google drive account %s: token file cannot be empty"\<close>
  | NoGoogleDriveAccounts           \<comment> \<open>"google drive provider is enabled but no accounts are configured"\<close>
  | ProviderNotImplemented string   \<comment> \<open>"provider %s is not yet implemented"\<close>
  | UnknownProvider string          \<comment> \<open>"unknown provider: %s"\<close>

datatype error =
    IndexOutOfRange             \<comment> \<open>panic: slice index out of range\<close>
  | MakeSliceOutOfRange         \<comment> \<open>panic: \<open>make\<close> with a negative length or capacity\<close>
  | NotExist string             \<comment> \<open>\<open>os.Open\<close>, \<open>os.ReadFile\<close>: no such file\<close>
  | WriteDenied string          \<comment> \<open>\<open>os.WriteFile\<close>, \<open>os.Create\<close>, \<open>os.MkdirAll\<close>, \<open>Write\<close> fail\<close>
  | MalformedManifest           \<comment> \<open>\<open>json.Unmarshal\<close> fails\<close>
  | EncryptChunkFailed cipher_error         \<comment> \<open>"failed to encrypt chunk: %w"\<close>
  | DecryptChunkFailed string cipher_error  \<comment> \<open>"failed to decrypt chunk %s: %w"\<close>
  | HashMismatch string         \<comment> \<open>"hash mismatch on chunk id: %s"\<close>
  | EncryptedButNoKey           \<comment> \<open>"file was encrypted but no decryption key provided"\<close>
  | NotEncryptedButKey          \<comment> \<open>"file was not encrypted but decryption key provided"\<close>
  | NoCloudPaths string         \<comment> \<open>"chunk %s has no cloud paths"\<close>
  | ConfigInvalid config_error  \<comment> \<open>the errors of \<open>Config.Validate\<close>\<close>
  | NilDereference              \<comment> \<open>panic: nil pointer dereference\<close>
  | DivideByZero                \<comment> \<open>panic: integer divide by zero\<close>

section \<open>Distribution strategy (internal/cloudstorage/cloudstorage.go)\<close>

type_synonym CloudProvider = string

definition GoogleDrive :: CloudProvider where "GoogleDrive = ''gdrive''"
definition Dropbox :: CloudProvider where "Dropbox = ''dropbox''"
definition OneDrive :: CloudProvider where "OneDrive = ''onedrive''"
definition MEGACloud :: CloudProvider where "MEGACloud = ''mega''"
definition IPFS :: CloudProvider where "IPFS = ''ipfs''"
definition Local :: CloudProvider where "Local = ''local''"

record CloudDistributionStrategy =
  Providers :: "CloudProvider list"
  ReplicationCount :: int
  LoadBalancing :: string

definition DefaultCloudStrategy :: CloudDistributionStrategy where
  "DefaultCloudStrategy =
     \<lparr>Providers = [GoogleDrive, Dropbox, OneDrive, MEGACloud],
      ReplicationCount = 1, LoadBalancing = ''round_robin''\<rparr>"

definition CustomCloudStrategy :: "CloudProvider list \<Rightarrow> CloudDistributionStrategy" where
  "CustomCloudStrategy providers =
     \<lparr>Providers = (if length providers = 0 then [GoogleDrive] else providers),
      ReplicationCount = 1, LoadBalancing = ''round_robin''\<rparr>"

text \<open>
  The loop \<open>for i := 0; i < cds.ReplicationCount; i++\<close> of \<open>GetChunkDestination\<close>, with
  \<open>destinations\<close> as accumulator. \<open>cds.Providers[providerIndex]\<close> panics when the
  remainder is negative.
\<close>

function round_robin_loop ::
  "CloudProvider list \<Rightarrow> int \<Rightarrow> int \<Rightarrow> int \<Rightarrow> CloudProvider list \<Rightarrow> error + CloudProvider list"
where
  "round_robin_loop ps chunkIndex r i destinations =
     (if i < r then
        (if 0 \<le> int64 (chunkIndex + i) smod int (length ps) \<and>
            int64 (chunkIndex + i) smod int (length ps) < int (length ps)
         then round_robin_loop ps chunkIndex r (i + 1)
                (destinations @ [ps ! nat (int64 (chunkIndex + i) smod int (length ps))])
         else Inl IndexOutOfRange)
      else Inr destinations)"
  by pat_completeness auto
termination
  by (relation "measure (\<lambda>(ps, chunkIndex, r, i, destinations). nat (r - i))") auto

text \<open>
  The three arms of the \<open>switch\<close> run the same loop: \<open>"random"\<close> falls through to the
  default. \<open>make([]CloudProvider, 0, cds.ReplicationCount)\<close> panics on a negative
  capacity.
\<close>

definition GetChunkDestination :: "CloudDistributionStrategy \<Rightarrow> int \<Rightarrow> error + CloudProvider list" where
  "GetChunkDestination cds chunkIndex =
     (if length (Providers cds) = 0 then Inr [Local]
      else if ReplicationCount cds < 0 then Inl MakeSliceOutOfRange
      else if LoadBalancing cds = ''round_robin''
        then round_robin_loop (Providers cds) chunkIndex (ReplicationCount cds) 0 []
      else if LoadBalancing cds = ''random''
        then round_robin_loop (Providers cds) chunkIndex (ReplicationCount cds) 0 []
      else round_robin_loop (Providers cds) chunkIndex (ReplicationCount cds) 0 [])"

section \<open>Manifest data (internal/manifest)\<close>

text \<open>
  The structs \<open>ChunkInfo\<close> and \<open>Manifest\<close>. Field \<open>Providers\<close> of \<open>ChunkInfo\<close> is
  \<open>ChunkProviders\<close> here and field \<open>Encrypted\<close> of \<open>Manifest\<close> is
  \<open>ManifestEncrypted\<close>, since record fields share one name space. The map \<open>CloudIDs\<close>
  is an association list read with \<open>map_of\<close>; a \<open>nil\<close> map is the empty list.
\<close>

record ChunkInfo =
  ID :: string
  Hash :: string
  Index :: int
  Encrypted :: bool
  CloudPaths :: "string list"
  ChunkProviders :: "string list"
  Size :: int
  UploadTime :: string
  CloudIDs :: "(string \<times> string) list"

record Manifest =
  OriginalName :: string
  Chunks :: "ChunkInfo list"
  ManifestEncrypted :: bool
  CreatedTime :: string
  TotalSize :: int
  ChunkCount :: int
  DistributionMode :: string

section \<open>The environment: libraries and the file system\<close>

text \<open>
  The functions of Go's standard library the program calls and whose code is not part of
  the repository are parameters of the model: \<open>sha256.Sum256\<close>, the AES-GCM cipher
  (\<open>gcm_seal key nonce plaintext\<close> is the ciphertext with its tag, that is
  \<open>gcm.Seal(nil, nonce, plaintext, nil)\<close>; \<open>gcm_open\<close> is \<open>gcm.Open\<close>, \<open>None\<close> when
  authentication fails), and \<open>encoding/json\<close> on manifests.
\<close>

record library =
  sha256 :: "byte list \<Rightarrow> byte list"
  gcm_seal :: "byte list \<Rightarrow> byte list \<Rightarrow> byte list \<Rightarrow> byte list"
  gcm_open :: "byte list \<Rightarrow> byte list \<Rightarrow> byte list \<Rightarrow> byte list option"
  json_marshal :: "Manifest \<Rightarrow> byte list"
  json_unmarshal :: "byte list \<Rightarrow> Manifest option"

text \<open>
  The world the program runs in: the files by path, the paths that cannot be written
  (or, for a directory, created), the reads of \<open>crypto/rand\<close> by call number (\<open>None\<close>: the
  read fails) with the number of reads made so far, the wall clock as \<open>time.RFC3339\<close>
  text, and the trace of the input and output performed, oldest first.
\<close>

datatype io_event =
    EvOpen string | EvStat string | EvRead string | EvMkdirAll string
  | EvReadFile string | EvWriteFile string | EvCreate string | EvWrite string
  | EvDownload string string bool   \<comment> \<open>chunk id, provider, success\<close>

record world =
  files :: "string \<Rightarrow> byte list option"
  readonly :: "string set"
  entropy :: "nat \<Rightarrow> byte list option"
  drawn :: nat
  clock :: string
  trace :: "io_event list"

definition emit :: "io_event \<Rightarrow> world \<Rightarrow> world" where
  "emit ev w = w\<lparr>trace := trace w @ [ev]\<rparr>"

definition os_Open :: "string \<Rightarrow> world \<Rightarrow> (error + unit) \<times> world" where
  "os_Open path w =
     (case files w path of
        None \<Rightarrow> (Inl (NotExist path), emit (EvOpen path) w)
      | Some content \<Rightarrow> (Inr (), emit (EvOpen path) w))"

text \<open>
  \<open>(*os.File).Read\<close> at offset \<open>off\<close> into a buffer of \<open>n\<close> bytes: the bytes read and
  whether the error is \<open>io.EOF\<close>. A buffer of length 0 reads nothing and reports no
  error, at the end of the file too.
\<close>

definition file_Read :: "string \<Rightarrow> nat \<Rightarrow> int \<Rightarrow> world \<Rightarrow> byte list \<times> bool \<times> world" where
  "file_Read path off n w =
     (case files w path of
        None \<Rightarrow> ([], True, emit (EvRead path) w)
      | Some content \<Rightarrow>
          if n = 0 then ([], False, emit (EvRead path) w)
          else if length content \<le> off then ([], True, emit (EvRead path) w)
          else (take (nat n) (drop off content), False, emit (EvRead path) w))"

definition os_ReadFile :: "string \<Rightarrow> world \<Rightarrow> (error + byte list) \<times> world" where
  "os_ReadFile path w =
     (case files w path of
        None \<Rightarrow> (Inl (NotExist path), emit (EvReadFile path) w)
      | Some content \<Rightarrow> (Inr content, emit (EvReadFile path) w))"

definition os_WriteFile :: "string \<Rightarrow> byte list \<Rightarrow> world \<Rightarrow> (error + unit) \<times> world" where
  "os_WriteFile path content w =
     (if path \<in> readonly w then (Inl (WriteDenied path), emit (EvWriteFile path) w)
      else (Inr (), emit (EvWriteFile path) (w\<lparr>files := (files w)(path \<mapsto> content)\<rparr>)))"

definition os_Create :: "string \<Rightarrow> world \<Rightarrow> (error + unit) \<times> world" where
  "os_Create path w =
     (if path \<in> readonly w then (Inl (WriteDenied path), emit (EvCreate path) w)
      else (Inr (), emit (EvCreate path) (w\<lparr>files := (files w)(path \<mapsto> [])\<rparr>)))"

text \<open>\<open>(*os.File).Write\<close> on the file \<open>os.Create\<close> returned: the bytes go to its end.\<close>

definition file_Write :: "string \<Rightarrow> byte list \<Rightarrow> world \<Rightarrow> (error + unit) \<times> world" where
  "file_Write path content w =
     (if path \<in> readonly w then (Inl (WriteDenied path), emit (EvWrite path) w)
      else (Inr (), emit (EvWrite path)
              (w\<lparr>files := (files w)(path \<mapsto>
                   (case files w path of None \<Rightarrow> content | Some old \<Rightarrow> old @ content))\<rparr>)))"

definition os_MkdirAll :: "string \<Rightarrow> world \<Rightarrow> (error + unit) \<times> world" where
  "os_MkdirAll dir w =
     (if dir \<in> readonly w then (Inl (WriteDenied dir), emit (EvMkdirAll dir) w)
      else (Inr (), emit (EvMkdirAll dir) w))"

text \<open>
  \<open>path/filepath\<close> on Unix paths. \<open>filepath_Join\<close> and \<open>filepath_Dir\<close> leave out the
  final \<open>Clean\<close>, which is the identity on a path that is already clean.
\<close>

definition filepath_Join :: "string \<Rightarrow> string \<Rightarrow> string" where
  "filepath_Join dir name = (if dir = [] then name else dir @ ''/'' @ name)"

definition filepath_Base :: "string \<Rightarrow> string" where
  "filepath_Base path =
     (if path = [] then ''.''
      else if dropWhile (\<lambda>c. c = CHR ''/'') (rev path) = [] then ''/''
      else rev (takeWhile (\<lambda>c. c \<noteq> CHR ''/'') (dropWhile (\<lambda>c. c = CHR ''/'') (rev path))))"

definition filepath_Dir :: "string \<Rightarrow> string" where
  "filepath_Dir path =
     (if dropWhile (\<lambda>c. c \<noteq> CHR ''/'') (rev path) = [] then ''.''
      else if dropWhile (\<lambda>c. c = CHR ''/'') (dropWhile (\<lambda>c. c \<noteq> CHR ''/'') (rev path)) = []
        then ''/''
      else rev (dropWhile (\<lambda>c. c = CHR ''/'') (dropWhile (\<lambda>c. c \<noteq> CHR ''/'') (rev path))))"

text \<open>\<open>fmt.Sprintf("%x", b)\<close> on a byte slice: two lower-case hexadecimal digits a byte.\<close>

definition hex_digit :: "nat \<Rightarrow> char" where
  "hex_digit n = ''0123456789abcdef'' ! n"

definition hex :: "byte list \<Rightarrow> string" where
  "hex bs = concat (map (\<lambda>b. [hex_digit (unat b div 16), hex_digit (unat b mod 16)]) bs)"

definition chunkFile :: "string \<Rightarrow> string \<Rightarrow> string" where
  "chunkFile dir ident = filepath_Join dir (ident @ ''.chunk'')"

section \<open>Encryption (internal/encryption/encryption.go)\<close>

record EncryptionConfig =
  Enabled :: bool
  Key :: "byte list"

definition CreateEncryptionConfig :: "library \<Rightarrow> string \<Rightarrow> bool \<Rightarrow> EncryptionConfig" where
  "CreateEncryptionConfig lib password enabled =
     (if \<not> enabled then \<lparr>Enabled = False, Key = []\<rparr>
      else \<lparr>Enabled = True, Key = sha256 lib (map of_char password)\<rparr>)"

text \<open>\<open>aes.NewCipher\<close> accepts keys of 16, 24 and 32 bytes; \<open>gcm.NonceSize()\<close> is 12.\<close>

definition aes_key_ok :: "byte list \<Rightarrow> bool" where
  "aes_key_ok key = (length key = 16 \<or> length key = 24 \<or> length key = 32)"

definition NonceSize :: nat where
  "NonceSize = 12"

definition Encrypt ::
  "library \<Rightarrow> EncryptionConfig \<Rightarrow> byte list \<Rightarrow> world \<Rightarrow> (cipher_error + byte list) \<times> world"
where
  "Encrypt lib ec plaintext w =
     (if \<not> Enabled ec then (Inr plaintext, w)
      else if \<not> aes_key_ok (Key ec) then (Inl KeySizeError, w)
      else case entropy w (drawn w) of
          None \<Rightarrow> (Inl NonceError, w\<lparr>drawn := Suc (drawn w)\<rparr>)
        | Some nonce \<Rightarrow>
            (Inr (nonce @ gcm_seal lib (Key ec) nonce plaintext), w\<lparr>drawn := Suc (drawn w)\<rparr>))"

definition Decrypt :: "library \<Rightarrow> EncryptionConfig \<Rightarrow> byte list \<Rightarrow> cipher_error + byte list" where
  "Decrypt lib ec ciphertext =
     (if \<not> Enabled ec then Inr ciphertext
      else if \<not> aes_key_ok (Key ec) then Inl KeySizeError
      else if length ciphertext < NonceSize then Inl CiphertextTooShort
      else case gcm_open lib (Key ec) (take NonceSize ciphertext) (drop NonceSize ciphertext) of
          None \<Rightarrow> Inl AuthenticationFailed
        | Some plaintext \<Rightarrow> Inr plaintext)"

section \<open>Manifest files (internal/manifest)\<close>

text \<open>The loop \<open>totalSize += chunk.Size\<close> on an \<open>int64\<close>.\<close>

definition totalSize :: "ChunkInfo list \<Rightarrow> int" where
  "totalSize chunks = foldl (\<lambda>t chunk. int64 (t + Size chunk)) 0 chunks"

definition WriteManifestWithMode ::
  "library \<Rightarrow> ChunkInfo list \<Rightarrow> string \<Rightarrow> string \<Rightarrow> bool \<Rightarrow> string \<Rightarrow> world \<Rightarrow> (error + unit) \<times> world"
where
  "WriteManifestWithMode lib chunks path original encrypted distributionMode w =
     os_WriteFile path
       (json_marshal lib
          \<lparr>OriginalName = original, Chunks = chunks, ManifestEncrypted = encrypted,
           CreatedTime = clock w, TotalSize = totalSize chunks,
           ChunkCount = int (length chunks), DistributionMode = distributionMode\<rparr>) w"

definition WriteManifest ::
  "library \<Rightarrow> ChunkInfo list \<Rightarrow> string \<Rightarrow> string \<Rightarrow> bool \<Rightarrow> world \<Rightarrow> (error + unit) \<times> world"
where
  "WriteManifest lib chunks path original encrypted w =
     WriteManifestWithMode lib chunks path original encrypted ''local'' w"

definition ReadManifest :: "library \<Rightarrow> string \<Rightarrow> world \<Rightarrow> (error + Manifest) \<times> world" where
  "ReadManifest lib path w =
     (case os_ReadFile path w of
        (Inl e, w1) \<Rightarrow> (Inl e, w1)
      | (Inr content, w1) \<Rightarrow>
          (case json_unmarshal lib content of
             None \<Rightarrow> (Inl MalformedManifest, w1)
           | Some m \<Rightarrow> (Inr m, w1)))"

section \<open>Splitting and assembling (package chunker)\<close>

text \<open>
  The \<open>for\<close> loop of \<open>SplitFileWithChunkSize\<close>. Its state is the read offset of
  \<open>inFile\<close>, \<open>index\<close>, \<open>chunks\<close> and the world. With a buffer of length 0 the loop
  never ends, so the function is partial: \<open>None\<close> is "does not return".
\<close>

partial_function (option) split_loop ::
  "library \<Rightarrow> string \<Rightarrow> string \<Rightarrow> EncryptionConfig \<Rightarrow> int \<Rightarrow> nat \<Rightarrow> int \<Rightarrow> ChunkInfo list \<Rightarrow> world
     \<Rightarrow> ((error + ChunkInfo list) \<times> world) option"
where
  "split_loop lib path outDir encConfig chunkSize off index chunks w =
     (case file_Read path off chunkSize w of
        (content, eof, w1) \<Rightarrow>
          if content = [] \<and> eof then Some (Inr chunks, w1)
          else
            (case Encrypt lib encConfig content w1 of
               (Inl e, w2) \<Rightarrow> Some (Inl (EncryptChunkFailed e), w2)
             | (Inr encryptedData, w2) \<Rightarrow>
                 (case os_WriteFile (chunkFile outDir (hex (take 8 (sha256 lib content))))
                         encryptedData w2 of
                    (Inl e, w3) \<Rightarrow> Some (Inl e, w3)
                  | (Inr u, w3) \<Rightarrow>
                      split_loop lib path outDir encConfig chunkSize (off + length content)
                        (index + 1)
                        (chunks @
                          [\<lparr>ID = hex (take 8 (sha256 lib content)),
                            Hash = hex (sha256 lib content),
                            Index = index,
                            Encrypted = Enabled encConfig,
                            CloudPaths = [],
                            ChunkProviders = [],
                            Size = int (length encryptedData),
                            UploadTime = [],
                            CloudIDs = []\<rparr>])
                        w3)))"

text \<open>
  \<open>SplitFileWithChunkSize\<close>: open the input, \<open>Stat\<close> it for the progress bar, create the
  output directory (the error is dropped), allocate the buffer (\<open>make\<close> panics on a
  negative length), run the loop, write the manifest.
\<close>

definition SplitFileWithChunkSize ::
  "library \<Rightarrow> string \<Rightarrow> string \<Rightarrow> string \<Rightarrow> EncryptionConfig \<Rightarrow> int \<Rightarrow> world
     \<Rightarrow> ((error + unit) \<times> world) option"
where
  "SplitFileWithChunkSize lib path outDir manifestPath encConfig chunkSize w =
     (case os_Open path w of
        (Inl e, w1) \<Rightarrow> Some (Inl e, w1)
      | (Inr u, w1) \<Rightarrow>
          if chunkSize < 0
          then Some (Inl MakeSliceOutOfRange, snd (os_MkdirAll outDir (emit (EvStat path) w1)))
          else
            (case split_loop lib path outDir encConfig chunkSize 0 0 []
                    (snd (os_MkdirAll outDir (emit (EvStat path) w1))) of
               None \<Rightarrow> None
             | Some (Inl e, w2) \<Rightarrow> Some (Inl e, w2)
             | Some (Inr chunks, w2) \<Rightarrow>
                 Some (WriteManifest lib chunks manifestPath (filepath_Base path)
                         (Enabled encConfig) w2)))"

definition DefaultChunkSize :: int where
  "DefaultChunkSize = 1 * 1024 * 1024"

definition SplitFile ::
  "library \<Rightarrow> string \<Rightarrow> string \<Rightarrow> string \<Rightarrow> EncryptionConfig \<Rightarrow> world
     \<Rightarrow> ((error + unit) \<times> world) option"
where
  "SplitFile lib path outDir manifestPath encConfig w =
     SplitFileWithChunkSize lib path outDir manifestPath encConfig DefaultChunkSize w"

text \<open>The loop \<open>for _, c := range m.Chunks\<close> of \<open>AssembleFile\<close>.\<close>

fun assemble_loop ::
  "library \<Rightarrow> string \<Rightarrow> string \<Rightarrow> EncryptionConfig \<Rightarrow> ChunkInfo list \<Rightarrow> world
     \<Rightarrow> (error + unit) \<times> world"
where
  "assemble_loop lib chunksPath outputPath encConfig [] w = (Inr (), w)"
| "assemble_loop lib chunksPath outputPath encConfig (c # cs) w =
     (case os_ReadFile (chunkFile chunksPath (ID c)) w of
        (Inl e, w1) \<Rightarrow> (Inl e, w1)
      | (Inr encryptedData, w1) \<Rightarrow>
          (case Decrypt lib encConfig encryptedData of
             Inl e \<Rightarrow> (Inl (DecryptChunkFailed (ID c) e), w1)
           | Inr content \<Rightarrow>
               if Hash c \<noteq> hex (sha256 lib content) then (Inl (HashMismatch (ID c)), w1)
               else
                 (case file_Write outputPath content w1 of
                    (Inl e, w2) \<Rightarrow> (Inl e, w2)
                  | (Inr u, w2) \<Rightarrow> assemble_loop lib chunksPath outputPath encConfig cs w2)))"

text \<open>
  \<open>AssembleFile\<close>. \<open>sort.Slice\<close> orders the chunks by \<open>Index\<close>; it is modelled by the
  stable \<open>sort_key\<close>, which is the same order whenever the indices are distinct.
\<close>

definition AssembleFile ::
  "library \<Rightarrow> string \<Rightarrow> string \<Rightarrow> string \<Rightarrow> EncryptionConfig \<Rightarrow> world \<Rightarrow> (error + unit) \<times> world"
where
  "AssembleFile lib manifestPath chunksPath outputPath encConfig w =
     (case ReadManifest lib manifestPath w of
        (Inl e, w1) \<Rightarrow> (Inl e, w1)
      | (Inr m, w1) \<Rightarrow>
          if ManifestEncrypted m \<and> \<not> Enabled encConfig then (Inl EncryptedButNoKey, w1)
          else if \<not> ManifestEncrypted m \<and> Enabled encConfig then (Inl NotEncryptedButKey, w1)
          else
            (case os_MkdirAll (filepath_Dir outputPath) w1 of
               (Inl e, w2) \<Rightarrow> (Inl e, w2)
             | (Inr u, w2) \<Rightarrow>
                 (case os_Create outputPath w2 of
                    (Inl e, w3) \<Rightarrow> (Inl e, w3)
                  | (Inr u, w3) \<Rightarrow>
                      assemble_loop lib chunksPath outputPath encConfig
                        (sort_key Index (Chunks m)) w3)))"

section \<open>Configuration (package config)\<close>

text \<open>
  The structs of the configuration. Fields whose names the strategy or the encryption
  configuration already use carry the prefix \<open>Cfg\<close> (\<open>Providers\<close>, \<open>ReplicationCount\<close>,
  \<open>LoadBalancing\<close>) or \<open>Account\<close> (\<open>Enabled\<close>); the fields \<open>ChunkConfig\<close> and
  \<open>CloudConfig\<close> of \<open>Config\<close> are \<open>Chunk\<close> and \<open>Cloud\<close>.
\<close>

record GoogleDriveAccount =
  Name :: string
  CredsFile :: string
  TokenFile :: string
  FolderName :: string
  AccountEnabled :: bool
  Description :: string

record CloudConfig =
  GoogleDriveAccounts :: "GoogleDriveAccount list"
  CfgProviders :: "CloudProvider list"
  CfgReplicationCount :: int
  CfgLoadBalancing :: string

record ChunkConfig =
  ChunkSize :: int

record Config =
  Chunk :: ChunkConfig
  Cloud :: CloudConfig
  Version :: string

definition DefaultConfig :: Config where
  "DefaultConfig =
     \<lparr>Chunk = \<lparr>ChunkSize = 1 * 1024 * 1024\<rparr>,
      Cloud = \<lparr>GoogleDriveAccounts =
                 [\<lparr>Name = ''primary'', CredsFile = ''credentials.json'',
                   TokenFile = ''token.json'', FolderName = ''distributed-chunks'',
                   AccountEnabled = True, Description = ''Primary Google Drive account''\<rparr>],
               CfgProviders = [GoogleDrive], CfgReplicationCount = 1,
               CfgLoadBalancing = ''round_robin''\<rparr>,
      Version = ''1.0''\<rparr>"

definition GetEnabledGoogleDriveAccounts :: "Config \<Rightarrow> GoogleDriveAccount list" where
  "GetEnabledGoogleDriveAccounts c = filter AccountEnabled (GoogleDriveAccounts (Cloud c))"

definition HasGoogleDriveProvider :: "Config \<Rightarrow> bool" where
  "HasGoogleDriveProvider c = (GoogleDrive \<in> set (CfgProviders (Cloud c)))"

text \<open>The loop of \<open>Validate\<close> over the accounts, with the index \<open>i\<close> and the names seen.\<close>

fun validate_accounts :: "nat \<Rightarrow> string list \<Rightarrow> GoogleDriveAccount list \<Rightarrow> config_error option" where
  "validate_accounts i accountNames [] = None"
| "validate_accounts i accountNames (account # rest) =
     (if Name account = [] then Some (AccountNameEmpty i)
      else if Name account \<in> set accountNames then Some (DuplicateAccountName (Name account))
      else if CredsFile account = [] then Some (CredsFileEmpty (Name account))
      else if TokenFile account = [] then Some (TokenFileEmpty (Name account))
      else validate_accounts (Suc i) (Name account # accountNames) rest)"

text \<open>The loop of \<open>Validate\<close> over the providers.\<close>

fun validate_providers :: "Config \<Rightarrow> CloudProvider list \<Rightarrow> config_error option" where
  "validate_providers c [] = None"
| "validate_providers c (provider # rest) =
     (if provider = GoogleDrive then
        (if length (GetEnabledGoogleDriveAccounts c) = 0 then Some NoGoogleDriveAccounts
         else validate_providers c rest)
      else if provider = Dropbox \<or> provider = OneDrive \<or> provider = MEGACloud \<or> provider = IPFS
        then Some (ProviderNotImplemented provider)
      else Some (UnknownProvider provider))"

definition Validate :: "Config \<Rightarrow> error + unit" where
  "Validate c =
     (if ChunkSize (Chunk c) \<le> 0 then Inl (ConfigInvalid ChunkSizeNotPositive)
      else if CfgReplicationCount (Cloud c) < 1 then Inl (ConfigInvalid ReplicationCountTooSmall)
      else if CfgLoadBalancing (Cloud c) \<notin> {''round_robin'', ''random'', ''size_based''}
        then Inl (ConfigInvalid (InvalidLoadBalancing (CfgLoadBalancing (Cloud c))))
      else case validate_accounts 0 [] (GoogleDriveAccounts (Cloud c)) of
          Some e \<Rightarrow> Inl (ConfigInvalid e)
        | None \<Rightarrow>
            (case validate_providers c (CfgProviders (Cloud c)) of
               Some e \<Rightarrow> Inl (ConfigInvalid e)
             | None \<Rightarrow> Inr ()))"

section \<open>Downloading chunks (internal/cloudstorage/uploader.go)\<close>

text \<open>
  A Google Drive client is known by the calls the uploader makes: the content
  \<open>DownloadFile\<close> fetches for a file id (\<open>None\<close>: the call fails), the file id
  \<open>FindFileByName\<close> answers for a name, and the file id the Drive API answers when a file
  is created under a name with a content (\<open>FilesCreate\<close>, that is
  \<open>gd.service.Files.Create(driveFile).Media(file).Do()\<close>). The map \<open>googleDrives\<close> from
  account name to client is an association list; its first entry stands for the client a
  \<open>range\<close> over the map meets first.
\<close>

record GoogleDriveClient =
  DownloadFile :: "string \<Rightarrow> byte list option"
  FindFileByName :: "string \<Rightarrow> string option"
  FilesCreate :: "string \<Rightarrow> byte list \<Rightarrow> string option"

record CloudUploader =
  Strategy :: CloudDistributionStrategy
  googleDrives :: "(string \<times> GoogleDriveClient) list"

datatype download_error =
    NoClients                   \<comment> \<open>"no Google Drive clients initialized"\<close>
  | DriveCallFailed             \<comment> \<open>the error of \<open>DownloadFile\<close> or \<open>FindFileByName\<close>\<close>
  | NotImplemented string       \<comment> \<open>"dropbox not implemented yet" and the like\<close>
  | Unsupported string          \<comment> \<open>"unsupported cloud provider: %s"\<close>

text \<open>\<open>targetClient.DownloadFile(fileID, localPath)\<close>: the content lands in the local file.\<close>

definition drive_download ::
  "GoogleDriveClient \<Rightarrow> string \<Rightarrow> string \<Rightarrow> world \<Rightarrow> download_error option \<times> world" where
  "drive_download client fileID localPath w =
     (case DownloadFile client fileID of
        None \<Rightarrow> (Some DriveCallFailed, w)
      | Some content \<Rightarrow> (None, w\<lparr>files := (files w)(localPath \<mapsto> content)\<rparr>))"

text \<open>The \<open>case GoogleDrive\<close> arm of the \<open>switch\<close> in \<open>DownloadChunks\<close>.\<close>

definition gdrive_fetch ::
  "CloudUploader \<Rightarrow> ChunkInfo \<Rightarrow> string \<Rightarrow> string \<Rightarrow> string \<Rightarrow> world \<Rightarrow> download_error option \<times> world"
where
  "gdrive_fetch cu chunk provider cloudPath localPath w =
     (if length (googleDrives cu) > 0 then
        (case map_of (CloudIDs chunk) provider of
           Some fileID \<Rightarrow>
             drive_download
               (case map_of (CloudIDs chunk) (provider @ ''_account'') of
                  None \<Rightarrow> snd (hd (googleDrives cu))
                | Some accountName \<Rightarrow>
                    (case map_of (googleDrives cu) accountName of
                       None \<Rightarrow> snd (hd (googleDrives cu))
                     | Some client \<Rightarrow> client))
               fileID localPath w
         | None \<Rightarrow>
             (case FindFileByName
                     (case map_of (CloudIDs chunk) (provider @ ''_account'') of
                        None \<Rightarrow> snd (hd (googleDrives cu))
                      | Some accountName \<Rightarrow>
                          (case map_of (googleDrives cu) accountName of
                             None \<Rightarrow> snd (hd (googleDrives cu))
                           | Some client \<Rightarrow> client))
                     (filepath_Base cloudPath) of
                None \<Rightarrow> (Some DriveCallFailed, w)
              | Some fileID \<Rightarrow>
                  drive_download
                    (case map_of (CloudIDs chunk) (provider @ ''_account'') of
                       None \<Rightarrow> snd (hd (googleDrives cu))
                     | Some accountName \<Rightarrow>
                         (case map_of (googleDrives cu) accountName of
                            None \<Rightarrow> snd (hd (googleDrives cu))
                          | Some client \<Rightarrow> client))
                    fileID localPath w))
      else (Some NoClients, w))"

definition download_from ::
  "CloudUploader \<Rightarrow> ChunkInfo \<Rightarrow> string \<Rightarrow> string \<Rightarrow> string \<Rightarrow> world \<Rightarrow> download_error option \<times> world"
where
  "download_from cu chunk provider cloudPath localPath w =
     (if provider = GoogleDrive then gdrive_fetch cu chunk provider cloudPath localPath w
      else if provider = Dropbox then (Some (NotImplemented provider), w)
      else if provider = OneDrive then (Some (NotImplemented provider), w)
      else if provider = MEGACloud then (Some (NotImplemented provider), w)
      else if provider = IPFS then (Some (NotImplemented provider), w)
      else (Some (Unsupported provider), w))"

text \<open>
  The inner loop \<open>for i, cloudPath := range chunk.CloudPaths\<close>: it stops at the first
  destination that answers, or when the providers run out, or at the end of the paths.
  Each attempt leaves an event with its outcome (a failed one is what the source prints).
  Nothing records whether any attempt succeeded.
\<close>

fun try_destinations ::
  "CloudUploader \<Rightarrow> ChunkInfo \<Rightarrow> string \<Rightarrow> nat \<Rightarrow> string list \<Rightarrow> world \<Rightarrow> world" where
  "try_destinations cu chunk downloadDir i [] w = w"
| "try_destinations cu chunk downloadDir i (cloudPath # rest) w =
     (if length (ChunkProviders chunk) \<le> i then w
      else
        (case download_from cu chunk (ChunkProviders chunk ! i) cloudPath
                (chunkFile downloadDir (ID chunk)) w of
           (Some err, w1) \<Rightarrow>
             try_destinations cu chunk downloadDir (Suc i) rest
               (emit (EvDownload (ID chunk) (ChunkProviders chunk ! i) False) w1)
         | (None, w1) \<Rightarrow> emit (EvDownload (ID chunk) (ChunkProviders chunk ! i) True) w1))"

text \<open>The outer loop \<open>for _, chunk := range m.Chunks\<close>.\<close>

fun download_loop :: "CloudUploader \<Rightarrow> string \<Rightarrow> ChunkInfo list \<Rightarrow> world \<Rightarrow> (error + unit) \<times> world" where
  "download_loop cu downloadDir [] w = (Inr (), w)"
| "download_loop cu downloadDir (chunk # rest) w =
     (if length (CloudPaths chunk) = 0 then (Inl (NoCloudPaths (ID chunk)), w)
      else download_loop cu downloadDir rest
             (try_destinations cu chunk downloadDir 0 (CloudPaths chunk) w))"

definition DownloadChunks ::
  "library \<Rightarrow> CloudUploader \<Rightarrow> string \<Rightarrow> string \<Rightarrow> world \<Rightarrow> (error + unit) \<times> world" where
  "DownloadChunks lib cu manifestPath downloadDir w =
     (case ReadManifest lib manifestPath w of
        (Inl e, w1) \<Rightarrow> (Inl e, w1)
      | (Inr m, w1) \<Rightarrow> download_loop cu downloadDir (Chunks m) (snd (os_MkdirAll downloadDir w1)))"

section \<open>Uploading chunks (internal/cloudstorage/uploader.go)\<close>

definition GenerateCloudPath :: "CloudProvider \<Rightarrow> string \<Rightarrow> string" where
  "GenerateCloudPath provider chunkID =
     (if provider = GoogleDrive then ''distributed-chunks/'' @ chunkID @ ''.chunk''
      else if provider = Dropbox then ''/Apps/DistributedChunks/'' @ chunkID @ ''.chunk''
      else if provider = OneDrive then ''DistributedChunks/'' @ chunkID @ ''.chunk''
      else if provider = MEGACloud then ''chunks/'' @ chunkID @ ''.chunk''
      else if provider = IPFS then chunkID
      else filepath_Join ''chunks'' (chunkID @ ''.chunk''))"

datatype upload_error =
    NoClientsInitialized        \<comment> \<open>"no Google Drive clients initialized - check credentials"\<close>
  | DriveUploadFailed string    \<comment> \<open>"google Drive upload failed to account '%s': %w"\<close>
  | UploadNotImplemented string \<comment> \<open>"dropbox not implemented yet" and the like\<close>
  | UploadUnsupported string    \<comment> \<open>"unsupported cloud provider: %s"\<close>

text \<open>
  \<open>(*GoogleDriveClient).UploadFile\<close> (unnamed/part_003): the local file is opened and
  sent under the base name of \<open>cloudPath\<close>; the result is the id of the created file,
  \<open>None\<close> when the file cannot be opened or the Drive API fails.
\<close>

definition UploadFile :: "GoogleDriveClient \<Rightarrow> string \<Rightarrow> string \<Rightarrow> world \<Rightarrow> string option \<times> world" where
  "UploadFile gd localPath cloudPath w =
     (case files w localPath of
        None \<Rightarrow> (None, emit (EvOpen localPath) w)
      | Some content \<Rightarrow>
          (FilesCreate gd (filepath_Base cloudPath) content,
           emit (EvStat localPath) (emit (EvOpen localPath) w)))"

text \<open>
  \<open>uploadToGoogleDriveMultiAccount\<close>. The loop \<open>for name := range cu.googleDrives\<close>
  collects the account names in the order in which the \<open>range\<close> meets the keys of the
  map. Go does not specify that order, and it need not be the same from one \<open>range\<close> to
  the next, so the order met in this call is the argument \<open>accountNames\<close>. The index
  expression panics when \<open>chunkIndex\<close> is negative (\<open>%\<close> truncates). The result is
  the panic, or the returned error, or the account name and the file id. For a list
  \<open>accountNames\<close> that no \<open>range\<close> over the map can give, the definition follows the
  source too: \<open>%\<close> panics on an empty list, and a name that is not a key of the map
  gives the \<open>nil\<close> client, on which \<open>UploadFile\<close> fails if the local file cannot be
  opened and panics otherwise.
\<close>

definition uploadToGoogleDriveMultiAccount ::
  "CloudUploader \<Rightarrow> string list \<Rightarrow> string \<Rightarrow> string \<Rightarrow> int \<Rightarrow> world
     \<Rightarrow> (error + upload_error + string \<times> string) \<times> world"
where
  "uploadToGoogleDriveMultiAccount cu accountNames localPath cloudPath chunkIndex w =
     (if length (googleDrives cu) = 0 then (Inr (Inl NoClientsInitialized), w)
      else if length accountNames = 0 then (Inl DivideByZero, w)
      else if \<not> (0 \<le> chunkIndex smod int (length accountNames) \<and>
                 chunkIndex smod int (length accountNames) < int (length accountNames))
        then (Inl IndexOutOfRange, w)
      else
        (case map_of (googleDrives cu)
                (accountNames ! nat (chunkIndex smod int (length accountNames))) of
           None \<Rightarrow>
             (case files w localPath of
                None \<Rightarrow>
                  (Inr (Inl (DriveUploadFailed
                     (accountNames ! nat (chunkIndex smod int (length accountNames))))),
                   emit (EvOpen localPath) w)
              | Some content \<Rightarrow>
                  (Inl NilDereference, emit (EvStat localPath) (emit (EvOpen localPath) w)))
         | Some client \<Rightarrow>
             (case UploadFile client localPath cloudPath w of
                (None, w1) \<Rightarrow>
                  (Inr (Inl (DriveUploadFailed
                     (accountNames ! nat (chunkIndex smod int (length accountNames))))), w1)
              | (Some fileID, w1) \<Rightarrow>
                  (Inr (Inr (accountNames ! nat (chunkIndex smod int (length accountNames)),
                             fileID)), w1))))"

text \<open>
  The assignments \<open>cloudIDs[string(provider)] = fileID\<close> and
  \<open>cloudIDs[string(provider)+"_account"] = accountName\<close> of \<open>UploadChunks\<close>, on the map as an
  association list.
\<close>

definition record_ids ::
  "CloudProvider \<Rightarrow> string \<Rightarrow> string \<Rightarrow> (string \<times> string) list \<Rightarrow> (string \<times> string) list" where
  "record_ids provider accountName fileID cloudIDs =
     (if fileID \<noteq> [] then
        (if accountName \<noteq> []
         then AList.update (provider @ ''_account'') accountName
                (AList.update provider fileID cloudIDs)
         else AList.update provider fileID cloudIDs)
      else cloudIDs)"

text \<open>The \<open>switch provider\<close> of \<open>UploadChunks\<close>.\<close>

definition upload_to ::
  "CloudUploader \<Rightarrow> string list \<Rightarrow> CloudProvider \<Rightarrow> string \<Rightarrow> string \<Rightarrow> int \<Rightarrow> world
     \<Rightarrow> (error + upload_error + string \<times> string) \<times> world"
where
  "upload_to cu accountNames provider localPath cloudPath chunkIndex w =
     (if provider = GoogleDrive
        then uploadToGoogleDriveMultiAccount cu accountNames localPath cloudPath chunkIndex w
      else if provider = Dropbox then (Inr (Inl (UploadNotImplemented provider)), w)
      else if provider = OneDrive then (Inr (Inl (UploadNotImplemented provider)), w)
      else if provider = MEGACloud then (Inr (Inl (UploadNotImplemented provider)), w)
      else if provider = IPFS then (Inr (Inl (UploadNotImplemented provider)), w)
      else (Inr (Inl (UploadUnsupported provider)), w))"

text \<open>
  The inner loop \<open>for _, provider := range destinations\<close> of \<open>UploadChunks\<close>, with
  \<open>cloudPaths\<close>, \<open>providers\<close> and \<open>cloudIDs\<close> as accumulators. The position of the
  provider in \<open>destinations\<close> (the replica) is not used: the call for Google Drive gets
  \<open>chunk.Index\<close> only. \<open>ranges k\<close> is the order in which the \<open>k\<close>-th call of
  \<open>uploadToGoogleDriveMultiAccount\<close> meets the accounts; \<open>k\<close> counts these calls. A
  replica whose upload fails is skipped.
\<close>

fun upload_replicas ::
  "CloudUploader \<Rightarrow> (nat \<Rightarrow> string list) \<Rightarrow> string \<Rightarrow> ChunkInfo \<Rightarrow> CloudProvider list
     \<Rightarrow> string list \<Rightarrow> string list \<Rightarrow> (string \<times> string) list \<Rightarrow> nat \<Rightarrow> world
     \<Rightarrow> (error + string list \<times> string list \<times> (string \<times> string) list) \<times> nat \<times> world"
where
  "upload_replicas cu ranges localPath chunk [] cloudPaths providers cloudIDs k w =
     (Inr (cloudPaths, providers, cloudIDs), k, w)"
| "upload_replicas cu ranges localPath chunk (provider # rest) cloudPaths providers cloudIDs k w =
     (case upload_to cu (ranges k) provider localPath (GenerateCloudPath provider (ID chunk))
             (Index chunk) w of
        (Inl e, w1) \<Rightarrow> (Inl e, (if provider = GoogleDrive then Suc k else k), w1)
      | (Inr (Inl err), w1) \<Rightarrow>
          upload_replicas cu ranges localPath chunk rest cloudPaths providers cloudIDs
            (if provider = GoogleDrive then Suc k else k) w1
      | (Inr (Inr (accountName, fileID)), w1) \<Rightarrow>
          upload_replicas cu ranges localPath chunk rest
            (cloudPaths @ [GenerateCloudPath provider (ID chunk)])
            (providers @ [provider])
            (record_ids provider accountName fileID cloudIDs)
            (if provider = GoogleDrive then Suc k else k) w1)"

text \<open>
  The outer loop \<open>for i, chunk := range m.Chunks\<close>: the destinations of the chunk, its
  uploads, and the update of \<open>m.Chunks[i]\<close>.
\<close>

fun upload_loop ::
  "CloudUploader \<Rightarrow> (nat \<Rightarrow> string list) \<Rightarrow> string \<Rightarrow> ChunkInfo list \<Rightarrow> ChunkInfo list
     \<Rightarrow> nat \<Rightarrow> world \<Rightarrow> (error + ChunkInfo list) \<times> nat \<times> world"
where
  "upload_loop cu ranges localChunksDir [] updated k w = (Inr updated, k, w)"
| "upload_loop cu ranges localChunksDir (chunk # rest) updated k w =
     (case GetChunkDestination (Strategy cu) (Index chunk) of
        Inl e \<Rightarrow> (Inl e, k, w)
      | Inr destinations \<Rightarrow>
          (case upload_replicas cu ranges (chunkFile localChunksDir (ID chunk)) chunk
                  destinations [] [] [] k w of
             (Inl e, k1, w1) \<Rightarrow> (Inl e, k1, w1)
           | (Inr (cloudPaths, providers, cloudIDs), k1, w1) \<Rightarrow>
               upload_loop cu ranges localChunksDir rest
                 (updated @
                    [chunk\<lparr>CloudPaths := cloudPaths, ChunkProviders := providers,
                            UploadTime := clock w1,
                            CloudIDs := (if length cloudIDs > 0 then cloudIDs
                                         else CloudIDs chunk)\<rparr>])
                 k1 w1))"

definition UploadChunks ::
  "library \<Rightarrow> CloudUploader \<Rightarrow> (nat \<Rightarrow> string list) \<Rightarrow> string \<Rightarrow> string \<Rightarrow> nat \<Rightarrow> world
     \<Rightarrow> (error + unit) \<times> nat \<times> world"
where
  "UploadChunks lib cu ranges localChunksDir manifestPath k w =
     (case ReadManifest lib manifestPath w of
        (Inl e, w1) \<Rightarrow> (Inl e, k, w1)
      | (Inr m, w1) \<Rightarrow>
          (case upload_loop cu ranges localChunksDir (Chunks m) [] k w1 of
             (Inl e, k1, w2) \<Rightarrow> (Inl e, k1, w2)
           | (Inr chunks, k1, w2) \<Rightarrow>
               (case WriteManifestWithMode lib chunks manifestPath (OriginalName m)
                       (ManifestEncrypted m) ''cloud'' w2 of
                  (r, w3) \<Rightarrow> (r, k1, w3))))"

section \<open>Specification functions\<close>

text \<open>
  What a split is expected to produce, written without the file system: the input cut
  into pieces of \<open>n\<close> bytes (the last one may be shorter), and for the piece at each
  position its manifest record paired with the bytes stored for it. The nonce of the
  \<open>k\<close>-th encryption is the \<open>k\<close>-th read of the random source.
\<close>

fun chunks_of :: "nat \<Rightarrow> 'a list \<Rightarrow> 'a list list" where
  "chunks_of n xs = (if n = 0 \<or> xs = [] then [] else take n xs # chunks_of n (drop n xs))"

declare chunks_of.simps [simp del]

definition stored_bytes ::
  "library \<Rightarrow> EncryptionConfig \<Rightarrow> (nat \<Rightarrow> byte list option) \<Rightarrow> nat \<Rightarrow> byte list \<Rightarrow> byte list"
where
  "stored_bytes lib ec ent k d =
     (if Enabled ec then the (ent k) @ gcm_seal lib (Key ec) (the (ent k)) d else d)"

definition chunk_record :: "library \<Rightarrow> EncryptionConfig \<Rightarrow> int \<Rightarrow> byte list \<Rightarrow> byte list \<Rightarrow> ChunkInfo" where
  "chunk_record lib ec idx d stored =
     \<lparr>ID = hex (take 8 (sha256 lib d)), Hash = hex (sha256 lib d), Index = idx,
      Encrypted = Enabled ec, CloudPaths = [], ChunkProviders = [],
      Size = int (length stored), UploadTime = [], CloudIDs = []\<rparr>"

fun split_records ::
  "library \<Rightarrow> EncryptionConfig \<Rightarrow> (nat \<Rightarrow> byte list option) \<Rightarrow> nat \<Rightarrow> int \<Rightarrow> byte list list
     \<Rightarrow> (ChunkInfo \<times> byte list) list"
where
  "split_records lib ec ent k idx [] = []"
| "split_records lib ec ent k idx (d # ds) =
     (chunk_record lib ec idx d (stored_bytes lib ec ent k d), stored_bytes lib ec ent k d)
       # split_records lib ec ent (Suc k) (idx + 1) ds"

text \<open>The chunk files a split leaves behind: later writes to a path win.\<close>

definition chunk_files ::
  "string \<Rightarrow> (ChunkInfo \<times> byte list) list \<Rightarrow> string \<Rightarrow> byte list option" where
  "chunk_files outDir recs = map_of (rev (map (\<lambda>(c, s). (chunkFile outDir (ID c), s)) recs))"

text \<open>The reads and writes of the split loop: one read and one write a chunk, and the
  read that finds the end of the file.\<close>

definition split_trace :: "string \<Rightarrow> string \<Rightarrow> (ChunkInfo \<times> byte list) list \<Rightarrow> io_event list" where
  "split_trace path outDir recs =
     concat (map (\<lambda>(c, s). [EvRead path, EvWriteFile (chunkFile outDir (ID c))]) recs) @
     [EvRead path]"

text \<open>
  The conditions under which a split runs to its end: the chunk files and the manifest
  can be written, no chunk file is the input file, and with encryption the key has an
  AES key size and the random source answers.
\<close>

definition split_ready :: "string \<Rightarrow> string \<Rightarrow> EncryptionConfig \<Rightarrow> world \<Rightarrow> bool" where
  "split_ready path outDir ec w =
     ((\<forall>ident. chunkFile outDir ident \<noteq> path \<and> chunkFile outDir ident \<notin> readonly w) \<and>
      (Enabled ec \<longrightarrow> aes_key_ok (Key ec) \<and> (\<forall>k. drawn w \<le> k \<longrightarrow> entropy w k \<noteq> None)))"

text \<open>The records a split of \<open>input\<close> is expected to make, and its manifest.\<close>

definition expected_records ::
  "library \<Rightarrow> EncryptionConfig \<Rightarrow> world \<Rightarrow> int \<Rightarrow> byte list \<Rightarrow> (ChunkInfo \<times> byte list) list" where
  "expected_records lib ec w chunkSize input =
     split_records lib ec (entropy w) (drawn w) 0 (chunks_of (nat chunkSize) input)"

definition split_manifest ::
  "string \<Rightarrow> EncryptionConfig \<Rightarrow> world \<Rightarrow> (ChunkInfo \<times> byte list) list \<Rightarrow> Manifest" where
  "split_manifest path ec w recs =
     \<lparr>OriginalName = filepath_Base path, Chunks = map fst recs,
      ManifestEncrypted = Enabled ec, CreatedTime = clock w,
      TotalSize = totalSize (map fst recs), ChunkCount = int (length recs),
      DistributionMode = ''local''\<rparr>"

text \<open>The errors of \<open>AssembleFile\<close> that report a chunk that cannot be trusted: the
  cipher refused it, or its hash is not the recorded one.\<close>

fun integrity_error :: "error \<Rightarrow> bool" where
  "integrity_error (DecryptChunkFailed ident e) = True"
| "integrity_error (HashMismatch ident) = True"
| "integrity_error e = False"

text \<open>A chunk passes the checks of the assemble loop on the files \<open>fs\<close>.\<close>

definition chunk_ok ::
  "library \<Rightarrow> string \<Rightarrow> EncryptionConfig \<Rightarrow> (string \<Rightarrow> byte list option) \<Rightarrow> ChunkInfo \<Rightarrow> bool" where
  "chunk_ok lib dir ec fs c =
     (\<exists>s d. fs (chunkFile dir (ID c)) = Some s \<and> Decrypt lib ec s = Inr d \<and>
            Hash c = hex (sha256 lib d))"

text \<open>
  The orders in which a \<open>range\<close> over a Go map may meet its keys: every key once, in
  any order.
\<close>

definition range_keys :: "(string \<times> 'v) list \<Rightarrow> string list \<Rightarrow> bool" where
  "range_keys m names = (distinct names \<and> set names = fst ` set m)"

text \<open>
  The Google Drive account a call of \<open>uploadToGoogleDriveMultiAccount\<close> addressed: the
  account name it returns, or the one its error names when the upload itself failed.
\<close>

fun target_account :: "error + upload_error + string \<times> string \<Rightarrow> string option" where
  "target_account (Inr (Inr (accountName, fileID))) = Some accountName"
| "target_account (Inr (Inl (DriveUploadFailed accountName))) = Some accountName"
| "target_account r = None"

section \<open>A small environment for evaluating the model\<close>

text \<open>
  An instance of the library parameters on which the model can be run: a ``hash'' that
  pads the length and the data to 32 bytes, a ``cipher'' that appends a tag made of the
  nonce and the key, and a length-prefixed encoding of manifests. None of them is the
  real function; they only satisfy what the theorems below assume of the real ones.
\<close>

definition demo_sha256 :: "byte list \<Rightarrow> byte list" where
  "demo_sha256 d = take 32 (word_of_nat (length d) # d @ replicate 32 0)"

definition demo_tag :: "byte list \<Rightarrow> byte list \<Rightarrow> byte list" where
  "demo_tag key nonce = take 16 (nonce @ key @ replicate 16 0)"

definition demo_seal :: "byte list \<Rightarrow> byte list \<Rightarrow> byte list \<Rightarrow> byte list" where
  "demo_seal key nonce d = d @ demo_tag key nonce"

definition demo_open :: "byte list \<Rightarrow> byte list \<Rightarrow> byte list \<Rightarrow> byte list option" where
  "demo_open key nonce c =
     (if 16 \<le> length c \<and> drop (length c - 16) c = demo_tag key nonce
      then Some (take (length c - 16) c) else None)"

definition enc_nat :: "nat \<Rightarrow> byte list" where
  "enc_nat n = replicate n 1 @ [0]"

definition dec_nat :: "byte list \<Rightarrow> nat \<times> byte list" where
  "dec_nat bs = (length (takeWhile (\<lambda>b. b \<noteq> 0) bs), drop 1 (dropWhile (\<lambda>b. b \<noteq> 0) bs))"

definition enc_int :: "int \<Rightarrow> byte list" where
  "enc_int i = (if i < 0 then 1 else 0) # enc_nat (nat \<bar>i\<bar>)"

definition dec_int :: "byte list \<Rightarrow> int \<times> byte list" where
  "dec_int bs =
     (case dec_nat (drop 1 bs) of (n, r) \<Rightarrow> (if take 1 bs = [0] then int n else - int n, r))"

definition enc_bool :: "bool \<Rightarrow> byte list" where
  "enc_bool b = [if b then 1 else 0]"

definition dec_bool :: "byte list \<Rightarrow> bool \<times> byte list" where
  "dec_bool bs = (take 1 bs = [1], drop 1 bs)"

definition enc_str :: "string \<Rightarrow> byte list" where
  "enc_str s = enc_nat (length s) @ map (\<lambda>c. word_of_nat (of_char c)) s"

definition dec_str :: "byte list \<Rightarrow> string \<times> byte list" where
  "dec_str bs =
     (case dec_nat bs of (n, r) \<Rightarrow> (map (\<lambda>b. char_of (unat b)) (take n r), drop n r))"

definition enc_list :: "('a \<Rightarrow> byte list) \<Rightarrow> 'a list \<Rightarrow> byte list" where
  "enc_list enc xs = enc_nat (length xs) @ concat (map enc xs)"

primrec dec_many :: "(byte list \<Rightarrow> 'a \<times> byte list) \<Rightarrow> nat \<Rightarrow> byte list \<Rightarrow> 'a list \<times> byte list" where
  "dec_many dec 0 bs = ([], bs)"
| "dec_many dec (Suc n) bs =
     (case dec bs of (x, r) \<Rightarrow> (case dec_many dec n r of (xs, r') \<Rightarrow> (x # xs, r')))"

definition dec_list :: "(byte list \<Rightarrow> 'a \<times> byte list) \<Rightarrow> byte list \<Rightarrow> 'a list \<times> byte list" where
  "dec_list dec bs = (case dec_nat bs of (n, r) \<Rightarrow> dec_many dec n r)"

definition enc_kv :: "string \<times> string \<Rightarrow> byte list" where
  "enc_kv kv = enc_str (fst kv) @ enc_str (snd kv)"

definition dec_kv :: "byte list \<Rightarrow> (string \<times> string) \<times> byte list" where
  "dec_kv bs = (case dec_str bs of (k, r) \<Rightarrow> (case dec_str r of (v, r') \<Rightarrow> ((k, v), r')))"

definition enc_chunk :: "ChunkInfo \<Rightarrow> byte list" where
  "enc_chunk c =
     enc_str (ID c) @ enc_str (Hash c) @ enc_int (Index c) @ enc_bool (Encrypted c) @
     enc_list enc_str (CloudPaths c) @ enc_list enc_str (ChunkProviders c) @
     enc_int (Size c) @ enc_str (UploadTime c) @ enc_list enc_kv (CloudIDs c)"

definition dec_chunk :: "byte list \<Rightarrow> ChunkInfo \<times> byte list" where
  "dec_chunk bs =
     (case dec_str bs of (i, r1) \<Rightarrow>
      case dec_str r1 of (h, r2) \<Rightarrow>
      case dec_int r2 of (x, r3) \<Rightarrow>
      case dec_bool r3 of (e, r4) \<Rightarrow>
      case dec_list dec_str r4 of (cp, r5) \<Rightarrow>
      case dec_list dec_str r5 of (pr, r6) \<Rightarrow>
      case dec_int r6 of (sz, r7) \<Rightarrow>
      case dec_str r7 of (ut, r8) \<Rightarrow>
      case dec_list dec_kv r8 of (ids, r9) \<Rightarrow>
        (\<lparr>ID = i, Hash = h, Index = x, Encrypted = e, CloudPaths = cp, ChunkProviders = pr,
          Size = sz, UploadTime = ut, CloudIDs = ids\<rparr>, r9))"

definition enc_manifest :: "Manifest \<Rightarrow> byte list" where
  "enc_manifest m =
     enc_str (OriginalName m) @ enc_list enc_chunk (Chunks m) @ enc_bool (ManifestEncrypted m) @
     enc_str (CreatedTime m) @ enc_int (TotalSize m) @ enc_int (ChunkCount m) @
     enc_str (DistributionMode m)"

definition dec_manifest :: "byte list \<Rightarrow> Manifest \<times> byte list" where
  "dec_manifest bs =
     (case dec_str bs of (n, r1) \<Rightarrow>
      case dec_list dec_chunk r1 of (cs, r2) \<Rightarrow>
      case dec_bool r2 of (e, r3) \<Rightarrow>
      case dec_str r3 of (ct, r4) \<Rightarrow>
      case dec_int r4 of (ts, r5) \<Rightarrow>
      case dec_int r5 of (cc, r6) \<Rightarrow>
      case dec_str r6 of (dm, r7) \<Rightarrow>
        (\<lparr>OriginalName = n, Chunks = cs, ManifestEncrypted = e, CreatedTime = ct,
          TotalSize = ts, ChunkCount = cc, DistributionMode = dm\<rparr>, r7))"

definition demo_unmarshal :: "byte list \<Rightarrow> Manifest option" where
  "demo_unmarshal bs =
     (case dec_manifest bs of (m, r) \<Rightarrow> if r = [] \<and> enc_manifest m = bs then Some m else None)"

definition demo_lib :: library where
  "demo_lib = \<lparr>sha256 = demo_sha256, gcm_seal = demo_seal, gcm_open = demo_open,
      json_marshal = enc_manifest, json_unmarshal = demo_unmarshal\<rparr>"

definition demo_world :: "byte list \<Rightarrow> world" where
  "demo_world input =
     \<lparr>files = [''in.bin'' \<mapsto> input], readonly = {},
      entropy = (\<lambda>k. Some (replicate 12 (word_of_nat k))), drawn = 0,
      clock = ''2024-05-01T10:00:00Z'', trace = []\<rparr>"

text \<open>A manifest of one encrypted chunk, as an earlier split may have written it.\<close>

definition demo_manifest :: Manifest where
  "demo_manifest =
     \<lparr>OriginalName = ''in.bin'',
      Chunks = [\<lparr>ID = ''0401020304000000'', Hash = ''04010203040000000000000000000000'',
                 Index = 0, Encrypted = True, CloudPaths = [], ChunkProviders = [],
                 Size = 32, UploadTime = [], CloudIDs = []\<rparr>],
      ManifestEncrypted = True, CreatedTime = ''2020-01-01T00:00:00Z'',
      TotalSize = 32, ChunkCount = 1, DistributionMode = ''local''\<rparr>"

text \<open>
  The same manifest after an upload of its chunk to Google Drive, and an uploader that
  has no Google Drive client (a configuration without Google Drive accounts).
\<close>

definition demo_cloud_manifest :: Manifest where
  "demo_cloud_manifest =
     \<lparr>OriginalName = ''in.bin'',
      Chunks = [\<lparr>ID = ''0401020304000000'', Hash = ''04010203040000000000000000000000'',
                 Index = 0, Encrypted = True,
                 CloudPaths = [''distributed-chunks/0401020304000000.chunk''],
                 ChunkProviders = [''gdrive''],
                 Size = 32, UploadTime = ''2024-05-01T10:05:00Z'',
                 CloudIDs = [(''gdrive'', ''1ABC123''), (''gdrive_account'', ''primary'')]\<rparr>],
      ManifestEncrypted = True, CreatedTime = ''2024-05-01T10:05:00Z'',
      TotalSize = 32, ChunkCount = 1, DistributionMode = ''cloud''\<rparr>"

definition demo_uploader :: CloudUploader where
  "demo_uploader = \<lparr>Strategy = CustomCloudStrategy [GoogleDrive], googleDrives = []\<rparr>"

text \<open>
  An uploader with two Google Drive accounts that accept every file, and a run in which
  the \<open>range\<close> over the accounts meets them in one order at the first call and in the
  other order at the second.
\<close>

definition demo_client :: "string \<Rightarrow> GoogleDriveClient" where
  "demo_client account =
     \<lparr>DownloadFile = (\<lambda>fileID. None), FindFileByName = (\<lambda>fileName. None),
      FilesCreate = (\<lambda>fileName content. Some (account @ '':'' @ fileName))\<rparr>"

definition demo_two_accounts :: CloudUploader where
  "demo_two_accounts =
     \<lparr>Strategy = CustomCloudStrategy [GoogleDrive],
      googleDrives = [(''primary'', demo_client ''primary''), (''backup'', demo_client ''backup'')]\<rparr>"

definition demo_ranges :: "nat \<Rightarrow> string list" where
  "demo_ranges k = (if even k then [''primary'', ''backup''] else [''backup'', ''primary''])"

text \<open>
  A manifest of two chunks that are not encrypted, with their chunk files, before and
  after the upload of that run.
\<close>

definition demo_chunk :: "int \<Rightarrow> string \<Rightarrow> ChunkInfo" where
  "demo_chunk idx ident =
     \<lparr>ID = ident, Hash = ident @ replicate 48 CHR ''0'', Index = idx, Encrypted = False,
      CloudPaths = [], ChunkProviders = [], Size = 4, UploadTime = [], CloudIDs = []\<rparr>"

definition demo_uploaded :: "int \<Rightarrow> string \<Rightarrow> string \<Rightarrow> ChunkInfo" where
  "demo_uploaded idx ident account =
     (demo_chunk idx ident)
       \<lparr>CloudPaths := [''distributed-chunks/'' @ ident @ ''.chunk''],
        ChunkProviders := [''gdrive''], UploadTime := ''2024-05-01T10:00:00Z'',
        CloudIDs := [(''gdrive'', account @ '':'' @ ident @ ''.chunk''),
                     (''gdrive_account'', account)]\<rparr>"

definition demo_local_manifest :: Manifest where
  "demo_local_manifest =
     \<lparr>OriginalName = ''in.bin'',
      Chunks = [demo_chunk 0 ''0401020304000000'', demo_chunk 1 ''0405060708000000''],
      ManifestEncrypted = False, CreatedTime = ''2024-05-01T09:00:00Z'',
      TotalSize = 8, ChunkCount = 2, DistributionMode = ''local''\<rparr>"

definition demo_uploaded_manifest :: Manifest where
  "demo_uploaded_manifest =
     \<lparr>OriginalName = ''in.bin'',
      Chunks = [demo_uploaded 0 ''0401020304000000'' ''primary'',
                demo_uploaded 1 ''0405060708000000'' ''primary''],
      ManifestEncrypted = False, CreatedTime = ''2024-05-01T10:00:00Z'',
      TotalSize = 8, ChunkCount = 2, DistributionMode = ''cloud''\<rparr>"

definition demo_upload_world :: world where
  "demo_upload_world =
     (demo_world [1, 2, 3, 4, 5, 6, 7, 8])
       \<lparr>files := [''in.bin'' \<mapsto> [1, 2, 3, 4, 5, 6, 7, 8],
                   ''chunks/0401020304000000.chunk'' \<mapsto> [1, 2, 3, 4],
                   ''chunks/0405060708000000.chunk'' \<mapsto> [5, 6, 7, 8],
                   ''manifest.json'' \<mapsto> json_marshal demo_lib demo_local_manifest]\<rparr>"

section \<open>Verification: distribution strategy\<close>

lemma int64_id: "- (2 ^ 63) \<le> k \<Longrightarrow> k < 2 ^ 63 \<Longrightarrow> int64 k = k"
  unfolding int64_def by (simp add: sint_sbintrunc' signed_take_bit_int_eq_self)

lemma smod_nonneg: "0 \<le> k \<Longrightarrow> 0 < l \<Longrightarrow> (k::int) smod l = k mod l"
  by (simp add: signed_modulo_int_def sgn_if)

lemma provider_index:
  assumes "ps \<noteq> []" "0 \<le> c" "0 \<le> i" "c + i < 2 ^ 63"
  shows "int64 (c + i) smod int (length ps) = int ((nat c + nat i) mod length ps)"
proof -
  have "int64 (c + i) = c + i" using assms by (intro int64_id) auto
  moreover have "(c + i) smod int (length ps) = (c + i) mod int (length ps)"
    using assms by (intro smod_nonneg) auto
  moreover have "c + i = int (nat c + nat i)" using assms by simp
  ultimately show ?thesis by (simp only: zmod_int)
qed

lemma round_robin_loop_eq:
  assumes "ps \<noteq> []" "0 \<le> c" "0 \<le> i" "c + r \<le> 2 ^ 63"
  shows "round_robin_loop ps c r i acc =
         Inr (acc @ map (\<lambda>j. ps ! ((nat c + j) mod length ps)) [nat i..<nat r])"
  using assms
proof (induction ps c r i acc rule: round_robin_loop.induct)
  case (1 ps c r i acc)
  show ?case
  proof (cases "i < r")
    case False
    then show ?thesis by (simp add: round_robin_loop.simps[of ps c r i acc])
  next
    case True
    have idx: "int64 (c + i) smod int (length ps) = int ((nat c + nat i) mod length ps)"
      using 1 True by (intro provider_index) auto
    have lt: "(nat c + nat i) mod length ps < length ps" using 1 by simp
    have step: "round_robin_loop ps c r i acc =
        round_robin_loop ps c r (i + 1) (acc @ [ps ! ((nat c + nat i) mod length ps)])"
      using True lt by (subst round_robin_loop.simps) (simp add: idx)
    have IH: "round_robin_loop ps c r (i + 1) (acc @ [ps ! ((nat c + nat i) mod length ps)]) =
       Inr ((acc @ [ps ! ((nat c + nat i) mod length ps)]) @
            map (\<lambda>j. ps ! ((nat c + j) mod length ps)) [nat (i + 1)..<nat r])"
      using "1.IH"[OF True] 1 True lt by (simp add: idx)
    have "nat (i + 1) = Suc (nat i)" using 1 by simp
    moreover have "nat i < nat r" using True 1 by simp
    ultimately have "[nat i..<nat r] = nat i # [nat (i + 1)..<nat r]"
      by (simp only: upt_conv_Cons)
    then show ?thesis using step IH by simp
  qed
qed


lemma GetChunkDestination_eq:
  assumes "Providers cds \<noteq> []" "0 \<le> ReplicationCount cds" "0 \<le> c"
    "c + ReplicationCount cds \<le> 2 ^ 63"
  shows "GetChunkDestination cds c =
    Inr (map (\<lambda>i. Providers cds ! ((nat c + i) mod length (Providers cds)))
          [0..<nat (ReplicationCount cds)])"
  using assms round_robin_loop_eq[of "Providers cds" c 0 "ReplicationCount cds" "[]"]
  by (simp add: GetChunkDestination_def)

lemma rotation_inj:
  assumes "k < P" "k' < P" "(s + k) mod P = (s + k') mod (P::nat)"
  shows "k = k'"
proof -
  have *: "a = b" if "a \<le> b" "b < P" "(s + a) mod P = (s + b) mod P" for a b :: nat
  proof -
    have "P dvd (s + b) - (s + a)"
      using that by (subst mod_eq_dvd_iff_nat[symmetric]) auto
    then have "P dvd b - a" by simp
    then show ?thesis using that by (auto dest: dvd_imp_le intro: ccontr)
  qed
  show ?thesis
  proof (cases "k \<le> k'")
    case True then show ?thesis using *[of k k'] assms by simp
  next
    case False then show ?thesis using *[of k' k] assms by simp
  qed
qed

lemma rotation_mset:
  assumes "0 < P"
  shows "mset (map (\<lambda>k. (s + k) mod P) [0..<P]) = mset [0..<P]"
proof -
  let ?xs = "map (\<lambda>k. (s + k) mod P) [0..<P]"
  have inj: "inj_on (\<lambda>k. (s + k) mod P) (set [0..<P])"
    by (rule inj_onI) (auto dest: rotation_inj)
  have d: "distinct ?xs" using inj by (simp add: distinct_map)
  have sub: "set ?xs \<subseteq> {0..<P}" using assms by auto
  have "card (set ?xs) = P" using d distinct_card[of ?xs] by simp
  then have "set ?xs = {0..<P}" using sub by (intro card_subset_eq) auto
  then show ?thesis using d by (intro iffD1[OF set_eq_iff_mset_eq_distinct]) auto
qed

lemma rotation_pool_mset:
  assumes "pool \<noteq> []"
  shows "mset (map (\<lambda>k. pool ! ((s + k) mod length pool)) [0..<length pool]) = mset pool"
proof -
  have "mset (map (\<lambda>k. pool ! ((s + k) mod length pool)) [0..<length pool]) =
        image_mset ((!) pool) (mset (map (\<lambda>k. (s + k) mod length pool) [0..<length pool]))"
    by (simp add: multiset.map_comp comp_def)
  also have "\<dots> = image_mset ((!) pool) (mset [0..<length pool])"
    using assms rotation_mset[of "length pool" s] by simp
  also have "\<dots> = mset (map ((!) pool) [0..<length pool])" by simp
  also have "\<dots> = mset pool" by (simp only: map_nth)
  finally show ?thesis .
qed

text \<open>
  Claim C9. A strategy with an empty provider pool answers the single destination
  \<open>Local\<close> for every chunk index, negative ones included, and never fails. With a
  non-empty pool, a replication count \<open>r \<ge> 0\<close> and a chunk index \<open>c \<ge> 0\<close> (with
  \<open>c + r\<close> inside the 64-bit range of Go's \<open>int\<close>) it returns exactly \<open>r\<close>
  destinations, all from the pool; when \<open>r\<close> exceeds the pool size the list repeats
  with the pool size as period.
\<close>

theorem GetChunkDestination_pool:
  "(Providers cds = [] \<longrightarrow> GetChunkDestination cds c = Inr [Local]) \<and>
   (Providers cds \<noteq> [] \<and> 0 \<le> ReplicationCount cds \<and> 0 \<le> c \<and>
    c + ReplicationCount cds \<le> 2 ^ 63 \<longrightarrow>
      (\<exists>ds. GetChunkDestination cds c = Inr ds \<and>
            int (length ds) = ReplicationCount cds \<and>
            set ds \<subseteq> set (Providers cds) \<and>
            (\<forall>i. i + length (Providers cds) < length ds \<longrightarrow>
                 ds ! (i + length (Providers cds)) = ds ! i)))"
proof (intro conjI impI)
  assume "Providers cds = []"
  then show "GetChunkDestination cds c = Inr [Local]"
    by (simp add: GetChunkDestination_def)
next
  let ?P = "length (Providers cds)"
  let ?ds = "map (\<lambda>i. Providers cds ! ((nat c + i) mod ?P)) [0..<nat (ReplicationCount cds)]"
  assume a: "Providers cds \<noteq> [] \<and> 0 \<le> ReplicationCount cds \<and> 0 \<le> c \<and>
    c + ReplicationCount cds \<le> 2 ^ 63"
  then have eq: "GetChunkDestination cds c = Inr ?ds"
    by (intro GetChunkDestination_eq) auto
  have len: "int (length ?ds) = ReplicationCount cds" using a by simp
  have sub: "set ?ds \<subseteq> set (Providers cds)" using a by auto
  have rep: "\<forall>i. i + ?P < length ?ds \<longrightarrow> ?ds ! (i + ?P) = ?ds ! i"
    by (auto simp: add.assoc[symmetric])
  show "\<exists>ds. GetChunkDestination cds c = Inr ds \<and>
            int (length ds) = ReplicationCount cds \<and>
            set ds \<subseteq> set (Providers cds) \<and>
            (\<forall>i. i + ?P < length ds \<longrightarrow> ds ! (i + ?P) = ds ! i)"
    using eq len sub rep by blast
qed

theorem GetChunkDestination_pool_witness:
  "GetChunkDestination \<lparr>Providers = [], ReplicationCount = 1, LoadBalancing = ''round_robin''\<rparr> 5
     = Inr [Local] \<and>
   (\<exists>ds. GetChunkDestination
          \<lparr>Providers = [GoogleDrive, Dropbox], ReplicationCount = 3, LoadBalancing = ''random''\<rparr> 1
          = Inr ds \<and> int (length ds) = 3 \<and> set ds \<subseteq> {GoogleDrive, Dropbox} \<and>
          (\<forall>i. i + 2 < length ds \<longrightarrow> ds ! (i + 2) = ds ! i))"
  using GetChunkDestination_pool
      [of "\<lparr>Providers = [], ReplicationCount = 1, LoadBalancing = ''round_robin''\<rparr>" 5]
    GetChunkDestination_pool
      [of "\<lparr>Providers = [GoogleDrive, Dropbox], ReplicationCount = 3, LoadBalancing = ''random''\<rparr>" 1]
  by simp

text \<open>
  Round-robin over the providers. For a non-empty provider list of size \<open>P\<close> under
  round-robin, the provider of the \<open>i\<close>-th replica of chunk index \<open>c\<close> is
  \<open>Providers[(c + i) mod P]\<close>. With replication count 1, the \<open>P\<close> consecutive chunk
  indices \<open>s, \<dots>, s + P - 1\<close> are sent to the slots \<open>(s + k) mod P\<close> of the list,
  which are a permutation of \<open>0, \<dots>, P - 1\<close>: every entry is used exactly once, and
  the \<open>P\<close> providers are distinct when the entries of the list are. This is about the
  providers only; the accounts of a provider are chosen by the uploader.
\<close>

lemma round_robin_providers:
  assumes "Providers cds \<noteq> []" and "LoadBalancing cds = ''round_robin''"
  shows "(0 \<le> c \<and> 0 \<le> ReplicationCount cds \<and> c + ReplicationCount cds \<le> 2 ^ 63 \<longrightarrow>
            GetChunkDestination cds c =
              Inr (map (\<lambda>i. Providers cds ! ((nat c + i) mod length (Providers cds)))
                    [0..<nat (ReplicationCount cds)])) \<and>
         (ReplicationCount cds = 1 \<and> int s + int (length (Providers cds)) \<le> 2 ^ 63 \<longrightarrow>
            map (\<lambda>k. GetChunkDestination cds (int (s + k))) [0..<length (Providers cds)] =
              map (\<lambda>k. Inr [Providers cds ! ((s + k) mod length (Providers cds))])
                [0..<length (Providers cds)] \<and>
            mset (map (\<lambda>k. (s + k) mod length (Providers cds)) [0..<length (Providers cds)]) =
              mset [0..<length (Providers cds)] \<and>
            mset (map (\<lambda>k. Providers cds ! ((s + k) mod length (Providers cds)))
                    [0..<length (Providers cds)]) = mset (Providers cds) \<and>
            (distinct (Providers cds) \<longrightarrow>
               distinct (map (\<lambda>k. Providers cds ! ((s + k) mod length (Providers cds)))
                    [0..<length (Providers cds)])))"
proof (intro conjI impI)
  assume "0 \<le> c \<and> 0 \<le> ReplicationCount cds \<and> c + ReplicationCount cds \<le> 2 ^ 63"
  then show "GetChunkDestination cds c =
      Inr (map (\<lambda>i. Providers cds ! ((nat c + i) mod length (Providers cds)))
            [0..<nat (ReplicationCount cds)])"
    using assms(1) by (intro GetChunkDestination_eq) auto
next
  let ?P = "length (Providers cds)"
  assume a: "ReplicationCount cds = 1 \<and> int s + int ?P \<le> 2 ^ 63"
  have "GetChunkDestination cds (int (s + k)) = Inr [Providers cds ! ((s + k) mod ?P)]"
    if "k < ?P" for k
    using GetChunkDestination_eq[of cds "int (s + k)"] assms(1) a that
    by (simp add: nat_add_distrib)
  then show "map (\<lambda>k. GetChunkDestination cds (int (s + k))) [0..<?P] =
      map (\<lambda>k. Inr [Providers cds ! ((s + k) mod ?P)]) [0..<?P]"
    by simp
next
  show "mset (map (\<lambda>k. (s + k) mod length (Providers cds)) [0..<length (Providers cds)]) =
      mset [0..<length (Providers cds)]"
    using assms(1) by (intro rotation_mset) simp
next
  show "mset (map (\<lambda>k. Providers cds ! ((s + k) mod length (Providers cds)))
      [0..<length (Providers cds)]) = mset (Providers cds)"
    using assms(1) by (rule rotation_pool_mset)
next
  assume "distinct (Providers cds)"
  then show "distinct (map (\<lambda>k. Providers cds ! ((s + k) mod length (Providers cds)))
      [0..<length (Providers cds)])"
    by (simp only: mset_eq_imp_distinct_iff[OF rotation_pool_mset[OF assms(1), of s]])
qed

lemma round_robin_providers_example:
  "GetChunkDestination \<lparr>Providers = [GoogleDrive, Dropbox, OneDrive], ReplicationCount = 2,
       LoadBalancing = ''round_robin''\<rparr> 5 = Inr [OneDrive, GoogleDrive] \<and>
   map (\<lambda>k. GetChunkDestination \<lparr>Providers = [GoogleDrive, Dropbox, OneDrive],
       ReplicationCount = 1, LoadBalancing = ''round_robin''\<rparr> (int (7 + k))) [0..<3] =
     [Inr [Dropbox], Inr [OneDrive], Inr [GoogleDrive]]"
  using round_robin_providers[of "\<lparr>Providers = [GoogleDrive, Dropbox, OneDrive], ReplicationCount = 2,
       LoadBalancing = ''round_robin''\<rparr>" 5 0]
    round_robin_providers[of "\<lparr>Providers = [GoogleDrive, Dropbox, OneDrive], ReplicationCount = 1,
       LoadBalancing = ''round_robin''\<rparr>" 0 7]
  by (simp add: upt_conv_Cons)

section \<open>Verification: the evaluation environment meets the assumptions\<close>

lemma dec_nat_enc [simp]: "dec_nat (enc_nat n @ r) = (n, r)"
  by (induction n) (auto simp: dec_nat_def enc_nat_def)

lemma dec_int_enc [simp]: "dec_int (enc_int i @ r) = (i, r)"
  by (auto simp: dec_int_def enc_int_def)

lemma dec_bool_enc [simp]: "dec_bool (enc_bool b @ r) = (b, r)"
  by (auto simp: dec_bool_def enc_bool_def)

lemma char_byte [simp]: "char_of (unat (word_of_nat (of_char c) :: byte)) = c"
proof -
  have "(of_char c :: nat) < 256" by simp
  then have "unat (word_of_nat (of_char c) :: byte) = of_char c"
    by (simp add: unat_of_nat)
  then show ?thesis by simp
qed

lemma dec_str_enc [simp]: "dec_str (enc_str s @ r) = (s, r)"
  by (simp add: dec_str_def enc_str_def comp_def)

lemma dec_many_enc:
  assumes "\<And>x r. dec (enc x @ r) = (x, r)"
  shows "dec_many dec (length xs) (concat (map enc xs) @ r) = (xs, r)"
  by (induction xs) (simp_all add: assms)

lemma dec_list_enc:
  assumes "\<And>x r. dec (enc x @ r) = (x, r)"
  shows "dec_list dec (enc_list enc xs @ r) = (xs, r)"
  by (simp add: dec_list_def enc_list_def dec_many_enc[OF assms])

lemma dec_kv_enc [simp]: "dec_kv (enc_kv kv @ r) = (kv, r)"
  by (simp add: dec_kv_def enc_kv_def)

lemma dec_chunk_enc [simp]: "dec_chunk (enc_chunk c @ r) = (c, r)"
  by (simp add: dec_chunk_def enc_chunk_def dec_list_enc)

lemma dec_manifest_enc [simp]: "dec_manifest (enc_manifest m @ r) = (m, r)"
  by (simp add: dec_manifest_def enc_manifest_def dec_list_enc)

lemma demo_json_roundtrip: "json_unmarshal demo_lib (json_marshal demo_lib m) = Some m"
  using dec_manifest_enc[of m "[]"] by (simp add: demo_lib_def demo_unmarshal_def)

lemma demo_gcm_roundtrip: "gcm_open demo_lib key nonce (gcm_seal demo_lib key nonce d) = Some d"
  by (simp add: demo_lib_def demo_open_def demo_seal_def demo_tag_def)

lemma demo_sha256_length: "length (sha256 demo_lib d) = 32"
  by (simp add: demo_lib_def demo_sha256_def)

section \<open>Verification: the split loop\<close>

lemma chunks_of_step:
  assumes "0 < n" "off < length xs"
  shows "chunks_of n (drop off xs) =
         take n (drop off xs) # chunks_of n (drop (off + length (take n (drop off xs))) xs)"
proof -
  have "drop off xs \<noteq> []" using assms by simp
  then have "chunks_of n (drop off xs) = take n (drop off xs) # chunks_of n (drop n (drop off xs))"
    using assms by (subst chunks_of.simps) simp
  moreover have "drop n (drop off xs) = drop (off + length (take n (drop off xs))) xs"
    using assms by (simp add: min_def add.commute)
  ultimately show ?thesis by simp
qed

lemma chunks_of_Nil [simp]: "chunks_of n [] = []"
  by (subst chunks_of.simps) simp

lemma chunks_of_end: "length xs \<le> off \<Longrightarrow> chunks_of n (drop off xs) = []"
  by (subst chunks_of.simps) simp

lemma concat_chunks_of: "0 < n \<Longrightarrow> concat (chunks_of n xs) = xs"
proof (induction n xs rule: chunks_of.induct)
  case (1 n xs)
  show ?case
  proof (cases "xs = []")
    case True then show ?thesis by (subst chunks_of.simps) simp
  next
    case False
    then have "concat (chunks_of n xs) = take n xs @ concat (chunks_of n (drop n xs))"
      using 1(2) by (subst chunks_of.simps) simp
    then show ?thesis using 1 False by simp
  qed
qed

lemma chunks_of_nonempty: "d \<in> set (chunks_of n xs) \<Longrightarrow> d \<noteq> [] \<and> length d \<le> n"
proof (induction n xs rule: chunks_of.induct)
  case (1 n xs)
  show ?case
  proof (cases "n = 0 \<or> xs = []")
    case True then show ?thesis using 1(2) by (subst (asm) chunks_of.simps) simp
  next
    case False
    then have "d = take n xs \<or> d \<in> set (chunks_of n (drop n xs))"
      using 1(2) by (subst (asm) chunks_of.simps) simp
    then show ?thesis using 1(1) False by auto
  qed
qed

lemma split_loop_end:
  assumes "files w path = Some input" "length input \<le> off" "1 \<le> chunkSize"
  shows "split_loop lib path outDir ec chunkSize off index chunks w =
         Some (Inr chunks, emit (EvRead path) w)"
  using assms by (subst split_loop.simps) (simp add: file_Read_def)

lemma split_loop_step:
  assumes "files w path = Some input" "off < length input" "1 \<le> chunkSize"
    and "split_ready path outDir ec w"
  shows "split_loop lib path outDir ec chunkSize off index chunks w =
         split_loop lib path outDir ec chunkSize
           (off + length (take (nat chunkSize) (drop off input))) (index + 1)
           (chunks @ [chunk_record lib ec index (take (nat chunkSize) (drop off input))
                 (stored_bytes lib ec (entropy w) (drawn w) (take (nat chunkSize) (drop off input)))])
           (w\<lparr>drawn := (if Enabled ec then Suc (drawn w) else drawn w),
              files := (files w)(chunkFile outDir (hex (take 8 (sha256 lib (take (nat chunkSize) (drop off input)))))
                     \<mapsto> stored_bytes lib ec (entropy w) (drawn w) (take (nat chunkSize) (drop off input))),
              trace := trace w @ [EvRead path,
                 EvWriteFile (chunkFile outDir (hex (take 8 (sha256 lib (take (nat chunkSize) (drop off input))))))]\<rparr>)"
proof -
  let ?d = "take (nat chunkSize) (drop off input)"
  have ne: "?d \<noteq> []" using assms by simp
  have rd: "file_Read path off chunkSize w = (?d, False, emit (EvRead path) w)"
    using assms by (simp add: file_Read_def)
  show ?thesis
  proof (cases "Enabled ec")
    case False
    then show ?thesis using assms(4) ne
      by (subst split_loop.simps)
         (simp add: rd Encrypt_def os_WriteFile_def split_ready_def emit_def
            chunk_record_def stored_bytes_def)
  next
    case True
    then obtain nonce where nonce: "entropy w (drawn w) = Some nonce"
      using assms(4) by (auto simp: split_ready_def)
    then show ?thesis using assms(4) ne True
      by (subst split_loop.simps)
         (simp add: rd Encrypt_def os_WriteFile_def split_ready_def emit_def
            chunk_record_def stored_bytes_def)
  qed
qed


lemma split_records_plain:
  "\<not> Enabled ec \<Longrightarrow> split_records lib ec ent k idx ds = split_records lib ec ent k' idx ds"
  by (induction ds arbitrary: k k' idx) (auto simp: stored_bytes_def)

lemma chunk_files_Cons:
  "m ++ chunk_files outDir ((c, s) # recs) = m(chunkFile outDir (ID c) \<mapsto> s) ++ chunk_files outDir recs"
  by (simp add: chunk_files_def map_add_assoc[symmetric])

lemma chunk_files_Nil: "m ++ chunk_files outDir [] = m"
  by (simp add: chunk_files_def)

lemma split_loop_correct:
  assumes "files w path = Some input" "off \<le> length input" "1 \<le> chunkSize"
    and "split_ready path outDir ec w"
  shows "\<exists>w'. split_loop lib path outDir ec chunkSize off index chunks w =
           Some (Inr (chunks @ map fst (split_records lib ec (entropy w) (drawn w) index
                      (chunks_of (nat chunkSize) (drop off input)))), w') \<and>
         files w' = files w ++ chunk_files outDir (split_records lib ec (entropy w) (drawn w) index
                      (chunks_of (nat chunkSize) (drop off input))) \<and>
         readonly w' = readonly w \<and> entropy w' = entropy w \<and> clock w' = clock w \<and>
         trace w' = trace w @ split_trace path outDir (split_records lib ec (entropy w) (drawn w) index
                      (chunks_of (nat chunkSize) (drop off input)))"
  using assms
proof (induction "length input - off" arbitrary: off index chunks w rule: less_induct)
  case less
  show ?case
  proof (cases "off < length input")
    case False
    then have "length input \<le> off" by simp
    then show ?thesis using less.prems
      by (simp add: split_loop_end chunks_of_end chunk_files_Nil emit_def split_trace_def)
  next
    case True
    let ?d = "take (nat chunkSize) (drop off input)"
    let ?s = "stored_bytes lib ec (entropy w) (drawn w) ?d"
    let ?c = "chunk_record lib ec index ?d ?s"
    let ?cp = "chunkFile outDir (hex (take 8 (sha256 lib ?d)))"
    let ?w3 = "w\<lparr>drawn := (if Enabled ec then Suc (drawn w) else drawn w),
              files := (files w)(?cp \<mapsto> ?s),
              trace := trace w @ [EvRead path, EvWriteFile ?cp]\<rparr>"
    let ?off = "off + length ?d"
    have n: "0 < nat chunkSize" using less.prems by simp
    have len: "0 < length ?d" using True less.prems by simp
    have step: "split_loop lib path outDir ec chunkSize off index chunks w =
         split_loop lib path outDir ec chunkSize ?off (index + 1) (chunks @ [?c]) ?w3"
      using less.prems True by (intro split_loop_step) auto
    have f3: "files ?w3 path = Some input"
      using less.prems by (auto simp: split_ready_def)
    have r3: "split_ready path outDir ec ?w3"
      using less.prems(4) by (auto simp: split_ready_def)
    have o3: "?off \<le> length input" using True by simp
    have m3: "length input - ?off < length input - off" using True len by simp
    obtain w' where w': "split_loop lib path outDir ec chunkSize ?off (index + 1) (chunks @ [?c]) ?w3 =
           Some (Inr ((chunks @ [?c]) @ map fst (split_records lib ec (entropy ?w3) (drawn ?w3) (index + 1)
                      (chunks_of (nat chunkSize) (drop ?off input)))), w')"
         "files w' = files ?w3 ++ chunk_files outDir (split_records lib ec (entropy ?w3) (drawn ?w3) (index + 1)
                      (chunks_of (nat chunkSize) (drop ?off input)))"
         "readonly w' = readonly ?w3" "entropy w' = entropy ?w3" "clock w' = clock ?w3"
         "trace w' = trace ?w3 @ split_trace path outDir (split_records lib ec (entropy ?w3) (drawn ?w3) (index + 1)
                      (chunks_of (nat chunkSize) (drop ?off input)))"
      using less.hyps[OF m3 f3 o3 less.prems(3) r3, of "index + 1" "chunks @ [?c]"] by blast
    have recs3: "split_records lib ec (entropy ?w3) (drawn ?w3) (index + 1)
                      (chunks_of (nat chunkSize) (drop ?off input)) =
          split_records lib ec (entropy w) (Suc (drawn w)) (index + 1)
                      (chunks_of (nat chunkSize) (drop ?off input))"
      using split_records_plain[of ec lib "entropy w" "drawn w" "index + 1" _ "Suc (drawn w)"]
      by (cases "Enabled ec") auto
    have unfold: "split_records lib ec (entropy w) (drawn w) index (chunks_of (nat chunkSize) (drop off input)) =
        (?c, ?s) # split_records lib ec (entropy w) (Suc (drawn w)) (index + 1)
                      (chunks_of (nat chunkSize) (drop ?off input))"
      using chunks_of_step[OF n True] by simp
    have idc: "ID ?c = hex (take 8 (sha256 lib ?d))" by (simp add: chunk_record_def)
    have tr: "split_trace path outDir ((?c, ?s) # recs) =
        [EvRead path, EvWriteFile ?cp] @ split_trace path outDir recs" for recs
      by (simp add: split_trace_def idc)
    show ?thesis
      using w' step
      by (simp only: recs3 unfold chunk_files_Cons idc tr)
         (simp del: split_records.simps)
  qed
qed

section \<open>Verification: records, chunk files and the assemble loop\<close>

lemma split_records_length [simp]: "length (split_records lib ec ent k idx ds) = length ds"
  by (induction ds arbitrary: k idx) auto

lemma split_records_nth:
  "i < length ds \<Longrightarrow> split_records lib ec ent k idx ds ! i =
     (chunk_record lib ec (idx + int i) (ds ! i) (stored_bytes lib ec ent (k + i) (ds ! i)),
      stored_bytes lib ec ent (k + i) (ds ! i))"
proof (induction ds arbitrary: k idx i)
  case Nil then show ?case by simp
next
  case (Cons d ds)
  show ?case
  proof (cases i)
    case 0 then show ?thesis by simp
  next
    case (Suc j)
    then show ?thesis using Cons.prems Cons.IH[of j "Suc k" "idx + 1"] by (simp add: add.assoc)
  qed
qed

lemma split_records_Index:
  "map (Index \<circ> fst) (split_records lib ec ent k idx ds) = map (\<lambda>i. idx + int i) [0..<length ds]"
  by (rule nth_equalityI) (simp_all add: split_records_nth chunk_record_def)

lemma sorted_split_records:
  "sorted (map Index (map fst (split_records lib ec ent k idx ds)))"
proof -
  have "sorted (map (\<lambda>i. idx + int i) [0..<length ds])"
    by (rule sorted_map[THEN iffD2]) (auto simp: sorted_wrt_iff_nth_less)
  then show ?thesis using split_records_Index[of lib ec ent k idx ds] by simp
qed

lemma chunkFile_inj: "chunkFile dir a = chunkFile dir b \<Longrightarrow> a = b"
  by (auto simp: chunkFile_def filepath_Join_def split: if_splits)

lemma chunk_files_SomeD:
  "chunk_files outDir recs p = Some s \<Longrightarrow> \<exists>c. (c, s) \<in> set recs \<and> p = chunkFile outDir (ID c)"
  unfolding chunk_files_def by (auto dest!: map_of_SomeD)

lemma chunk_files_defined:
  "(c, s) \<in> set recs \<Longrightarrow> \<exists>s'. chunk_files outDir recs (chunkFile outDir (ID c)) = Some s'"
proof -
  assume "(c, s) \<in> set recs"
  then have "chunkFile outDir (ID c) \<in> fst ` set (rev (map (\<lambda>(c, s). (chunkFile outDir (ID c), s)) recs))"
    by force
  then show ?thesis unfolding chunk_files_def
    by (metis domD dom_map_of_conv_image_fst)
qed

lemma chunk_files_last:
  assumes "recs = xs @ (c, s) # ys" "\<forall>(c', s') \<in> set ys. ID c' \<noteq> ID c"
  shows "chunk_files outDir recs (chunkFile outDir (ID c)) = Some s"
proof -
  have "map_of (rev (map (\<lambda>(c, s). (chunkFile outDir (ID c), s)) ys)) (chunkFile outDir (ID c)) = None"
    using assms(2) by (fastforce simp: map_of_eq_None_iff image_iff dest: chunkFile_inj)
  then show ?thesis using assms(1)
    by (simp add: chunk_files_def map_add_def)
qed

lemma assemble_loop_correct:
  assumes "list_all2 (\<lambda>c d. \<exists>s. files w (chunkFile dir (ID c)) = Some s \<and>
              Decrypt lib ec s = Inr d \<and> Hash c = hex (sha256 lib d)) cs ds"
    and "\<forall>ident. chunkFile dir ident \<noteq> out" and "out \<notin> readonly w"
    and "files w out = Some acc"
  shows "\<exists>w'. assemble_loop lib dir out ec cs w = (Inr (), w') \<and>
           files w' = (files w)(out \<mapsto> acc @ concat ds) \<and> readonly w' = readonly w"
  using assms
proof (induction cs arbitrary: ds w acc)
  case Nil
  then show ?case by (auto simp: fun_upd_idem)
next
  case (Cons c cs)
  from Cons.prems(1) obtain d ds' where ds: "ds = d # ds'"
    and hd: "\<exists>s. files w (chunkFile dir (ID c)) = Some s \<and>
              Decrypt lib ec s = Inr d \<and> Hash c = hex (sha256 lib d)"
    and tl: "list_all2 (\<lambda>c d. \<exists>s. files w (chunkFile dir (ID c)) = Some s \<and>
              Decrypt lib ec s = Inr d \<and> Hash c = hex (sha256 lib d)) cs ds'"
    by (auto simp: list_all2_Cons1)
  from hd obtain s where s: "files w (chunkFile dir (ID c)) = Some s"
      "Decrypt lib ec s = Inr d" "Hash c = hex (sha256 lib d)" by blast
  let ?w2 = "w\<lparr>files := (files w)(out \<mapsto> acc @ d), trace := trace w @ [EvReadFile (chunkFile dir (ID c)), EvWrite out]\<rparr>"
  have step: "assemble_loop lib dir out ec (c # cs) w = assemble_loop lib dir out ec cs ?w2"
    using s Cons.prems by (simp add: os_ReadFile_def file_Write_def emit_def)
  have rel: "list_all2 (\<lambda>c d. \<exists>s. files ?w2 (chunkFile dir (ID c)) = Some s \<and>
              Decrypt lib ec s = Inr d \<and> Hash c = hex (sha256 lib d)) cs ds'"
    using tl Cons.prems(2) by (auto elim!: list_all2_mono)
  have "\<exists>w'. assemble_loop lib dir out ec cs ?w2 = (Inr (), w') \<and>
           files w' = (files ?w2)(out \<mapsto> (acc @ d) @ concat ds') \<and> readonly w' = readonly ?w2"
    using Cons.prems(2,3) by (intro Cons.IH[OF rel]) simp_all
  then obtain w' where "assemble_loop lib dir out ec cs ?w2 = (Inr (), w')"
     "files w' = (files ?w2)(out \<mapsto> (acc @ d) @ concat ds')" "readonly w' = readonly ?w2"
    by blast
  then show ?case unfolding step ds by (auto simp: fun_upd_def)
qed

section \<open>Verification: \<open>SplitFileWithChunkSize\<close> and \<open>AssembleFile\<close>\<close>

lemma emit_fields [simp]:
  "files (emit ev w) = files w" "readonly (emit ev w) = readonly w"
  "entropy (emit ev w) = entropy w" "drawn (emit ev w) = drawn w" "clock (emit ev w) = clock w"
  "trace (emit ev w) = trace w @ [ev]"
  by (simp_all add: emit_def)

lemma os_MkdirAll_fields [simp]:
  "files (snd (os_MkdirAll dir w)) = files w" "readonly (snd (os_MkdirAll dir w)) = readonly w"
  "entropy (snd (os_MkdirAll dir w)) = entropy w" "drawn (snd (os_MkdirAll dir w)) = drawn w"
  "clock (snd (os_MkdirAll dir w)) = clock w"
  "trace (snd (os_MkdirAll dir w)) = trace w @ [EvMkdirAll dir]"
  by (simp_all add: os_MkdirAll_def)

lemma SplitFile_correct:
  assumes "files w path = Some input" "1 \<le> chunkSize" "split_ready path outDir ec w"
    and "manifestPath \<notin> readonly w"
  shows "\<exists>w'. SplitFileWithChunkSize lib path outDir manifestPath ec chunkSize w = Some (Inr (), w') \<and>
           files w' = (files w ++ chunk_files outDir (expected_records lib ec w chunkSize input))
                        (manifestPath \<mapsto> json_marshal lib
                           (split_manifest path ec w (expected_records lib ec w chunkSize input))) \<and>
           readonly w' = readonly w \<and> entropy w' = entropy w \<and> clock w' = clock w \<and>
           trace w' = trace w @ [EvOpen path, EvStat path, EvMkdirAll outDir] @
              split_trace path outDir (expected_records lib ec w chunkSize input) @
              [EvWriteFile manifestPath]"
proof -
  let ?w0 = "snd (os_MkdirAll outDir (emit (EvStat path) (emit (EvOpen path) w)))"
  have f0: "files ?w0 = files w" "readonly ?w0 = readonly w" "entropy ?w0 = entropy w"
      "drawn ?w0 = drawn w" "clock ?w0 = clock w"
    by simp_all
  have r0: "split_ready path outDir ec ?w0"
    using assms(3) by (simp add: split_ready_def f0)
  obtain w2 where w2: "split_loop lib path outDir ec chunkSize 0 0 [] ?w0 =
           Some (Inr ([] @ map fst (split_records lib ec (entropy ?w0) (drawn ?w0) 0
                      (chunks_of (nat chunkSize) (drop 0 input)))), w2)"
      "files w2 = files ?w0 ++ chunk_files outDir (split_records lib ec (entropy ?w0) (drawn ?w0) 0
                      (chunks_of (nat chunkSize) (drop 0 input)))"
      "readonly w2 = readonly ?w0" "entropy w2 = entropy ?w0" "clock w2 = clock ?w0"
      "trace w2 = trace ?w0 @ split_trace path outDir (split_records lib ec (entropy ?w0) (drawn ?w0) 0
                      (chunks_of (nat chunkSize) (drop 0 input)))"
    using split_loop_correct[of ?w0 path input 0 chunkSize outDir ec lib 0 "[]"] assms(1,2) r0 f0(1)
    by auto
  have "SplitFileWithChunkSize lib path outDir manifestPath ec chunkSize w =
      Some (WriteManifest lib (map fst (expected_records lib ec w chunkSize input)) manifestPath
              (filepath_Base path) (Enabled ec) w2)"
    using assms(1,2) w2(1)
    by (simp add: SplitFileWithChunkSize_def os_Open_def expected_records_def)
  then show ?thesis using w2 assms(4)
    by (simp add: WriteManifest_def WriteManifestWithMode_def os_WriteFile_def
          split_manifest_def expected_records_def)
qed

lemma split_records_mem:
  assumes "(c, s) \<in> set (split_records lib ec ent k idx ds)"
  shows "\<exists>i<length ds. c = chunk_record lib ec (idx + int i) (ds ! i) s \<and>
           s = stored_bytes lib ec ent (k + i) (ds ! i)"
proof -
  from assms obtain i where "i < length ds" "split_records lib ec ent k idx ds ! i = (c, s)"
    by (auto simp: in_set_conv_nth)
  then show ?thesis by (auto simp: split_records_nth)
qed

lemma Decrypt_stored:
  assumes "Enabled ec \<longrightarrow> aes_key_ok (Key ec) \<and> (\<exists>nonce. ent k = Some nonce \<and> length nonce = NonceSize)"
    and "\<forall>key nonce d. gcm_open lib key nonce (gcm_seal lib key nonce d) = Some d"
  shows "Decrypt lib ec (stored_bytes lib ec ent k d) = Inr d"
  using assms by (auto simp: Decrypt_def stored_bytes_def)

section \<open>Verification: what holds whenever the split loop returns\<close>

lemma split_body_elim:
  assumes "(case file_Read path off chunkSize w of
      (content, eof, w1) \<Rightarrow>
        (if content = [] \<and> eof then Some (Inr chunks, w1)
         else (case Encrypt lib encConfig content w1 of
             (Inl e, w2) \<Rightarrow> Some (Inl (EncryptChunkFailed e), w2)
           | (Inr encryptedData, w2) \<Rightarrow>
               (case os_WriteFile (chunkFile outDir (hex (take 8 (sha256 lib content))))
                       encryptedData w2 of
                  (Inl e, w3) \<Rightarrow> Some (Inl e, w3)
                | (Inr u, w3) \<Rightarrow>
                     loop lib path outDir encConfig chunkSize
                      (off + length content) (index + 1)
                      (chunks @
                       [\<lparr>ID = hex (take 8 (sha256 lib content)),
                           Hash = hex (sha256 lib content), Index = index,
                           Encrypted = Enabled encConfig, CloudPaths = [],
                           ChunkProviders = [],
                           Size = int (length encryptedData),
                           UploadTime = [], CloudIDs = []\<rparr>])
                      w3)))) =
     Some y"
  obtains (finished) w1 where "y = (Inr chunks, w1)"
  | (failed) e w' where "y = (Inl e, w')"
  | (step) content and encryptedData :: "byte list" and w3 where
      "loop lib path outDir encConfig chunkSize (off + length content) (index + 1)
         (chunks @ [\<lparr>ID = hex (take 8 (sha256 lib content)),
                           Hash = hex (sha256 lib content), Index = index,
                           Encrypted = Enabled encConfig, CloudPaths = [],
                           ChunkProviders = [],
                           Size = int (length encryptedData),
                           UploadTime = [], CloudIDs = []\<rparr>]) w3 = Some y"
proof -
  obtain content eof w1 where rd: "file_Read path off chunkSize w = (content, eof, w1)"
    by (cases "file_Read path off chunkSize w") auto
  obtain r2 w2 where en: "Encrypt lib encConfig content w1 = (r2, w2)"
    by (cases "Encrypt lib encConfig content w1") auto
  show thesis
  proof (cases "content = [] \<and> eof")
    case True
    then show thesis using assms rd by (intro finished[of w1]) simp
  next
    case False
    show thesis
    proof (cases r2)
      case (Inl e)
      then show thesis using assms rd en False by (intro failed[of "EncryptChunkFailed e" w2]) auto
    next
      case (Inr encryptedData)
      obtain r3 w3 where wr: "os_WriteFile (chunkFile outDir (hex (take 8 (sha256 lib content))))
                         encryptedData w2 = (r3, w3)"
        by (cases "os_WriteFile (chunkFile outDir (hex (take 8 (sha256 lib content))))
                         encryptedData w2") auto
      show thesis
      proof (cases r3)
        case (Inl e)
        then show thesis using assms rd en False Inr wr by (intro failed[of e w3]) auto
      next
        case u: (Inr u)
        show thesis using assms rd en False Inr wr u
          by (intro step[of content encryptedData w3]) auto
      qed
    qed
  qed
qed


lemma split_loop_indices_aux:
  assumes "split_loop lib path outDir ec chunkSize off index chunks w = Some y"
  shows "index = int (length chunks) \<and> map Index chunks = map int [0..<length chunks] \<longrightarrow>
     (\<forall>cs w'. y = (Inr cs, w') \<longrightarrow> map Index cs = map int [0..<length cs])"
proof (rule split_loop.raw_induct[where P = "\<lambda>lib path outDir ec chunkSize off index chunks w y.
     index = int (length chunks) \<and> map Index chunks = map int [0..<length chunks] \<longrightarrow>
     (\<forall>cs w'. y = (Inr cs, w') \<longrightarrow> map Index cs = map int [0..<length cs])", OF _ assms], goal_cases)
  case (1 loop lib path outDir ec chunkSize off index chunks w y)
  from 1(2) show ?case
  proof (cases rule: split_body_elim)
    case (finished w1)
    then show ?thesis by simp
  next
    case (failed e w')
    then show ?thesis by simp
  next
    case (step content encryptedData w3)
    show ?thesis using 1(1)[OF step] by simp
  qed
qed

section \<open>Verification: round trip\<close>

lemma AssembleFile_correct:
  assumes "files w manifestPath = Some content" "json_unmarshal lib content = Some m"
    and "ManifestEncrypted m = Enabled ec"
    and "sorted (map Index (Chunks m))"
    and "list_all2 (\<lambda>c d. \<exists>s. files w (chunkFile dir (ID c)) = Some s \<and>
              Decrypt lib ec s = Inr d \<and> Hash c = hex (sha256 lib d)) (Chunks m) ds"
    and "\<forall>ident. chunkFile dir ident \<noteq> out" "out \<notin> readonly w"
    and "filepath_Dir out \<notin> readonly w"
  shows "\<exists>w'. AssembleFile lib manifestPath dir out ec w = (Inr (), w') \<and>
           files w' = (files w)(out \<mapsto> concat ds)"
proof -
  let ?w3 = "emit (EvCreate out)
      (emit (EvMkdirAll (filepath_Dir out)) (emit (EvReadFile manifestPath) w)
        \<lparr>files := (files w)(out \<mapsto> [])\<rparr>)"
  have run: "AssembleFile lib manifestPath dir out ec w =
      assemble_loop lib dir out ec (Chunks m) ?w3"
    using assms(1,2,3,7,8)
    by (simp add: AssembleFile_def ReadManifest_def os_ReadFile_def os_MkdirAll_def
          os_Create_def sort_key_id_if_sorted[OF assms(4)])
  have rel: "list_all2 (\<lambda>c d. \<exists>s. files ?w3 (chunkFile dir (ID c)) = Some s \<and>
              Decrypt lib ec s = Inr d \<and> Hash c = hex (sha256 lib d)) (Chunks m) ds"
    using assms(5,6) by (auto elim!: list_all2_mono)
  have "\<exists>w'. assemble_loop lib dir out ec (Chunks m) ?w3 = (Inr (), w') \<and>
           files w' = (files ?w3)(out \<mapsto> [] @ concat ds) \<and> readonly w' = readonly ?w3"
    using assms(6,7) by (intro assemble_loop_correct[OF rel]) simp_all
  then show ?thesis unfolding run by auto
qed

text \<open>
  Claim C1, as amended. Splitting an input file with a chunk size of at least 1 and
  assembling the chunks and manifest the split wrote gives back exactly the input bytes,
  with the same encryption configuration on both sides (disabled, or enabled with the key
  of one password), provided that no two different chunks of the input share the 16
  hexadecimal digits of their id: chunk files are named by id. The environment is
  assumed to cooperate: the files can be written and are not each other, the random
  source answers with nonces of 12 bytes, \<open>gcm.Open\<close> inverts \<open>gcm.Seal\<close>, and
  \<open>json.Unmarshal\<close> gives back the manifest of the split from its
  \<open>json.MarshalIndent\<close>.
\<close>

theorem split_assemble_roundtrip:
  assumes "files w path = Some input" and "1 \<le> chunkSize"
    and "split_ready path outDir ec w"
    and "manifestPath \<notin> readonly w" and "\<forall>ident. chunkFile outDir ident \<noteq> manifestPath"
    and "outputPath \<notin> readonly w" and "filepath_Dir outputPath \<notin> readonly w"
    and "\<forall>ident. chunkFile outDir ident \<noteq> outputPath"
    and "json_unmarshal lib (json_marshal lib
            (split_manifest path ec w (expected_records lib ec w chunkSize input))) =
          Some (split_manifest path ec w (expected_records lib ec w chunkSize input))"
    and "\<forall>key nonce d. gcm_open lib key nonce (gcm_seal lib key nonce d) = Some d"
    and "\<forall>k nonce. entropy w k = Some nonce \<longrightarrow> length nonce = NonceSize"
    and "inj_on (\<lambda>d. hex (take 8 (sha256 lib d))) (set (chunks_of (nat chunkSize) input))"
  shows "\<exists>w1 w2. SplitFileWithChunkSize lib path outDir manifestPath ec chunkSize w = Some (Inr (), w1) \<and>
           AssembleFile lib manifestPath outDir outputPath ec w1 = (Inr (), w2) \<and>
           files w2 outputPath = Some input"
proof -
  let ?ds = "chunks_of (nat chunkSize) input"
  let ?recs = "expected_records lib ec w chunkSize input"
  let ?m = "split_manifest path ec w ?recs"
  obtain w1 where w1: "SplitFileWithChunkSize lib path outDir manifestPath ec chunkSize w = Some (Inr (), w1)"
     "files w1 = (files w ++ chunk_files outDir ?recs)(manifestPath \<mapsto> json_marshal lib ?m)"
     "readonly w1 = readonly w"
    using SplitFile_correct[OF assms(1,2,3,4), of lib] by blast
  have len: "length (Chunks ?m) = length ?ds"
    by (simp add: split_manifest_def expected_records_def)
  have each: "\<exists>s. files w1 (chunkFile outDir (ID (Chunks ?m ! i))) = Some s \<and>
              Decrypt lib ec s = Inr (?ds ! i) \<and> Hash (Chunks ?m ! i) = hex (sha256 lib (?ds ! i))"
    if i: "i < length ?ds" for i
  proof -
    let ?c = "Chunks ?m ! i"
    have ci: "(?c, stored_bytes lib ec (entropy w) (drawn w + i) (?ds ! i)) \<in> set ?recs"
      using i split_records_nth[of i ?ds lib ec "entropy w" "drawn w" 0]
      by (auto simp: split_manifest_def expected_records_def in_set_conv_nth intro!: exI[of _ i])
    have idc: "ID ?c = hex (take 8 (sha256 lib (?ds ! i)))"
      and hc: "Hash ?c = hex (sha256 lib (?ds ! i))"
      using i by (simp_all add: split_manifest_def expected_records_def split_records_nth chunk_record_def)
    obtain s where s: "chunk_files outDir ?recs (chunkFile outDir (ID ?c)) = Some s"
      using chunk_files_defined[OF ci] by blast
    then obtain c' where c': "(c', s) \<in> set ?recs" "chunkFile outDir (ID ?c) = chunkFile outDir (ID c')"
      using chunk_files_SomeD by blast
    then obtain j where j: "j < length ?ds" "c' = chunk_record lib ec (0 + int j) (?ds ! j) s"
        "s = stored_bytes lib ec (entropy w) (drawn w + j) (?ds ! j)"
      using split_records_mem[of c' s lib ec "entropy w" "drawn w" 0 ?ds]
      by (auto simp: expected_records_def)
    have "ID c' = ID ?c" using c'(2) by (auto dest: chunkFile_inj)
    then have "hex (take 8 (sha256 lib (?ds ! j))) = hex (take 8 (sha256 lib (?ds ! i)))"
      using j(2) idc by (simp add: chunk_record_def)
    then have eq: "?ds ! j = ?ds ! i"
      using assms(12) i j(1) by (auto dest!: inj_onD)
    have "Enabled ec \<longrightarrow> aes_key_ok (Key ec) \<and>
        (\<exists>nonce. entropy w (drawn w + j) = Some nonce \<and> length nonce = NonceSize)"
    proof
      assume en: "Enabled ec"
      then obtain nonce where "entropy w (drawn w + j) = Some nonce"
        using assms(3) by (fastforce simp: split_ready_def)
      then show "aes_key_ok (Key ec) \<and>
        (\<exists>nonce. entropy w (drawn w + j) = Some nonce \<and> length nonce = NonceSize)"
        using en assms(3,11) by (auto simp: split_ready_def)
    qed
    then have "Decrypt lib ec s = Inr (?ds ! j)"
      unfolding j(3) by (rule Decrypt_stored[OF _ assms(10)])
    moreover have "files w1 (chunkFile outDir (ID ?c)) = Some s"
      using s assms(5) by (simp add: w1(2) map_add_def)
    ultimately show ?thesis using eq hc by simp
  qed
  have rel: "list_all2 (\<lambda>c d. \<exists>s. files w1 (chunkFile outDir (ID c)) = Some s \<and>
              Decrypt lib ec s = Inr d \<and> Hash c = hex (sha256 lib d)) (Chunks ?m) ?ds"
    using len each by (simp add: list_all2_conv_all_nth)
  have srt: "sorted (map Index (Chunks ?m))"
    using sorted_split_records[of lib ec "entropy w" "drawn w" 0 ?ds]
    by (simp add: split_manifest_def expected_records_def)
  have "\<exists>w2. AssembleFile lib manifestPath outDir outputPath ec w1 = (Inr (), w2) \<and>
           files w2 = (files w1)(outputPath \<mapsto> concat ?ds)"
    using assms(6,7,8,9) srt rel
    by (intro AssembleFile_correct[where content = "json_marshal lib ?m" and m = ?m])
       (simp_all add: w1 split_manifest_def)
  then obtain w2 where "AssembleFile lib manifestPath outDir outputPath ec w1 = (Inr (), w2)"
     "files w2 = (files w1)(outputPath \<mapsto> concat ?ds)" by blast
  then show ?thesis using w1(1) assms(2) by (auto simp: concat_chunks_of)
qed

lemma chunkFile_chunks_neq [simp]:
  "chunkFile ''chunks'' ident \<noteq> ''in.bin''"
  "chunkFile ''chunks'' ident \<noteq> ''manifest.json''"
  "chunkFile ''chunks'' ident \<noteq> ''out.bin''"
  by (simp_all add: chunkFile_def filepath_Join_def)

lemma demo_ready:
  "split_ready ''in.bin'' ''chunks'' (CreateEncryptionConfig demo_lib pw enabled) (demo_world input)"
  by (simp add: split_ready_def CreateEncryptionConfig_def demo_world_def aes_key_ok_def
        demo_sha256_length)

lemma demo_chunks: "chunks_of 4 [1, 2, 3, 4, 5, 6, 7, 8, 9, 10 :: byte] = [[1, 2, 3, 4], [5, 6, 7, 8], [9, 10]]"
  by (simp add: chunks_of.simps)

lemma demo_ids:
  "inj_on (\<lambda>d. hex (take 8 (sha256 demo_lib d))) (set (chunks_of (nat 4) [1, 2, 3, 4, 5, 6, 7, 8, 9, 10]))"
  by (simp add: demo_chunks demo_lib_def demo_sha256_def hex_def hex_digit_def)

theorem split_assemble_roundtrip_witness:
  "\<exists>w1 w2.
     SplitFileWithChunkSize demo_lib ''in.bin'' ''chunks'' ''manifest.json''
       (CreateEncryptionConfig demo_lib ''secret'' True) 4
       (demo_world [1, 2, 3, 4, 5, 6, 7, 8, 9, 10]) = Some (Inr (), w1) \<and>
     AssembleFile demo_lib ''manifest.json'' ''chunks'' ''out.bin''
       (CreateEncryptionConfig demo_lib ''secret'' True) w1 = (Inr (), w2) \<and>
     files w2 ''out.bin'' = Some [1, 2, 3, 4, 5, 6, 7, 8, 9, 10]"
proof -
  have dir: "filepath_Dir ''out.bin'' \<notin> readonly (demo_world [1, 2, 3, 4, 5, 6, 7, 8, 9, 10])"
    by (simp add: demo_world_def)
  show ?thesis
    by (rule split_assemble_roundtrip[OF _ _ demo_ready _ _ _ dir _ _ _ _ demo_ids])
       (simp_all add: demo_world_def demo_json_roundtrip demo_gcm_roundtrip NonceSize_def)
qed

section \<open>Verification: chunks with the same id\<close>

text \<open>
  A chunk id is the first 8 bytes of the hash of the chunk. There are more chunks of 9
  bytes than ids, so two different chunks of 9 bytes have the same id, whatever the hash
  function is.
\<close>

lemma geometric_sum_less:
  "2 \<le> k \<Longrightarrow> (\<Sum>i\<le>n. k ^ i) < (k::nat) ^ Suc n"
proof (induction n)
  case 0
  then show ?case by simp
next
  case (Suc n)
  have "(\<Sum>i\<le>Suc n. k ^ i) = (\<Sum>i\<le>n. k ^ i) + k ^ Suc n" by simp
  also have "\<dots> < k ^ Suc n + k ^ Suc n" using Suc by simp
  also have "\<dots> = 2 * k ^ Suc n" by simp
  also have "\<dots> \<le> k * k ^ Suc n" using Suc.prems by (intro mult_le_mono1)
  finally show ?case by simp
qed

lemma id_prefix_collision:
  "\<exists>d d'. length d = 9 \<and> length d' = 9 \<and> d \<noteq> d' \<and>
     take 8 (sha256 lib d) = take 8 (sha256 lib d')"
proof -
  let ?A = "{d::byte list. length d = 9}"
  let ?B = "{b::byte list. length b \<le> 8}"
  let ?f = "\<lambda>d. take 8 (sha256 lib d)"
  have cA: "card ?A = 256 ^ 9"
    using card_lists_length_eq[of "UNIV :: byte set" 9] by (simp add: card_word)
  have finB: "finite ?B"
    using finite_lists_length_le[of "UNIV :: byte set" 8] by simp
  have cB: "card ?B = (\<Sum>i\<le>8. 256 ^ i)"
    using card_lists_length_le[of "UNIV :: byte set" 8] by (simp add: card_word)
  have "?f ` ?A \<subseteq> ?B" by auto
  then have "card (?f ` ?A) \<le> card ?B" using finB by (rule card_mono[rotated])
  moreover have "(\<Sum>i\<le>8. 256 ^ i) < (256::nat) ^ 9"
    using geometric_sum_less[of 256 8] by simp
  ultimately have "card (?f ` ?A) < card ?A" using cA cB by simp
  then have "\<not> inj_on ?f ?A" by (rule pigeonhole)
  then show ?thesis by (auto simp: inj_on_def)
qed

text \<open>
  Without encryption, when every chunk file of the directory holds the same bytes \<open>x\<close>,
  a run of the assemble loop that succeeds has written \<open>x\<close> once for each record.
\<close>

lemma assemble_loop_plain_const:
  assumes "\<not> Enabled ec"
    and "\<forall>ident s. files w (chunkFile dir ident) = Some s \<longrightarrow> s = x"
    and "files w out = Some acc" and "\<forall>ident. chunkFile dir ident \<noteq> out"
    and "assemble_loop lib dir out ec cs w = (Inr (), w')"
  shows "files w' out = Some (acc @ concat (replicate (length cs) x))"
  using assms(2,3,5)
proof (induction cs arbitrary: w acc)
  case Nil
  then show ?case by simp
next
  case (Cons c cs)
  from Cons.prems(3) obtain s where s: "files w (chunkFile dir (ID c)) = Some s"
    by (cases "files w (chunkFile dir (ID c))") (auto simp: os_ReadFile_def)
  then have sx: "s = x" using Cons.prems(1) by blast
  let ?w1 = "emit (EvReadFile (chunkFile dir (ID c))) w"
  let ?w2 = "emit (EvWrite out) (?w1\<lparr>files := (files ?w1)(out \<mapsto> acc @ x)\<rparr>)"
  have step: "assemble_loop lib dir out ec cs ?w2 = (Inr (), w')"
    using Cons.prems(3) s sx assms(1) Cons.prems(2)
    by (auto simp: os_ReadFile_def Decrypt_def file_Write_def split: if_splits)
  have "files w' out = Some ((acc @ x) @ concat (replicate (length cs) x))"
  proof (rule Cons.IH[OF _ _ step])
    show "\<forall>ident s. files ?w2 (chunkFile dir ident) = Some s \<longrightarrow> s = x"
      using Cons.prems(1) assms(4) by simp
    show "files ?w2 out = Some (acc @ x)" by simp
  qed
  then show ?case by simp
qed

lemma chunks_of_two:
  assumes "length d = n" "length d' = n" "0 < n"
  shows "chunks_of n (d @ d') = [d, d']"
proof -
  have "chunks_of n (d @ d') = d # chunks_of n d'"
    using assms by (subst chunks_of.simps) auto
  also have "chunks_of n d' = [d']"
    using assms by (subst chunks_of.simps) auto
  finally show ?thesis .
qed

lemma concat_replicate_two:
  assumes "concat (replicate n x) = d @ d'" "length x = length d" "length d' = length d" "0 < length d"
  shows "d = x"
proof -
  have "length (concat (replicate n x)) = n * length x"
    by (induction n) simp_all
  then have "n * length d = 2 * length d" unfolding mult_2 using assms by simp
  then have "n = 2 \<or> length d = 0" by (simp only: mult_cancel2)
  then have "n = 2" using assms(4) by simp
  then have "x @ x = d @ d'" using assms(1) by (simp add: eval_nat_numeral)
  then show ?thesis using assms(2) by simp
qed

lemma collision_chunk_files:
  assumes d: "length d = 9" "length d' = 9" "d \<noteq> d'"
      "take 8 (sha256 lib d) = take 8 (sha256 lib d')"
  shows "chunk_files ''chunks'' (expected_records lib (CreateEncryptionConfig lib [] False) (demo_world (d @ d')) 9 (d @ d')) = [chunkFile ''chunks'' (hex (take 8 (sha256 lib d'))) \<mapsto> d']"
proof -
  have plain: "\<not> Enabled (CreateEncryptionConfig lib [] False)" by (simp add: CreateEncryptionConfig_def)
  have c: "chunks_of (nat 9) (d @ d') = [d, d']" using chunks_of_two[of d 9 d'] d by simp
  show ?thesis
    unfolding expected_records_def c using plain d(4)
    by (simp add: chunk_files_def chunk_record_def stored_bytes_def)
qed

lemma collision_split:
  fixes lib d d'
  defines "ec \<equiv> CreateEncryptionConfig lib [] False"
  defines "w \<equiv> demo_world (d @ d')"
  shows "\<exists>w1. SplitFileWithChunkSize lib ''in.bin'' ''chunks'' ''manifest.json'' ec 9 w
        = Some (Inr (), w1) \<and>
      files w1 = (files w ++ chunk_files ''chunks'' (expected_records lib ec w 9 (d @ d')))
          (''manifest.json'' \<mapsto> json_marshal lib
              (split_manifest ''in.bin'' ec w (expected_records lib ec w 9 (d @ d'))))"
proof -
  have plain: "\<not> Enabled ec" by (simp add: ec_def CreateEncryptionConfig_def)
  have ready: "split_ready ''in.bin'' ''chunks'' ec w"
    using plain by (simp add: split_ready_def w_def demo_world_def)
  have f: "files w ''in.bin'' = Some (d @ d')" by (simp add: w_def demo_world_def)
  have ro: "''manifest.json'' \<notin> readonly w" by (simp add: w_def demo_world_def)
  show ?thesis
    using SplitFile_correct[OF f _ ready ro, of 9 lib] by auto
qed

lemma ReadManifest_files: "ReadManifest lib mp w = (r, w') \<Longrightarrow> files w' = files w"
  by (auto simp: ReadManifest_def os_ReadFile_def split: option.splits)

lemma AssembleFile_success_loop:
  assumes "AssembleFile lib mp dir out ec w1 = (Inr (), w2)"
  shows "\<exists>(m::Manifest) w4. files w4 = (files w1)(out \<mapsto> []) \<and>
           assemble_loop lib dir out ec (sort_key Index (Chunks m)) w4 = (Inr (), w2)"
proof -
  obtain r w3 where r: "ReadManifest lib mp w1 = (r, w3)"
    by (cases "ReadManifest lib mp w1") simp
  have f3: "files w3 = files w1" using r by (rule ReadManifest_files)
  show ?thesis
  proof (cases r)
    case (Inl e)
    then show ?thesis using assms r by (simp add: AssembleFile_def)
  next
    case (Inr m)
    let ?w4 = "emit (EvCreate out) ((emit (EvMkdirAll (filepath_Dir out)) w3)\<lparr>files := (files w1)(out \<mapsto> [])\<rparr>)"
    have lp: "assemble_loop lib dir out ec (sort_key Index (Chunks m)) ?w4 = (Inr (), w2)"
      using assms f3 unfolding AssembleFile_def r Inr
      by (simp add: os_MkdirAll_def os_Create_def split: if_splits)
    have "\<exists>w4. files w4 = (files w1)(out \<mapsto> []) \<and>
        assemble_loop lib dir out ec (sort_key Index (Chunks m)) w4 = (Inr (), w2)"
      using lp by (intro exI[of _ ?w4]) simp
    then show ?thesis by (rule exI[of _ m])
  qed
qed

lemma assemble_collision:
  assumes plain: "\<not> Enabled ec"
    and only: "\<forall>ident s. files w1 (chunkFile dir ident) = Some s \<longrightarrow> s = d'"
    and out: "\<forall>ident. chunkFile dir ident \<noteq> out"
    and d: "length d = length d'" "0 < length d'" "d \<noteq> d'"
  shows "\<not> (AssembleFile lib mp dir out ec w1 = (Inr (), w2) \<and> files w2 out = Some (d @ d'))"
proof
  assume a: "AssembleFile lib mp dir out ec w1 = (Inr (), w2) \<and> files w2 out = Some (d @ d')"
  then have run: "AssembleFile lib mp dir out ec w1 = (Inr (), w2)" by simp
  obtain m :: Manifest and w4 where w4: "files w4 = (files w1)(out \<mapsto> [])"
      "assemble_loop lib dir out ec (sort_key Index (Chunks m)) w4 = (Inr (), w2)"
    using AssembleFile_success_loop[OF run] by auto
  have only4: "\<forall>ident s. files w4 (chunkFile dir ident) = Some s \<longrightarrow> s = d'"
    using only out by (simp add: w4(1))
  have out4: "files w4 out = Some []" by (simp add: w4(1))
  have "files w2 out = Some ([] @ concat (replicate (length (sort_key Index (Chunks m))) d'))"
    by (rule assemble_loop_plain_const[OF plain only4 out4 out w4(2)])
  then have cc: "concat (replicate (length (sort_key Index (Chunks m))) d') = d @ d'"
    using a by simp
  have l: "length d' = length d" and p: "0 < length d" using d(1,2) by simp_all
  have "d = d'" by (rule concat_replicate_two[OF cc l l p])
  then show False using d(3) by simp
qed

text \<open>
  The round trip of claim C1 without the condition on the ids. On the input made of two
  different chunks of 9 bytes with the same id, split with the chunk size 9 and without
  encryption, both chunks are written to the same chunk file, which keeps the second one;
  the split succeeds, and no run of \<open>AssembleFile\<close> on its result gives the input
  back. Such an input exists for every hash function.
\<close>

theorem roundtrip_id_collision_counterexample:
  "\<forall>lib. \<exists>input. length input = 18 \<and>
     (\<exists>w1. SplitFileWithChunkSize lib ''in.bin'' ''chunks'' ''manifest.json''
             (CreateEncryptionConfig lib [] False) 9 (demo_world input) = Some (Inr (), w1) \<and>
           (\<forall>w2. \<not> (AssembleFile lib ''manifest.json'' ''chunks'' ''out.bin''
                       (CreateEncryptionConfig lib [] False) w1 = (Inr (), w2) \<and>
                     files w2 ''out.bin'' = Some input)))"
proof
  fix lib
  let ?ec = "CreateEncryptionConfig lib [] False"
  obtain d d' where d: "length d = 9" "length d' = 9" "d \<noteq> d'"
      "take 8 (sha256 lib d) = take 8 (sha256 lib d')"
    using id_prefix_collision[of lib] by blast
  let ?w = "demo_world (d @ d')"
  let ?recs = "expected_records lib ?ec ?w 9 (d @ d')"
  have plain: "\<not> Enabled ?ec" by (simp add: CreateEncryptionConfig_def)
  obtain w1 where w1: "SplitFileWithChunkSize lib ''in.bin'' ''chunks'' ''manifest.json'' ?ec 9 ?w
        = Some (Inr (), w1)"
      "files w1 = (files ?w ++ chunk_files ''chunks'' ?recs)
          (''manifest.json'' \<mapsto> json_marshal lib (split_manifest ''in.bin'' ?ec ?w ?recs))"
    using collision_split[of lib d d'] by blast
  have only: "\<forall>ident s. files w1 (chunkFile ''chunks'' ident) = Some s \<longrightarrow> s = d'"
    unfolding w1(2) collision_chunk_files[OF d]
    by (simp add: demo_world_def map_add_def)
  have out: "\<forall>ident. chunkFile ''chunks'' ident \<noteq> ''out.bin''" by simp
  have len: "length d = length d'" "0 < length d'" using d(1,2) by simp_all
  have "\<forall>w2. \<not> (AssembleFile lib ''manifest.json'' ''chunks'' ''out.bin'' ?ec w1 = (Inr (), w2) \<and>
            files w2 ''out.bin'' = Some (d @ d'))"
    using assemble_collision[OF plain only out len d(3)] by (rule allI)
  then have "length (d @ d') = 18 \<and>
     (\<exists>w1. SplitFileWithChunkSize lib ''in.bin'' ''chunks'' ''manifest.json''
             ?ec 9 (demo_world (d @ d')) = Some (Inr (), w1) \<and>
           (\<forall>w2. \<not> (AssembleFile lib ''manifest.json'' ''chunks'' ''out.bin''
                       ?ec w1 = (Inr (), w2) \<and>
                     files w2 ''out.bin'' = Some (d @ d'))))"
    using w1(1) d(1,2) by (intro conjI exI[of _ w1]) simp_all
  then show "\<exists>input. length input = 18 \<and>
     (\<exists>w1. SplitFileWithChunkSize lib ''in.bin'' ''chunks'' ''manifest.json''
             ?ec 9 (demo_world input) = Some (Inr (), w1) \<and>
           (\<forall>w2. \<not> (AssembleFile lib ''manifest.json'' ''chunks'' ''out.bin''
                       ?ec w1 = (Inr (), w2) \<and>
                     files w2 ''out.bin'' = Some input)))"
    by (rule exI[of _ "d @ d'"])
qed

section \<open>Verification: chunk indices\<close>

lemma SplitFile_success_manifest:
  assumes "SplitFileWithChunkSize lib path outDir manifestPath ec chunkSize w = Some (Inr (), w')"
  shows "\<exists>chunks w2. split_loop lib path outDir ec chunkSize 0 0 []
            (snd (os_MkdirAll outDir (emit (EvStat path) (emit (EvOpen path) w)))) = Some (Inr chunks, w2) \<and>
          files w' manifestPath = Some (json_marshal lib
             \<lparr>OriginalName = filepath_Base path, Chunks = chunks,
              ManifestEncrypted = Enabled ec, CreatedTime = clock w2,
              TotalSize = totalSize chunks, ChunkCount = int (length chunks),
              DistributionMode = ''local''\<rparr>)"
proof -
  let ?w0 = "snd (os_MkdirAll outDir (emit (EvStat path) (emit (EvOpen path) w)))"
  have op: "os_Open path w = (Inr (), emit (EvOpen path) w)"
    using assms by (cases "files w path") (auto simp: SplitFileWithChunkSize_def os_Open_def)
  have nn: "\<not> chunkSize < 0"
    using assms by (auto simp: SplitFileWithChunkSize_def op)
  obtain r w2 where lp: "split_loop lib path outDir ec chunkSize 0 0 [] ?w0 = Some (r, w2)"
    using assms nn by (cases "split_loop lib path outDir ec chunkSize 0 0 [] ?w0")
      (auto simp: SplitFileWithChunkSize_def op)
  obtain chunks where r: "r = Inr chunks"
    using assms nn lp by (cases r) (auto simp: SplitFileWithChunkSize_def op)
  have "WriteManifest lib chunks manifestPath (filepath_Base path) (Enabled ec) w2 = (Inr (), w')"
    using assms nn lp r by (simp add: SplitFileWithChunkSize_def op)
  then have "files w' manifestPath = Some (json_marshal lib
             \<lparr>OriginalName = filepath_Base path, Chunks = chunks,
              ManifestEncrypted = Enabled ec, CreatedTime = clock w2,
              TotalSize = totalSize chunks, ChunkCount = int (length chunks),
              DistributionMode = ''local''\<rparr>)"
    by (auto simp: WriteManifest_def WriteManifestWithMode_def os_WriteFile_def split: if_splits)
  then show ?thesis using lp r by blast
qed

text \<open>
  Claim C6. The chunk records a split writes into its manifest carry the indices
  \<open>0, 1, \<dots>, N - 1\<close> in this order: whenever \<open>SplitFileWithChunkSize\<close> returns without an
  error, whatever the input, the chunk size and the state of the file system; and with a
  chunk size of at least 1 and files that can be written it does return, with one record
  for each piece of the input.
\<close>

theorem split_index_contiguity:
  "(files w path = Some input \<and> 1 \<le> chunkSize \<and> split_ready path outDir ec w \<and>
    manifestPath \<notin> readonly w \<longrightarrow>
      (\<exists>w' m. SplitFileWithChunkSize lib path outDir manifestPath ec chunkSize w = Some (Inr (), w') \<and>
          files w' manifestPath = Some (json_marshal lib m) \<and>
          length (Chunks m) = length (chunks_of (nat chunkSize) input) \<and>
          map Index (Chunks m) = map int [0..<length (Chunks m)])) \<and>
   (\<forall>w'. SplitFileWithChunkSize lib path outDir manifestPath ec chunkSize w = Some (Inr (), w') \<longrightarrow>
      (\<exists>m. files w' manifestPath = Some (json_marshal lib m) \<and>
           ChunkCount m = int (length (Chunks m)) \<and>
           map Index (Chunks m) = map int [0..<length (Chunks m)]))"
proof (intro conjI impI allI)
  assume a: "files w path = Some input \<and> 1 \<le> chunkSize \<and> split_ready path outDir ec w \<and>
    manifestPath \<notin> readonly w"
  let ?recs = "expected_records lib ec w chunkSize input"
  let ?m = "split_manifest path ec w ?recs"
  obtain w' where w': "SplitFileWithChunkSize lib path outDir manifestPath ec chunkSize w = Some (Inr (), w')"
     "files w' = (files w ++ chunk_files outDir ?recs)(manifestPath \<mapsto> json_marshal lib ?m)"
    using SplitFile_correct[of w path input chunkSize outDir ec manifestPath lib] a by blast
  have "map Index (Chunks ?m) = map int [0..<length (Chunks ?m)]"
    using split_records_Index[of lib ec "entropy w" "drawn w" 0 "chunks_of (nat chunkSize) input"]
    by (simp add: split_manifest_def expected_records_def)
  moreover have "length (Chunks ?m) = length (chunks_of (nat chunkSize) input)"
    by (simp add: split_manifest_def expected_records_def)
  ultimately show "\<exists>w' m. SplitFileWithChunkSize lib path outDir manifestPath ec chunkSize w = Some (Inr (), w') \<and>
          files w' manifestPath = Some (json_marshal lib m) \<and>
          length (Chunks m) = length (chunks_of (nat chunkSize) input) \<and>
          map Index (Chunks m) = map int [0..<length (Chunks m)]"
    using w' by (intro exI[of _ w'] exI[of _ ?m]) simp
next
  fix w'
  assume "SplitFileWithChunkSize lib path outDir manifestPath ec chunkSize w = Some (Inr (), w')"
  then obtain chunks w2 where lp: "split_loop lib path outDir ec chunkSize 0 0 []
            (snd (os_MkdirAll outDir (emit (EvStat path) (emit (EvOpen path) w)))) = Some (Inr chunks, w2)"
    and f: "files w' manifestPath = Some (json_marshal lib
             \<lparr>OriginalName = filepath_Base path, Chunks = chunks,
              ManifestEncrypted = Enabled ec, CreatedTime = clock w2,
              TotalSize = totalSize chunks, ChunkCount = int (length chunks),
              DistributionMode = ''local''\<rparr>)"
    using SplitFile_success_manifest by blast
  have "map Index chunks = map int [0..<length chunks]"
    using split_loop_indices_aux[OF lp] by simp
  then show "\<exists>m. files w' manifestPath = Some (json_marshal lib m) \<and>
           ChunkCount m = int (length (Chunks m)) \<and>
           map Index (Chunks m) = map int [0..<length (Chunks m)]"
    using f by (intro exI[of _ "\<lparr>OriginalName = filepath_Base path, Chunks = chunks,
              ManifestEncrypted = Enabled ec, CreatedTime = clock w2,
              TotalSize = totalSize chunks, ChunkCount = int (length chunks),
              DistributionMode = ''local''\<rparr>"]) simp
qed

theorem split_index_contiguity_witness:
  "\<exists>w' m. SplitFileWithChunkSize demo_lib ''in.bin'' ''chunks'' ''manifest.json''
       (CreateEncryptionConfig demo_lib [] False) 4
       (demo_world [1, 2, 3, 4, 5, 6, 7, 8, 9, 10]) = Some (Inr (), w') \<and>
     files w' ''manifest.json'' = Some (json_marshal demo_lib m) \<and>
     length (Chunks m) = 3 \<and> map Index (Chunks m) = [0, 1, 2]"
proof -
  have "\<exists>w' m. SplitFileWithChunkSize demo_lib ''in.bin'' ''chunks'' ''manifest.json''
       (CreateEncryptionConfig demo_lib [] False) 4
       (demo_world [1, 2, 3, 4, 5, 6, 7, 8, 9, 10]) = Some (Inr (), w') \<and>
     files w' ''manifest.json'' = Some (json_marshal demo_lib m) \<and>
     length (Chunks m) = length (chunks_of (nat 4) [1, 2, 3, 4, 5, 6, 7, 8, 9, 10 :: byte]) \<and>
     map Index (Chunks m) = map int [0..<length (Chunks m)]"
    using split_index_contiguity[of "demo_world [1, 2, 3, 4, 5, 6, 7, 8, 9, 10]" "''in.bin''"
      "[1, 2, 3, 4, 5, 6, 7, 8, 9, 10]" 4 "''chunks''" "CreateEncryptionConfig demo_lib [] False"
      "''manifest.json''" demo_lib, THEN conjunct1]
      demo_ready[of "[]" False "[1, 2, 3, 4, 5, 6, 7, 8, 9, 10]"]
    by (simp add: demo_world_def)
  then obtain w' m where
    "SplitFileWithChunkSize demo_lib ''in.bin'' ''chunks'' ''manifest.json''
       (CreateEncryptionConfig demo_lib [] False) 4
       (demo_world [1, 2, 3, 4, 5, 6, 7, 8, 9, 10]) = Some (Inr (), w')"
    "files w' ''manifest.json'' = Some (json_marshal demo_lib m)"
    "length (Chunks m) = length (chunks_of (nat 4) [1, 2, 3, 4, 5, 6, 7, 8, 9, 10 :: byte])"
    "map Index (Chunks m) = map int [0..<length (Chunks m)]"
    by blast
  then show ?thesis
    by (intro exI[of _ w'] exI[of _ m]) (simp add: demo_chunks upt_conv_Cons)
qed

section \<open>Verification: chunks with equal content\<close>

lemma hex_length [simp]: "length (hex bs) = 2 * length bs"
  by (induction bs) (simp_all add: hex_def)

lemma split_trace_count:
  "count_list (split_trace path outDir recs) (EvWriteFile p) =
   length (filter (\<lambda>r. chunkFile outDir (ID (fst r)) = p) recs)"
  by (induction recs) (auto simp: split_trace_def)

lemma two_hits:
  assumes "i < j" "j < length xs" "P (xs ! i)" "P (xs ! j)"
  shows "2 \<le> length (filter P xs)"
proof -
  have xs: "xs = take j xs @ xs ! j # drop (Suc j) xs"
    using assms(2) by (rule id_take_nth_drop)
  have "xs ! i \<in> set (take j xs)"
    using assms(1,2) by (auto simp: in_set_conv_nth intro!: exI[of _ i])
  then have "filter P (take j xs) \<noteq> []"
    using assms(3) by (auto simp: filter_empty_conv)
  then have "1 \<le> length (filter P (take j xs))"
    by (cases "filter P (take j xs)") auto
  moreover have "length (filter P xs) =
      length (filter P (take j xs)) + length (filter P (xs ! j # drop (Suc j) xs))"
    by (subst xs) simp
  ultimately show ?thesis using assms(4) by simp
qed

lemma expected_records_nth:
  assumes "l < length (chunks_of (nat chunkSize) input)"
  shows "expected_records lib ec w chunkSize input ! l =
     (chunk_record lib ec (int l) (chunks_of (nat chunkSize) input ! l)
        (stored_bytes lib ec (entropy w) (drawn w + l) (chunks_of (nat chunkSize) input ! l)),
      stored_bytes lib ec (entropy w) (drawn w + l) (chunks_of (nat chunkSize) input ! l))"
  using assms by (simp add: expected_records_def split_records_nth)

lemma expected_records_length [simp]:
  "length (expected_records lib ec w chunkSize input) = length (chunks_of (nat chunkSize) input)"
  by (simp add: expected_records_def)

text \<open>
  Claim C10. When the pieces of the input at two positions \<open>i < j\<close> have the same bytes,
  the records of both positions carry the same id, the 16 hexadecimal digits of the first
  8 bytes of the SHA-256 of the plaintext, so both are written to the same chunk file
  (the trace has at least two writes of it), and the manifest still has one record for
  each position with its own index. After the split every chunk file holds the bytes
  written for the last position that has its id: a later write replaces an earlier one.
\<close>

theorem duplicate_chunks_share_file:
  assumes "files w path = Some input" and "1 \<le> chunkSize"
    and "split_ready path outDir ec w"
    and "manifestPath \<notin> readonly w" and "\<forall>ident. chunkFile outDir ident \<noteq> manifestPath"
    and "i < j" and "j < length (chunks_of (nat chunkSize) input)"
    and "chunks_of (nat chunkSize) input ! i = chunks_of (nat chunkSize) input ! j"
    and "length (sha256 lib (chunks_of (nat chunkSize) input ! i)) = 32"
  shows "\<exists>w' m. SplitFileWithChunkSize lib path outDir manifestPath ec chunkSize w = Some (Inr (), w') \<and>
     files w' manifestPath = Some (json_marshal lib m) \<and>
     length (Chunks m) = length (chunks_of (nat chunkSize) input) \<and>
     (\<forall>l<length (chunks_of (nat chunkSize) input).
        Index (Chunks m ! l) = int l \<and>
        ID (Chunks m ! l) = hex (take 8 (sha256 lib (chunks_of (nat chunkSize) input ! l)))) \<and>
     ID (Chunks m ! j) = ID (Chunks m ! i) \<and>
     length (ID (Chunks m ! i)) = 16 \<and>
     2 \<le> count_list (trace w') (EvWriteFile (chunkFile outDir (ID (Chunks m ! i)))) \<and>
     (\<forall>l<length (chunks_of (nat chunkSize) input).
        (\<forall>l'. l < l' \<and> l' < length (chunks_of (nat chunkSize) input) \<longrightarrow>
             ID (Chunks m ! l') \<noteq> ID (Chunks m ! l)) \<longrightarrow>
        files w' (chunkFile outDir (ID (Chunks m ! l))) =
          Some (stored_bytes lib ec (entropy w) (drawn w + l) (chunks_of (nat chunkSize) input ! l)))"
proof -
  let ?ds = "chunks_of (nat chunkSize) input"
  let ?recs = "expected_records lib ec w chunkSize input"
  let ?m = "split_manifest path ec w ?recs"
  obtain w' where w': "SplitFileWithChunkSize lib path outDir manifestPath ec chunkSize w = Some (Inr (), w')"
     "files w' = (files w ++ chunk_files outDir ?recs)(manifestPath \<mapsto> json_marshal lib ?m)"
     "trace w' = trace w @ [EvOpen path, EvStat path, EvMkdirAll outDir] @
              split_trace path outDir ?recs @ [EvWriteFile manifestPath]"
    using SplitFile_correct[OF assms(1,2,3,4), of lib] by blast
  have i: "i < length ?ds" using assms(6,7) by simp
  have nth: "Chunks ?m ! l = chunk_record lib ec (int l) (?ds ! l)
        (stored_bytes lib ec (entropy w) (drawn w + l) (?ds ! l))" if "l < length ?ds" for l
    using that by (simp add: split_manifest_def expected_records_nth)
  have idl: "ID (Chunks ?m ! l) = hex (take 8 (sha256 lib (?ds ! l)))" if "l < length ?ds" for l
    using nth[OF that] by (simp add: chunk_record_def)
  have c1: "files w' manifestPath = Some (json_marshal lib ?m)" by (simp add: w'(2))
  have c2: "length (Chunks ?m) = length ?ds" by (simp add: split_manifest_def)
  have c3: "\<forall>l<length ?ds. Index (Chunks ?m ! l) = int l \<and>
        ID (Chunks ?m ! l) = hex (take 8 (sha256 lib (?ds ! l)))"
    using nth idl by (simp add: chunk_record_def)
  have c4: "ID (Chunks ?m ! i) = hex (take 8 (sha256 lib (?ds ! i)))" by (rule idl[OF i])
  have c5: "ID (Chunks ?m ! j) = ID (Chunks ?m ! i)"
    using idl[OF i] idl[OF assms(7)] assms(8) by simp
  have c6: "length (ID (Chunks ?m ! i)) = 16" using c4 assms(9) by simp
  have c7: "2 \<le> count_list (trace w') (EvWriteFile (chunkFile outDir (ID (Chunks ?m ! i))))"
  proof -
    let ?P = "\<lambda>r. chunkFile outDir (ID (fst r)) = chunkFile outDir (ID (Chunks ?m ! i))"
    have "?P (?recs ! i)" using i by (simp add: split_manifest_def)
    moreover have "?P (?recs ! j)" using c5 assms(7) by (simp add: split_manifest_def)
    ultimately have "2 \<le> length (filter ?P ?recs)"
      using assms(6,7) by (intro two_hits[of i j]) simp_all
    then show ?thesis by (simp add: w'(3) split_trace_count)
  qed
  have c8: "files w' (chunkFile outDir (ID (Chunks ?m ! l))) =
          Some (stored_bytes lib ec (entropy w) (drawn w + l) (?ds ! l))"
    if l: "l < length ?ds"
      and last: "\<forall>l'. l < l' \<and> l' < length ?ds \<longrightarrow> ID (Chunks ?m ! l') \<noteq> ID (Chunks ?m ! l)"
    for l
  proof -
    let ?c = "Chunks ?m ! l"
    let ?s = "stored_bytes lib ec (entropy w) (drawn w + l) (?ds ! l)"
    have rl: "?recs ! l = (?c, ?s)"
      using l by (simp add: expected_records_nth nth)
    have dec: "?recs = take l ?recs @ (?c, ?s) # drop (Suc l) ?recs"
      using id_take_nth_drop[of l ?recs] l rl by simp
    have later: "\<forall>(c', s') \<in> set (drop (Suc l) ?recs). ID c' \<noteq> ID ?c"
    proof (clarify)
      fix c' s' assume mem: "(c', s') \<in> set (drop (Suc l) ?recs)" and eq: "ID c' = ID ?c"
      then obtain k where k: "k < length ?recs - Suc l" "drop (Suc l) ?recs ! k = (c', s')"
        by (auto simp: in_set_conv_nth)
      then have "?recs ! (Suc l + k) = (c', s')" by simp
      moreover have "Suc l + k < length ?ds" using k(1) by simp
      ultimately have "c' = Chunks ?m ! (Suc l + k)"
        by (simp add: split_manifest_def)
      then show False using last eq \<open>Suc l + k < length ?ds\<close> by auto
    qed
    have "chunk_files outDir ?recs (chunkFile outDir (ID ?c)) = Some ?s"
      by (rule chunk_files_last[OF dec later])
    then show ?thesis using assms(5) by (simp add: w'(2) map_add_def)
  qed
  show ?thesis
    using w'(1) c1 c2 c3 c5 c6 c7 c8 by (intro exI[of _ w'] exI[of _ ?m]) blast
qed

lemma demo_chunks2: "chunks_of 2 [1, 2, 1, 2, 3 :: byte] = [[1, 2], [1, 2], [3]]"
  by (simp add: chunks_of.simps)

lemma demo_id_12: "hex (take 8 (sha256 demo_lib [1, 2])) = ''0201020000000000''"
  by code_simp

lemma demo_id_3: "hex (take 8 (sha256 demo_lib [3])) = ''0103000000000000''"
  by code_simp

theorem duplicate_chunks_share_file_witness:
  "\<exists>w' m. SplitFileWithChunkSize demo_lib ''in.bin'' ''chunks'' ''manifest.json''
       (CreateEncryptionConfig demo_lib ''secret'' True) 2 (demo_world [1, 2, 1, 2, 3])
       = Some (Inr (), w') \<and>
     files w' ''manifest.json'' = Some (json_marshal demo_lib m) \<and>
     length (Chunks m) = 3 \<and>
     Index (Chunks m ! 0) = 0 \<and> Index (Chunks m ! 1) = 1 \<and>
     ID (Chunks m ! 0) = ''0201020000000000'' \<and> ID (Chunks m ! 1) = ''0201020000000000'' \<and>
     2 \<le> count_list (trace w') (EvWriteFile ''chunks/0201020000000000.chunk'') \<and>
     files w' ''chunks/0201020000000000.chunk'' =
       Some (stored_bytes demo_lib (CreateEncryptionConfig demo_lib ''secret'' True)
              (\<lambda>k. Some (replicate 12 (word_of_nat k))) 1 [1, 2])"
proof -
  let ?ec = "CreateEncryptionConfig demo_lib ''secret'' True"
  let ?w = "demo_world [1, 2, 1, 2, 3]"
  have ds: "chunks_of (nat 2) [1, 2, 1, 2, 3 :: byte] = [[1, 2], [1, 2], [3]]"
    by (simp add: demo_chunks2)
  have h: "files ?w ''in.bin'' = Some [1, 2, 1, 2, 3]" "(1::int) \<le> 2"
      "''manifest.json'' \<notin> readonly ?w" "\<forall>ident. chunkFile ''chunks'' ident \<noteq> ''manifest.json''"
      "(0::nat) < 1" "1 < length (chunks_of (nat 2) [1, 2, 1, 2, 3 :: byte])"
      "chunks_of (nat 2) [1, 2, 1, 2, 3 :: byte] ! 0 = chunks_of (nat 2) [1, 2, 1, 2, 3] ! 1"
      "length (sha256 demo_lib (chunks_of (nat 2) [1, 2, 1, 2, 3] ! 0)) = 32"
    by (simp_all add: demo_world_def demo_chunks2 demo_sha256_length)
  obtain w' m where r:
    "SplitFileWithChunkSize demo_lib ''in.bin'' ''chunks'' ''manifest.json'' ?ec 2 ?w = Some (Inr (), w')"
    "files w' ''manifest.json'' = Some (json_marshal demo_lib m)"
    "length (Chunks m) = length (chunks_of (nat 2) [1, 2, 1, 2, 3 :: byte])"
    "\<forall>l<length (chunks_of (nat 2) [1, 2, 1, 2, 3 :: byte]).
        Index (Chunks m ! l) = int l \<and>
        ID (Chunks m ! l) = hex (take 8 (sha256 demo_lib (chunks_of (nat 2) [1, 2, 1, 2, 3] ! l)))"
    "2 \<le> count_list (trace w') (EvWriteFile (chunkFile ''chunks'' (ID (Chunks m ! 0))))"
    "\<forall>l<length (chunks_of (nat 2) [1, 2, 1, 2, 3 :: byte]).
        (\<forall>l'. l < l' \<and> l' < length (chunks_of (nat 2) [1, 2, 1, 2, 3 :: byte]) \<longrightarrow>
             ID (Chunks m ! l') \<noteq> ID (Chunks m ! l)) \<longrightarrow>
        files w' (chunkFile ''chunks'' (ID (Chunks m ! l))) =
          Some (stored_bytes demo_lib ?ec (entropy ?w) (drawn ?w + l) (chunks_of (nat 2) [1, 2, 1, 2, 3] ! l))"
    using duplicate_chunks_share_file[OF h(1,2) demo_ready h(3-8)] by blast
  have ids: "ID (Chunks m ! 0) = ''0201020000000000''" "ID (Chunks m ! 1) = ''0201020000000000''"
      "ID (Chunks m ! 2) = ''0103000000000000''"
      "Index (Chunks m ! 0) = 0" "Index (Chunks m ! 1) = 1"
    using r(4)[rule_format, of 0] r(4)[rule_format, of 1] r(4)[rule_format, of 2]
    by (simp_all add: demo_chunks2 demo_id_12 demo_id_3)
  have last: "\<forall>l'. 1 < l' \<and> l' < length (chunks_of (nat 2) [1, 2, 1, 2, 3 :: byte]) \<longrightarrow>
             ID (Chunks m ! l') \<noteq> ID (Chunks m ! 1)"
  proof (intro allI impI)
    fix l' assume "1 < l' \<and> l' < length (chunks_of (nat 2) [1, 2, 1, 2, 3 :: byte])"
    then have "l' = 2" by (simp add: demo_chunks2)
    then show "ID (Chunks m ! l') \<noteq> ID (Chunks m ! 1)" using ids by simp
  qed
  have fl: "files w' (chunkFile ''chunks'' (ID (Chunks m ! 1))) =
          Some (stored_bytes demo_lib ?ec (entropy ?w) (drawn ?w + 1) (chunks_of (nat 2) [1, 2, 1, 2, 3] ! 1))"
    using r(6) last by (simp add: demo_chunks2)
  have cf: "chunkFile ''chunks'' ''0201020000000000'' = ''chunks/0201020000000000.chunk''"
    by (simp add: chunkFile_def filepath_Join_def)
  show ?thesis
    using r(1,2,3,5) ids fl
    by (intro exI[of _ w'] exI[of _ m]) (simp add: demo_chunks2 cf demo_world_def)
qed

section \<open>Verification: the encrypted flag\<close>

text \<open>
  Claim C8. When the manifest file decodes to a manifest whose \<open>encrypted\<close> flag differs
  from \<open>Enabled\<close> of the caller's encryption configuration, \<open>AssembleFile\<close> returns an
  error, and all it has done is read the manifest file: the files are unchanged (no
  output is created or written) and the trace gains this one read, so no chunk file was
  opened.
\<close>

theorem AssembleFile_flag_mismatch:
  assumes "files w manifestPath = Some content" and "json_unmarshal lib content = Some m"
    and "ManifestEncrypted m \<noteq> Enabled encConfig"
  shows "\<exists>w1. AssembleFile lib manifestPath chunksPath outputPath encConfig w =
           (Inl (if ManifestEncrypted m then EncryptedButNoKey else NotEncryptedButKey), w1) \<and>
         files w1 = files w \<and> trace w1 = trace w @ [EvReadFile manifestPath]"
  using assms
  by (auto simp: AssembleFile_def ReadManifest_def os_ReadFile_def)

theorem AssembleFile_flag_mismatch_witness:
  "\<exists>w1. AssembleFile demo_lib ''manifest.json'' ''chunks'' ''out.bin''
           (CreateEncryptionConfig demo_lib [] False)
           ((demo_world [])\<lparr>files := [''manifest.json'' \<mapsto> json_marshal demo_lib demo_manifest]\<rparr>) =
           (Inl EncryptedButNoKey, w1) \<and>
         files w1 = [''manifest.json'' \<mapsto> json_marshal demo_lib demo_manifest] \<and>
         trace w1 = [EvReadFile ''manifest.json'']"
  using AssembleFile_flag_mismatch[of
      "(demo_world [])\<lparr>files := [''manifest.json'' \<mapsto> json_marshal demo_lib demo_manifest]\<rparr>"
      "''manifest.json''" "json_marshal demo_lib demo_manifest" demo_lib demo_manifest
      "CreateEncryptionConfig demo_lib [] False" "''chunks''" "''out.bin''"]
  by (simp add: demo_json_roundtrip demo_manifest_def CreateEncryptionConfig_def demo_world_def)

section \<open>Verification: writing and reading a manifest\<close>

text \<open>
  Claim C5, as amended. Writing a manifest \<open>m\<close> with \<open>WriteManifestWithMode\<close> (from its
  chunks, name, encrypted flag and mode) and reading the file back gives \<open>m\<close> with
  \<open>total_size\<close> and \<open>chunk_count\<close> recomputed from the chunk list and with
  \<open>created_time\<close> set to the time of the write; the other fields are those of \<open>m\<close>. It is
  assumed that the file can be written and that \<open>json.Unmarshal\<close> inverts
  \<open>json.MarshalIndent\<close> on the manifest written.
\<close>

theorem manifest_reserialization:
  assumes "path \<notin> readonly w"
    and "json_unmarshal lib (json_marshal lib
            (m\<lparr>CreatedTime := clock w, TotalSize := totalSize (Chunks m),
               ChunkCount := int (length (Chunks m))\<rparr>)) =
          Some (m\<lparr>CreatedTime := clock w, TotalSize := totalSize (Chunks m),
               ChunkCount := int (length (Chunks m))\<rparr>)"
  shows "\<exists>w1 w2. WriteManifestWithMode lib (Chunks m) path (OriginalName m) (ManifestEncrypted m)
              (DistributionMode m) w = (Inr (), w1) \<and>
           ReadManifest lib path w1 =
             (Inr (m\<lparr>CreatedTime := clock w, TotalSize := totalSize (Chunks m),
                     ChunkCount := int (length (Chunks m))\<rparr>), w2)"
proof -
  have eq: "\<lparr>OriginalName = OriginalName m, Chunks = Chunks m,
            ManifestEncrypted = ManifestEncrypted m, CreatedTime = clock w,
            TotalSize = totalSize (Chunks m), ChunkCount = int (length (Chunks m)),
            DistributionMode = DistributionMode m\<rparr> =
        m\<lparr>CreatedTime := clock w, TotalSize := totalSize (Chunks m),
               ChunkCount := int (length (Chunks m))\<rparr>"
    by simp
  show ?thesis
    using assms
    by (simp add: WriteManifestWithMode_def os_WriteFile_def ReadManifest_def os_ReadFile_def eq)
qed

theorem manifest_reserialization_witness:
  "\<exists>w1 w2. WriteManifestWithMode demo_lib (Chunks demo_manifest) ''manifest.json''
              (OriginalName demo_manifest) (ManifestEncrypted demo_manifest)
              (DistributionMode demo_manifest) (demo_world []) = (Inr (), w1) \<and>
           ReadManifest demo_lib ''manifest.json'' w1 =
             (Inr (demo_manifest\<lparr>CreatedTime := ''2024-05-01T10:00:00Z'', TotalSize := 32,
                     ChunkCount := 1\<rparr>), w2)"
  using manifest_reserialization[of "''manifest.json''" "demo_world []" demo_lib demo_manifest]
  by (simp add: demo_json_roundtrip) (simp add: demo_world_def demo_manifest_def totalSize_def int64_def)

text \<open>
  The claim as the specification words it fails: the manifest read back is not \<open>m\<close> with
  its two counters recomputed, because \<open>created_time\<close> is replaced by the time of the
  write. Here the manifest was created in 2020 and is written in 2024.
\<close>

theorem manifest_reserialization_counterexample:
  "fst (ReadManifest demo_lib ''manifest.json''
         (snd (WriteManifestWithMode demo_lib (Chunks demo_manifest) ''manifest.json''
                 (OriginalName demo_manifest) (ManifestEncrypted demo_manifest)
                 (DistributionMode demo_manifest) (demo_world [])))) \<noteq>
   Inr (demo_manifest\<lparr>TotalSize := totalSize (Chunks demo_manifest),
                      ChunkCount := int (length (Chunks demo_manifest))\<rparr>) \<and>
   fst (ReadManifest demo_lib ''manifest.json''
         (snd (WriteManifestWithMode demo_lib (Chunks demo_manifest) ''manifest.json''
                 (OriginalName demo_manifest) (ManifestEncrypted demo_manifest)
                 (DistributionMode demo_manifest) (demo_world [])))) =
   Inr (demo_manifest\<lparr>CreatedTime := ''2024-05-01T10:00:00Z''\<rparr>)"
proof -
  have rt: "demo_unmarshal (enc_manifest m) = Some m" for m
    using demo_json_roundtrip[of m] by (simp add: demo_lib_def)
  show ?thesis
    by (simp add: WriteManifestWithMode_def os_WriteFile_def ReadManifest_def os_ReadFile_def
        demo_world_def demo_lib_def rt demo_manifest_def totalSize_def int64_def)
qed

section \<open>Verification: the chunk size\<close>

text \<open>
  Claim C3, as amended. \<open>Config.Validate\<close> rejects every configuration whose chunk size
  is zero or negative, with the error "chunk size must be positive", whatever the other
  fields hold; \<open>Validate\<close> performs no input or output.
\<close>

theorem Validate_chunk_size:
  "ChunkSize (Chunk c) \<le> 0 \<Longrightarrow> Validate c = Inl (ConfigInvalid ChunkSizeNotPositive)"
  by (simp add: Validate_def)

theorem Validate_chunk_size_witness:
  "Validate (DefaultConfig\<lparr>Chunk := \<lparr>ChunkSize = 0\<rparr>\<rparr>) = Inl (ConfigInvalid ChunkSizeNotPositive)
   \<and> Validate (DefaultConfig\<lparr>Chunk := \<lparr>ChunkSize = - 5\<rparr>\<rparr>) = Inl (ConfigInvalid ChunkSizeNotPositive)"
  using Validate_chunk_size[of "DefaultConfig\<lparr>Chunk := \<lparr>ChunkSize = 0\<rparr>\<rparr>"]
    Validate_chunk_size[of "DefaultConfig\<lparr>Chunk := \<lparr>ChunkSize = - 5\<rparr>\<rparr>"]
  by simp

text \<open>
  With the chunk size 0 the loop of the split never ends when the chunk files can be
  written: every read returns no bytes and no error, and one more empty chunk is
  written.
\<close>

lemma split_loop_zero:
  assumes "split_loop lib path outDir ec chunkSize off index chunks w = Some y"
  shows "\<not> (chunkSize = 0 \<and> files w path \<noteq> None \<and> split_ready path outDir ec w)"
proof (rule split_loop.raw_induct[where P = "\<lambda>lib path outDir ec chunkSize off index chunks w y.
     \<not> (chunkSize = 0 \<and> files w path \<noteq> None \<and> split_ready path outDir ec w)",
     OF _ assms], goal_cases)
  case (1 loop lib path outDir ec chunkSize off index chunks w y)
  show ?case
  proof
    assume a: "chunkSize = 0 \<and> files w path \<noteq> None \<and> split_ready path outDir ec w"
    then obtain input where input: "files w path = Some input" by auto
    have rd: "file_Read path off chunkSize w = ([], False, emit (EvRead path) w)"
      using a input by (simp add: file_Read_def)
    obtain s w2 where en: "Encrypt lib ec [] (emit (EvRead path) w) = (Inr s, w2)"
        "files w2 = files w" "readonly w2 = readonly w" "entropy w2 = entropy w" "drawn w \<le> drawn w2"
    proof (cases "Enabled ec")
      case False
      then show ?thesis using that[of "[]" "emit (EvRead path) w"] by (simp add: Encrypt_def)
    next
      case True
      then obtain nonce where "entropy w (drawn w) = Some nonce"
        using a by (auto simp: split_ready_def)
      then show ?thesis
        using True a that[of "nonce @ gcm_seal lib (Key ec) nonce []"
            "(emit (EvRead path) w)\<lparr>drawn := Suc (drawn w)\<rparr>"]
        by (simp add: Encrypt_def split_ready_def)
    qed
    let ?cp = "chunkFile outDir (hex (take 8 (sha256 lib [])))"
    let ?w3 = "emit (EvWriteFile ?cp) (w2\<lparr>files := (files w2)(?cp \<mapsto> s)\<rparr>)"
    have wr: "os_WriteFile ?cp s w2 = (Inr (), ?w3)"
      using a en(3) by (simp add: os_WriteFile_def split_ready_def)
    have "loop lib path outDir ec chunkSize (off + length ([]::byte list)) (index + 1)
            (chunks @ [\<lparr>ID = hex (take 8 (sha256 lib [])), Hash = hex (sha256 lib []), Index = index,
                           Encrypted = Enabled ec, CloudPaths = [], ChunkProviders = [],
                           Size = int (length s), UploadTime = [], CloudIDs = []\<rparr>]) ?w3 = Some y"
      using 1(2) by (simp add: rd en(1) wr)
    from 1(1)[OF this] have "\<not> (files ?w3 path \<noteq> None \<and> split_ready path outDir ec ?w3)"
      using a by simp
    moreover have "files ?w3 path \<noteq> None" using a en(2) by (auto simp: split_ready_def)
    moreover have "split_ready path outDir ec ?w3"
      using a en(2-5) by (auto simp: split_ready_def)
    ultimately show False by simp
  qed
qed


lemma split_loop_zero_diverges:
  assumes "files w path \<noteq> None" and "split_ready path outDir ec w"
  shows "split_loop lib path outDir ec 0 off index chunks w = None"
proof (cases "split_loop lib path outDir ec 0 off index chunks w")
  case None then show ?thesis .
next
  case (Some y)
  then show ?thesis using split_loop_zero[OF Some] assms by simp
qed

lemma SplitFile_zero_diverges:
  assumes "files w path \<noteq> None" and "split_ready path outDir ec w"
  shows "SplitFileWithChunkSize lib path outDir manifestPath ec 0 w = None"
proof -
  have "split_ready path outDir ec (snd (os_MkdirAll outDir (emit (EvStat path) (emit (EvOpen path) w))))"
    using assms(2) by (simp add: split_ready_def)
  then have "split_loop lib path outDir ec 0 0 0 []
      (snd (os_MkdirAll outDir (emit (EvStat path) (emit (EvOpen path) w)))) = None"
    using assms(1) by (intro split_loop_zero_diverges) simp_all
  then show ?thesis using assms(1)
    by (auto simp: SplitFileWithChunkSize_def os_Open_def)
qed

text \<open>
  The split itself has no such check. Called with the chunk size \<open>-1\<close> on an existing
  file, \<open>SplitFileWithChunkSize\<close> opens the file, reads its size and creates the output
  directory before \<open>make\<close> panics; the result is a panic, not a configuration error. Called with
  the chunk size 0 it does not return at all.
\<close>



theorem split_nonpositive_counterexample:
  "(\<exists>w'. SplitFileWithChunkSize demo_lib ''in.bin'' ''chunks'' ''manifest.json''
      (CreateEncryptionConfig demo_lib [] False) (- 1) (demo_world [1, 2, 3]) =
      Some (Inl MakeSliceOutOfRange, w') \<and>
    trace w' = [EvOpen ''in.bin'', EvStat ''in.bin'', EvMkdirAll ''chunks'']) \<and>
   SplitFileWithChunkSize demo_lib ''in.bin'' ''chunks'' ''manifest.json''
      (CreateEncryptionConfig demo_lib [] False) 0 (demo_world [1, 2, 3]) = None"
proof
  show "\<exists>w'. SplitFileWithChunkSize demo_lib ''in.bin'' ''chunks'' ''manifest.json''
      (CreateEncryptionConfig demo_lib [] False) (- 1) (demo_world [1, 2, 3]) =
      Some (Inl MakeSliceOutOfRange, w') \<and>
    trace w' = [EvOpen ''in.bin'', EvStat ''in.bin'', EvMkdirAll ''chunks'']"
    by (simp add: SplitFileWithChunkSize_def os_Open_def demo_world_def)
  show "SplitFileWithChunkSize demo_lib ''in.bin'' ''chunks'' ''manifest.json''
      (CreateEncryptionConfig demo_lib [] False) 0 (demo_world [1, 2, 3]) = None"
    by (rule SplitFile_zero_diverges[OF _ demo_ready]) (simp add: demo_world_def)
qed

section \<open>Verification: downloading chunks\<close>

lemma download_loop_result:
  "\<forall>c\<in>set chunks. CloudPaths c \<noteq> [] \<Longrightarrow> fst (download_loop cu downloadDir chunks w) = Inr ()"
  by (induction chunks arbitrary: w) simp_all

text \<open>
  Claim C4 does not hold of the code. \<open>DownloadChunks\<close> returns without an error whenever
  the manifest can be read and every chunk has at least one recorded cloud path: the
  outcome of the download attempts has no influence on its result, so a chunk all of
  whose destinations fail does not fail the operation.
\<close>

theorem DownloadChunks_ignores_failures:
  assumes "files w manifestPath = Some content" and "json_unmarshal lib content = Some m"
    and "\<forall>c\<in>set (Chunks m). CloudPaths c \<noteq> []"
  shows "fst (DownloadChunks lib cu manifestPath downloadDir w) = Inr ()"
  using assms
  by (simp add: DownloadChunks_def ReadManifest_def os_ReadFile_def download_loop_result)

text \<open>
  The failing input: a manifest whose one chunk was uploaded to Google Drive, downloaded
  by an uploader without any Google Drive client. The only destination fails, no chunk
  file is written, and the result is success.
\<close>

theorem DownloadChunks_ignores_failures_witness:
  "DownloadChunks demo_lib demo_uploader ''manifest.json'' ''chunks''
     ((demo_world [])\<lparr>files := [''manifest.json'' \<mapsto> json_marshal demo_lib demo_cloud_manifest]\<rparr>) =
   (Inr (),
    (demo_world [])\<lparr>files := [''manifest.json'' \<mapsto> json_marshal demo_lib demo_cloud_manifest],
       trace := [EvReadFile ''manifest.json'', EvMkdirAll ''chunks'',
                 EvDownload ''0401020304000000'' ''gdrive'' False]\<rparr>)"
proof -
  let ?w = "(demo_world [])\<lparr>files := [''manifest.json'' \<mapsto> json_marshal demo_lib demo_cloud_manifest]\<rparr>"
  have "fst (DownloadChunks demo_lib demo_uploader ''manifest.json'' ''chunks'' ?w) = Inr ()"
    by (rule DownloadChunks_ignores_failures[of ?w _ "json_marshal demo_lib demo_cloud_manifest" _
          demo_cloud_manifest])
       (simp_all add: demo_json_roundtrip demo_cloud_manifest_def)
  moreover have "snd (DownloadChunks demo_lib demo_uploader ''manifest.json'' ''chunks'' ?w) =
    (demo_world [])\<lparr>files := [''manifest.json'' \<mapsto> json_marshal demo_lib demo_cloud_manifest],
       trace := [EvReadFile ''manifest.json'', EvMkdirAll ''chunks'',
                 EvDownload ''0401020304000000'' ''gdrive'' False]\<rparr>"
    by (simp add: DownloadChunks_def ReadManifest_def os_ReadFile_def demo_json_roundtrip
          os_MkdirAll_def emit_def demo_world_def)
       (simp add: demo_cloud_manifest_def download_from_def gdrive_fetch_def demo_uploader_def
          GoogleDrive_def emit_def)
  ultimately show ?thesis by (simp add: prod_eq_iff)
qed

section \<open>Verification: corrupted chunk files\<close>

lemma hex_digit_inj: "m < 16 \<Longrightarrow> n < 16 \<Longrightarrow> hex_digit m = hex_digit n \<Longrightarrow> m = n"
proof -
  assume a: "m < 16" "n < 16" "hex_digit m = hex_digit n"
  have d: "distinct ''0123456789abcdef''" by simp
  show ?thesis
    using a nth_eq_iff_index_eq[OF d, of m n] by (simp add: hex_digit_def)
qed

lemma hex_byte_inj:
  assumes "hex_digit (unat x div 16) = hex_digit (unat y div 16)"
    and "hex_digit (unat x mod 16) = hex_digit (unat y mod 16)"
  shows "x = (y :: byte)"
proof -
  have bx: "unat x < 256" using unsigned_less[of x, where 'a=nat] by simp
  have bny: "unat y < 256" using unsigned_less[of y, where 'a=nat] by simp
  have "unat x div 16 = unat y div 16"
    using assms(1) bx bny by (intro hex_digit_inj) auto
  moreover have "unat x mod 16 = unat y mod 16"
    using assms(2) by (intro hex_digit_inj) auto
  ultimately have "unat x = unat y"
    by (metis div_mult_mod_eq)
  then show ?thesis by (simp add: word_unat_eq_iff)
qed

lemma hex_inj: "hex xs = hex ys \<Longrightarrow> xs = ys"
proof (induction xs arbitrary: ys)
  case Nil
  then show ?case by (cases ys) (simp_all add: hex_def)
next
  case (Cons x xs)
  then obtain y ys' where ys: "ys = y # ys'" by (cases ys) (auto simp: hex_def)
  from Cons.prems have "x = y" "hex xs = hex ys'"
    unfolding ys by (auto simp: hex_def intro: hex_byte_inj)
  then show ?case using Cons.IH ys by simp
qed

lemma assemble_loop_fails:
  assumes "\<forall>c\<in>set cs. files w (chunkFile dir (ID c)) \<noteq> None"
    and "\<exists>c\<in>set cs. \<not> chunk_ok lib dir ec (files w) c"
    and "\<forall>ident. chunkFile dir ident \<noteq> out" and "out \<notin> readonly w"
  shows "\<exists>e w'. assemble_loop lib dir out ec cs w = (Inl e, w') \<and> integrity_error e"
  using assms
proof (induction cs arbitrary: w)
  case Nil
  then show ?case by simp
next
  case (Cons c cs)
  obtain s where s: "files w (chunkFile dir (ID c)) = Some s" using Cons.prems(1) by auto
  show ?case
  proof (cases "Decrypt lib ec s")
    case (Inl e)
    then show ?thesis using s by (simp add: os_ReadFile_def)
  next
    case (Inr d)
    show ?thesis
    proof (cases "Hash c = hex (sha256 lib d)")
      case False
      then show ?thesis using s Inr by (simp add: os_ReadFile_def)
    next
      case True
      then have ok: "chunk_ok lib dir ec (files w) c" using s Inr by (auto simp: chunk_ok_def)
      let ?w2 = "emit (EvWrite out) ((emit (EvReadFile (chunkFile dir (ID c))) w)
          \<lparr>files := (files w)(out \<mapsto> (case files w out of None \<Rightarrow> d | Some old \<Rightarrow> old @ d))\<rparr>)"
      have step: "assemble_loop lib dir out ec (c # cs) w = assemble_loop lib dir out ec cs ?w2"
        using s Inr True Cons.prems(4) by (simp add: os_ReadFile_def file_Write_def)
      have same: "chunk_ok lib dir ec (files ?w2) c' = chunk_ok lib dir ec (files w) c'" for c'
        using Cons.prems(3) by (simp add: chunk_ok_def)
      have "\<exists>e w'. assemble_loop lib dir out ec cs ?w2 = (Inl e, w') \<and> integrity_error e"
      proof (rule Cons.IH)
        show "\<forall>c\<in>set cs. files ?w2 (chunkFile dir (ID c)) \<noteq> None"
          using Cons.prems(1,3) by simp
        show "\<exists>c\<in>set cs. \<not> chunk_ok lib dir ec (files ?w2) c"
          unfolding same using Cons.prems(2) ok by auto
        show "\<forall>ident. chunkFile dir ident \<noteq> out" by (rule Cons.prems(3))
        show "out \<notin> readonly ?w2" using Cons.prems(4) by simp
      qed
      then show ?thesis unfolding step .
    qed
  qed
qed

text \<open>
  Claim C2. After a split, take the chunk file of any position of the input and replace
  one of its bytes by another value. Then \<open>AssembleFile\<close> returns an error, a failed
  decryption or a hash mismatch, so it never completes with a wrong output. The
  environment is as for the round trip; no assumption is made on ids. What is assumed of
  SHA-256 and AES-GCM is their purpose: if the changed file still decrypts, the
  plaintext it gives has another SHA-256 than the plaintext of the unchanged file.
\<close>

theorem tamper_detected:
  assumes "files w path = Some input" and "1 \<le> chunkSize"
    and "split_ready path outDir ec w"
    and "manifestPath \<notin> readonly w" and "\<forall>ident. chunkFile outDir ident \<noteq> manifestPath"
    and "outputPath \<notin> readonly w" and "filepath_Dir outputPath \<notin> readonly w"
    and "\<forall>ident. chunkFile outDir ident \<noteq> outputPath"
    and "json_unmarshal lib (json_marshal lib
            (split_manifest path ec w (expected_records lib ec w chunkSize input))) =
          Some (split_manifest path ec w (expected_records lib ec w chunkSize input))"
    and "\<forall>key nonce d. gcm_open lib key nonce (gcm_seal lib key nonce d) = Some d"
    and "\<forall>k nonce. entropy w k = Some nonce \<longrightarrow> length nonce = NonceSize"
    and "SplitFileWithChunkSize lib path outDir manifestPath ec chunkSize w = Some (Inr (), w1)"
    and "l < length (chunks_of (nat chunkSize) input)"
    and "p = chunkFile outDir (hex (take 8 (sha256 lib (chunks_of (nat chunkSize) input ! l))))"
    and "files w1 p = Some s" and "k < length s" and "b \<noteq> s ! k"
    and "\<forall>d d'. Decrypt lib ec s = Inr d \<longrightarrow> Decrypt lib ec (s[k := b]) = Inr d' \<longrightarrow>
           sha256 lib d' \<noteq> sha256 lib d"
  shows "\<exists>e w2. AssembleFile lib manifestPath outDir outputPath ec
                  (w1\<lparr>files := (files w1)(p \<mapsto> s[k := b])\<rparr>) = (Inl e, w2) \<and>
                integrity_error e"
proof -
  let ?ds = "chunks_of (nat chunkSize) input"
  let ?recs = "expected_records lib ec w chunkSize input"
  let ?m = "split_manifest path ec w ?recs"
  let ?wt = "w1\<lparr>files := (files w1)(p \<mapsto> s[k := b])\<rparr>"
  have w1: "files w1 = (files w ++ chunk_files outDir ?recs)(manifestPath \<mapsto> json_marshal lib ?m)"
     "readonly w1 = readonly w"
    using SplitFile_correct[OF assms(1,2,3,4), of lib] assms(12) by auto
  have pm: "p \<noteq> manifestPath" "p \<noteq> outputPath" using assms(5,8,14) by auto
  have cf: "chunk_files outDir ?recs p = Some s"
  proof -
    have "(fst (?recs ! l), snd (?recs ! l)) \<in> set ?recs" using assms(13) by simp
    moreover have "chunkFile outDir (ID (fst (?recs ! l))) = p"
      using assms(13,14) by (simp add: expected_records_nth chunk_record_def)
    ultimately obtain s' where "chunk_files outDir ?recs p = Some s'"
      using chunk_files_defined[of "fst (?recs ! l)" "snd (?recs ! l)" ?recs outDir] by auto
    then show ?thesis using assms(15) pm(1) by (simp add: w1(1) map_add_def)
  qed
  then obtain c where c: "(c, s) \<in> set ?recs" "p = chunkFile outDir (ID c)"
    using chunk_files_SomeD by blast
  then obtain j where j: "j < length ?ds" "c = chunk_record lib ec (0 + int j) (?ds ! j) s"
      "s = stored_bytes lib ec (entropy w) (drawn w + j) (?ds ! j)"
    using split_records_mem[of c s lib ec "entropy w" "drawn w" 0 ?ds]
    by (auto simp: expected_records_def)
  have "Enabled ec \<longrightarrow> aes_key_ok (Key ec) \<and>
        (\<exists>nonce. entropy w (drawn w + j) = Some nonce \<and> length nonce = NonceSize)"
  proof
    assume en: "Enabled ec"
    then obtain nonce where "entropy w (drawn w + j) = Some nonce"
      using assms(3) by (fastforce simp: split_ready_def)
    then show "aes_key_ok (Key ec) \<and>
        (\<exists>nonce. entropy w (drawn w + j) = Some nonce \<and> length nonce = NonceSize)"
      using en assms(3,11) by (auto simp: split_ready_def)
  qed
  then have dec: "Decrypt lib ec s = Inr (?ds ! j)"
    by (subst j(3)) (rule Decrypt_stored[OF _ assms(10)])
  have hc: "Hash c = hex (sha256 lib (?ds ! j))" using j(2) by (simp add: chunk_record_def)
  have cm: "c \<in> set (Chunks ?m)" using c(1) by (force simp: split_manifest_def)
  let ?w3 = "emit (EvCreate outputPath)
      (emit (EvMkdirAll (filepath_Dir outputPath)) (emit (EvReadFile manifestPath) ?wt)
        \<lparr>files := (files ?wt)(outputPath \<mapsto> [])\<rparr>)"
  have run: "AssembleFile lib manifestPath outDir outputPath ec ?wt =
      assemble_loop lib outDir outputPath ec (sort_key Index (Chunks ?m)) ?w3"
    using assms(6,7,9) pm
    by (simp add: AssembleFile_def ReadManifest_def os_ReadFile_def os_MkdirAll_def
          os_Create_def w1 split_manifest_def)
  have bad: "\<not> chunk_ok lib outDir ec (files ?w3) c"
  proof
    assume "chunk_ok lib outDir ec (files ?w3) c"
    then obtain d' where "Decrypt lib ec (s[k := b]) = Inr d'" "Hash c = hex (sha256 lib d')"
      using c(2) pm by (auto simp: chunk_ok_def)
    then show False using assms(18) dec hc by (auto dest: hex_inj)
  qed
  have all: "\<forall>c'\<in>set (sort_key Index (Chunks ?m)). files ?w3 (chunkFile outDir (ID c')) \<noteq> None"
  proof
    fix c' assume "c' \<in> set (sort_key Index (Chunks ?m))"
    then obtain s' where "(c', s') \<in> set ?recs" by (auto simp: split_manifest_def)
    then obtain s'' where "chunk_files outDir ?recs (chunkFile outDir (ID c')) = Some s''"
      using chunk_files_defined by blast
    then show "files ?w3 (chunkFile outDir (ID c')) \<noteq> None"
      using assms(5,8) by (simp add: w1(1) map_add_def)
  qed
  have "\<exists>e w'. assemble_loop lib outDir outputPath ec (sort_key Index (Chunks ?m)) ?w3 = (Inl e, w') \<and>
      integrity_error e"
  proof (rule assemble_loop_fails[OF all])
    show "\<exists>c\<in>set (sort_key Index (Chunks ?m)). \<not> chunk_ok lib outDir ec (files ?w3) c"
      using cm bad by auto
    show "\<forall>ident. chunkFile outDir ident \<noteq> outputPath" by (rule assms(8))
    show "outputPath \<notin> readonly ?w3" using assms(6) by (simp add: w1(2))
  qed
  then show ?thesis unfolding run .
qed

lemma demo_stored:
  "stored_bytes demo_lib (CreateEncryptionConfig demo_lib ''secret'' True)
     (\<lambda>k. Some (replicate 12 (word_of_nat k))) 1 [5, 6, 7, 8] =
   [1, 1, 1, 1, 1, 1, 1, 1, 1, 1, 1, 1, 5, 6, 7, 8,
    1, 1, 1, 1, 1, 1, 1, 1, 1, 1, 1, 1, 6, 115, 101, 99]"
  by code_simp

lemma demo_tampered:
  "Decrypt demo_lib (CreateEncryptionConfig demo_lib ''secret'' True)
     [1, 1, 1, 1, 1, 1, 1, 1, 1, 1, 1, 1, 5, 6, 7, 8,
      1, 1, 1, 1, 1, 1, 1, 1, 1, 1, 1, 1, 6, 115, 101, 0] = Inl AuthenticationFailed"
  by code_simp

lemma demo_id_5678: "hex (take 8 (sha256 demo_lib [5, 6, 7, 8])) = ''0405060708000000''"
  by code_simp

lemma demo_id_910: "hex (take 8 (sha256 demo_lib [9, 10])) = ''02090a0000000000''"
  by code_simp

theorem tamper_detected_witness:
  "\<exists>w1 e w2.
     SplitFileWithChunkSize demo_lib ''in.bin'' ''chunks'' ''manifest.json''
       (CreateEncryptionConfig demo_lib ''secret'' True) 4
       (demo_world [1, 2, 3, 4, 5, 6, 7, 8, 9, 10]) = Some (Inr (), w1) \<and>
     files w1 ''chunks/0405060708000000.chunk'' =
       Some [1, 1, 1, 1, 1, 1, 1, 1, 1, 1, 1, 1, 5, 6, 7, 8,
             1, 1, 1, 1, 1, 1, 1, 1, 1, 1, 1, 1, 6, 115, 101, 99] \<and>
     AssembleFile demo_lib ''manifest.json'' ''chunks'' ''out.bin''
       (CreateEncryptionConfig demo_lib ''secret'' True)
       (w1\<lparr>files := (files w1)(''chunks/0405060708000000.chunk'' \<mapsto>
             [1, 1, 1, 1, 1, 1, 1, 1, 1, 1, 1, 1, 5, 6, 7, 8,
              1, 1, 1, 1, 1, 1, 1, 1, 1, 1, 1, 1, 6, 115, 101, 0])\<rparr>) = (Inl e, w2) \<and>
     integrity_error e"
proof -
  let ?ec = "CreateEncryptionConfig demo_lib ''secret'' True"
  let ?input = "[1, 2, 3, 4, 5, 6, 7, 8, 9, 10 :: byte]"
  let ?w = "demo_world ?input"
  let ?p = "''chunks/0405060708000000.chunk''"
  let ?s = "[1, 1, 1, 1, 1, 1, 1, 1, 1, 1, 1, 1, 5, 6, 7, 8,
             1, 1, 1, 1, 1, 1, 1, 1, 1, 1, 1, 1, 6, 115, 101, 99 :: byte]"
  let ?recs = "expected_records demo_lib ?ec ?w 4 ?input"
  have h: "files ?w ''in.bin'' = Some ?input" "(1::int) \<le> 4" "''manifest.json'' \<notin> readonly ?w"
      "\<forall>ident. chunkFile ''chunks'' ident \<noteq> ''manifest.json''"
      "''out.bin'' \<notin> readonly ?w" "filepath_Dir ''out.bin'' \<notin> readonly ?w"
      "\<forall>ident. chunkFile ''chunks'' ident \<noteq> ''out.bin''"
      "json_unmarshal demo_lib (json_marshal demo_lib (split_manifest ''in.bin'' ?ec ?w ?recs)) =
         Some (split_manifest ''in.bin'' ?ec ?w ?recs)"
      "\<forall>key nonce d. gcm_open demo_lib key nonce (gcm_seal demo_lib key nonce d) = Some d"
      "\<forall>k nonce. entropy ?w k = Some nonce \<longrightarrow> length nonce = NonceSize"
    by (auto simp: demo_world_def demo_json_roundtrip demo_gcm_roundtrip NonceSize_def)
  obtain w1 where w1:
      "SplitFileWithChunkSize demo_lib ''in.bin'' ''chunks'' ''manifest.json'' ?ec 4 ?w = Some (Inr (), w1)"
      "files w1 = (files ?w ++ chunk_files ''chunks'' ?recs)(''manifest.json'' \<mapsto>
          json_marshal demo_lib (split_manifest ''in.bin'' ?ec ?w ?recs))"
    using SplitFile_correct[OF h(1,2) demo_ready h(3), of demo_lib] by blast
  have cfp: "chunkFile ''chunks'' ''0405060708000000'' = ?p"
    by (simp add: chunkFile_def filepath_Join_def)
  have recs: "?recs = [hd ?recs] @
      (chunk_record demo_lib ?ec 1 [5, 6, 7, 8] ?s, ?s) # [last ?recs]"
    "ID (fst (last ?recs)) = ''02090a0000000000''"
    by (simp_all add: expected_records_def demo_chunks demo_world_def
          demo_stored[unfolded One_nat_def] chunk_record_def demo_id_910)
  have "chunk_files ''chunks'' ?recs (chunkFile ''chunks'' (ID (chunk_record demo_lib ?ec 1 [5, 6, 7, 8] ?s))) = Some ?s"
    using recs(2)
    by (intro chunk_files_last[OF recs(1)]) (simp add: chunk_record_def demo_id_5678 case_prod_beta)
  then have fp: "files w1 ?p = Some ?s"
    by (simp add: w1(2) chunk_record_def demo_id_5678 cfp map_add_def)
  have "\<exists>e w2. AssembleFile demo_lib ''manifest.json'' ''chunks'' ''out.bin'' ?ec
                  (w1\<lparr>files := (files w1)(?p \<mapsto> ?s[31 := 0])\<rparr>) = (Inl e, w2) \<and>
                integrity_error e"
    by (rule tamper_detected[OF h(1,2) demo_ready h(3-10) w1(1) _ _ fp, of 1])
       (simp_all add: demo_chunks demo_id_5678 cfp demo_tampered)
  then show ?thesis using w1(1) fp by auto
qed

section \<open>Verification: uploading chunks\<close>

lemma range_keys_rotate: "range_keys m names \<Longrightarrow> range_keys m (rotate k names)"
  by (simp add: range_keys_def)

lemma selected_account:
  assumes "range_keys (googleDrives cu) names" and "googleDrives cu \<noteq> []" and "0 \<le> c"
  shows "target_account (fst (uploadToGoogleDriveMultiAccount cu names localPath cloudPath c w)) =
         Some (names ! (nat c mod length names))"
proof -
  have ne: "names \<noteq> []" using assms(1,2) by (auto simp: range_keys_def)
  then have pos: "0 < int (length names)" by simp
  have idx: "c smod int (length names) = int (nat c mod length names)"
    using assms(3) pos by (simp add: smod_nonneg zmod_int)
  have lt: "nat c mod length names < length names" using ne by simp
  then have "names ! (nat c mod length names) \<in> fst ` set (googleDrives cu)"
    using assms(1) by (auto simp: range_keys_def)
  then obtain client where
    "map_of (googleDrives cu) (names ! (nat c mod length names)) = Some client"
    by (metis domIff dom_map_of_conv_image_fst not_Some_eq)
  then show ?thesis
    using assms(2) lt ne
    by (simp add: uploadToGoogleDriveMultiAccount_def idx split: prod.splits option.splits)
qed

lemma rotate_back:
  assumes "0 < n"
  shows "(n - 1 + Suc x mod n) mod n = x mod n"
proof -
  have "(n - 1 + Suc x mod n) mod n = (n - 1 + Suc x) mod n" by (simp add: mod_add_right_eq)
  also have "n - 1 + Suc x = x + n" using assms by simp
  finally show ?thesis by simp
qed

lemma mod_Suc_neq: "1 < n \<Longrightarrow> Suc x mod n \<noteq> x mod n"
  by (auto simp: mod_Suc)

text \<open>
  Claim C7 does not hold of the code when a destination is a provider with an account.
  \<open>GetChunkDestination\<close> chooses the providers of the replicas by the formula of the
  claim, but the Google Drive account of an upload is \<open>accountNames[c mod n]\<close>, where
  \<open>c\<close> is the chunk index alone and \<open>accountNames\<close> is the order in which the
  \<open>range\<close> of that call met the \<open>n\<close> accounts. With two accounts or more: if the
  call for the chunk index \<open>c + 1\<close> meets the accounts in the same order as the call
  for \<open>c\<close>, the two chunks go to different accounts, which is the round-robin the
  comments of the source announce; but there is an order the \<open>range\<close> may as well meet
  in the call for \<open>c + 1\<close> that sends it to the account of chunk \<open>c\<close>. So two
  consecutive chunk indices need not go to distinct destinations.
\<close>

theorem account_selection_by_map_order:
  assumes "range_keys (googleDrives cu) names" and "2 \<le> length names" and "0 \<le> c"
  shows "target_account (fst (uploadToGoogleDriveMultiAccount cu names localPath cloudPath c w)) =
           Some (names ! (nat c mod length names)) \<and>
         target_account (fst (uploadToGoogleDriveMultiAccount cu names localPath' cloudPath' (c + 1) w')) \<noteq>
           Some (names ! (nat c mod length names)) \<and>
         (\<exists>names'. range_keys (googleDrives cu) names' \<and>
            target_account (fst (uploadToGoogleDriveMultiAccount cu names' localPath' cloudPath' (c + 1) w')) =
              Some (names ! (nat c mod length names)))"
proof -
  let ?n = "length names"
  have nn: "names \<noteq> []" using assms(2) by auto
  then have ne: "googleDrives cu \<noteq> []" using assms(1) by (auto simp: range_keys_def)
  have d: "distinct names" using assms(1) by (simp add: range_keys_def)
  have n: "0 < ?n" "1 < ?n" using assms(2) nn by simp_all
  have suc: "nat (c + 1) = Suc (nat c)" using assms(3) by simp
  have one: "target_account (fst (uploadToGoogleDriveMultiAccount cu names localPath cloudPath c w)) =
           Some (names ! (nat c mod ?n))"
    by (rule selected_account[OF assms(1) ne assms(3)])
  have next_same: "target_account (fst (uploadToGoogleDriveMultiAccount cu names localPath' cloudPath' (c + 1) w')) =
           Some (names ! (Suc (nat c) mod ?n))"
    using selected_account[OF assms(1) ne, of "c + 1" localPath' cloudPath' w'] assms(3) suc by simp
  have "Suc (nat c) mod ?n \<noteq> nat c mod ?n"
    using n(2) by (rule mod_Suc_neq)
  then have two: "names ! (Suc (nat c) mod ?n) \<noteq> names ! (nat c mod ?n)"
    using d n(1) by (simp add: nth_eq_iff_index_eq)
  let ?names' = "rotate (?n - 1) names"
  have rk: "range_keys (googleDrives cu) ?names'" using assms(1) by (rule range_keys_rotate)
  have "target_account (fst (uploadToGoogleDriveMultiAccount cu ?names' localPath' cloudPath' (c + 1) w')) =
           Some (?names' ! (Suc (nat c) mod length ?names'))"
    using selected_account[OF rk ne, of "c + 1" localPath' cloudPath' w'] assms(3) suc by simp
  also have "?names' ! (Suc (nat c) mod length ?names') = names ! ((?n - 1 + Suc (nat c) mod ?n) mod ?n)"
    using n(1) by (simp add: nth_rotate)
  also have "\<dots> = names ! (nat c mod ?n)" using n(1) by (simp only: rotate_back)
  finally have three: "target_account (fst (uploadToGoogleDriveMultiAccount cu ?names' localPath' cloudPath' (c + 1) w')) =
           Some (names ! (nat c mod ?n))" .
  have "target_account (fst (uploadToGoogleDriveMultiAccount cu names localPath' cloudPath' (c + 1) w')) \<noteq>
           Some (names ! (nat c mod ?n))"
    using next_same two by simp
  moreover have "\<exists>names'. range_keys (googleDrives cu) names' \<and>
            target_account (fst (uploadToGoogleDriveMultiAccount cu names' localPath' cloudPath' (c + 1) w')) =
              Some (names ! (nat c mod ?n))"
    using rk three by (intro exI[of _ ?names'] conjI)
  ultimately show ?thesis using one by (intro conjI)
qed

lemma demo_destination: "GetChunkDestination (CustomCloudStrategy [GoogleDrive]) 0 = Inr [GoogleDrive]"
  "GetChunkDestination (CustomCloudStrategy [GoogleDrive]) 1 = Inr [GoogleDrive]"
  using GetChunkDestination_eq[of "CustomCloudStrategy [GoogleDrive]" 0]
    GetChunkDestination_eq[of "CustomCloudStrategy [GoogleDrive]" 1]
  by (simp_all add: CustomCloudStrategy_def)

lemma demo_smod: "(0::int) smod 2 = 0" "(1::int) smod 2 = 1"
  by (simp_all add: smod_nonneg)

lemma demo_total: "totalSize [demo_uploaded 0 i0 a0, demo_uploaded 1 i1 a1] = 8"
  by (simp add: totalSize_def demo_uploaded_def demo_chunk_def int64_id)

lemma demo_strategy: "Strategy demo_two_accounts = CustomCloudStrategy [GoogleDrive]"
  by (simp add: demo_two_accounts_def)

lemma demo_call0:
  assumes "files w ''chunks/0401020304000000.chunk'' = Some content"
  shows "uploadToGoogleDriveMultiAccount demo_two_accounts (demo_ranges 0)
           ''chunks/0401020304000000.chunk'' ''distributed-chunks/0401020304000000.chunk'' 0 w =
         (Inr (Inr (''primary'', ''primary:0401020304000000.chunk'')),
          emit (EvStat ''chunks/0401020304000000.chunk'')
            (emit (EvOpen ''chunks/0401020304000000.chunk'') w))"
  using assms
  by (simp add: uploadToGoogleDriveMultiAccount_def demo_two_accounts_def demo_ranges_def
        demo_smod UploadFile_def demo_client_def filepath_Base_def)

lemma demo_call1:
  assumes "files w ''chunks/0405060708000000.chunk'' = Some content"
  shows "uploadToGoogleDriveMultiAccount demo_two_accounts (demo_ranges (Suc 0))
           ''chunks/0405060708000000.chunk'' ''distributed-chunks/0405060708000000.chunk'' 1 w =
         (Inr (Inr (''primary'', ''primary:0405060708000000.chunk'')),
          emit (EvStat ''chunks/0405060708000000.chunk'')
            (emit (EvOpen ''chunks/0405060708000000.chunk'') w))"
  using assms
  by (simp add: uploadToGoogleDriveMultiAccount_def demo_two_accounts_def demo_ranges_def
        demo_smod UploadFile_def demo_client_def filepath_Base_def)

lemma demo_replicas0:
  assumes "files w ''chunks/0401020304000000.chunk'' = Some content"
  shows "upload_replicas demo_two_accounts demo_ranges (chunkFile ''chunks'' ''0401020304000000'')
           (demo_chunk 0 ''0401020304000000'') [GoogleDrive] [] [] [] 0 w =
         (Inr ([''distributed-chunks/0401020304000000.chunk''], [''gdrive''],
               [(''gdrive'', ''primary:0401020304000000.chunk''), (''gdrive_account'', ''primary'')]),
          Suc 0,
          emit (EvStat ''chunks/0401020304000000.chunk'')
            (emit (EvOpen ''chunks/0401020304000000.chunk'') w))"
  by (simp add: upload_to_def GenerateCloudPath_def chunkFile_def filepath_Join_def demo_chunk_def
        demo_call0[OF assms] record_ids_def)
     (simp add: GoogleDrive_def)

lemma demo_replicas1:
  assumes "files w ''chunks/0405060708000000.chunk'' = Some content"
  shows "upload_replicas demo_two_accounts demo_ranges (chunkFile ''chunks'' ''0405060708000000'')
           (demo_chunk 1 ''0405060708000000'') [GoogleDrive] [] [] [] (Suc 0) w =
         (Inr ([''distributed-chunks/0405060708000000.chunk''], [''gdrive''],
               [(''gdrive'', ''primary:0405060708000000.chunk''), (''gdrive_account'', ''primary'')]),
          2,
          emit (EvStat ''chunks/0405060708000000.chunk'')
            (emit (EvOpen ''chunks/0405060708000000.chunk'') w))"
  by (simp add: upload_to_def GenerateCloudPath_def chunkFile_def filepath_Join_def demo_chunk_def
        demo_call1[OF assms] record_ids_def)
     (simp add: GoogleDrive_def)

lemma demo_upload_loop:
  assumes "files w0 = files demo_upload_world" "clock w0 = ''2024-05-01T10:00:00Z''"
  shows "\<exists>w1. upload_loop demo_two_accounts demo_ranges ''chunks''
      [demo_chunk 0 ''0401020304000000'', demo_chunk 1 ''0405060708000000''] [] 0 w0 =
     (Inr [demo_uploaded 0 ''0401020304000000'' ''primary'',
           demo_uploaded 1 ''0405060708000000'' ''primary''], 2, w1) \<and>
     files w1 = files w0 \<and> readonly w1 = readonly w0 \<and> clock w1 = clock w0"
proof -
  have f0: "files w0 ''chunks/0401020304000000.chunk'' = Some [1, 2, 3, 4]"
    by (simp add: assms(1) demo_upload_world_def)
  let ?w1 = "emit (EvStat ''chunks/0401020304000000.chunk'')
            (emit (EvOpen ''chunks/0401020304000000.chunk'') w0)"
  have f1: "files ?w1 ''chunks/0405060708000000.chunk'' = Some [5, 6, 7, 8]"
    by (simp add: assms(1) demo_upload_world_def)
  have i0: "ID (demo_chunk 0 ''0401020304000000'') = ''0401020304000000''"
      "Index (demo_chunk 0 ''0401020304000000'') = 0"
    and i1: "ID (demo_chunk 1 ''0405060708000000'') = ''0405060708000000''"
      "Index (demo_chunk 1 ''0405060708000000'') = 1"
    by (simp_all add: demo_chunk_def)
  show ?thesis
    by (simp add: demo_strategy demo_destination i0 i1 demo_replicas0[OF f0] demo_replicas1[OF f1]
          assms(2) demo_uploaded_def del: upload_replicas.simps)
qed

lemma demo_UploadChunks:
  "\<exists>w'. UploadChunks demo_lib demo_two_accounts demo_ranges ''chunks'' ''manifest.json'' 0
           demo_upload_world = (Inr (), 2, w') \<and>
        files w' ''manifest.json'' = Some (json_marshal demo_lib demo_uploaded_manifest)"
proof -
  let ?w0 = "emit (EvReadFile ''manifest.json'') demo_upload_world"
  have rd: "ReadManifest demo_lib ''manifest.json'' demo_upload_world = (Inr demo_local_manifest, ?w0)"
    by (simp add: ReadManifest_def os_ReadFile_def demo_upload_world_def demo_json_roundtrip)
  obtain w1 where w1: "upload_loop demo_two_accounts demo_ranges ''chunks''
      [demo_chunk 0 ''0401020304000000'', demo_chunk 1 ''0405060708000000''] [] 0 ?w0 =
     (Inr [demo_uploaded 0 ''0401020304000000'' ''primary'',
           demo_uploaded 1 ''0405060708000000'' ''primary''], 2, w1)"
     "files w1 = files ?w0" "readonly w1 = readonly ?w0" "clock w1 = clock ?w0"
    using demo_upload_loop[of ?w0] by (auto simp: demo_upload_world_def demo_world_def)
  have ro: "''manifest.json'' \<notin> readonly w1"
    by (simp add: w1(3) demo_upload_world_def demo_world_def)
  have ck: "clock w1 = ''2024-05-01T10:00:00Z''"
    by (simp add: w1(4) demo_upload_world_def demo_world_def)
  show ?thesis
    unfolding UploadChunks_def rd
    by (simp add: demo_local_manifest_def w1(1) WriteManifestWithMode_def os_WriteFile_def ro ck
          demo_total demo_uploaded_manifest_def
          del: upload_loop.simps)
qed

text \<open>
  The failing input: the uploader with the accounts \<open>primary\<close> and \<open>backup\<close>, the
  strategy \<open>CustomCloudStrategy [GoogleDrive]\<close> (replication count 1) and a manifest of
  two chunks with the indices 0 and 1. The first call meets the accounts as
  \<open>[primary, backup]\<close>, the second as \<open>[backup, primary]\<close>. Both chunks are sent to
  \<open>primary\<close>, and the manifest \<open>UploadChunks\<close> writes records that account for both;
  \<open>backup\<close> receives nothing.
\<close>

theorem account_selection_by_map_order_witness:
  "range_keys (googleDrives demo_two_accounts) (demo_ranges 0) \<and>
   range_keys (googleDrives demo_two_accounts) (demo_ranges 1) \<and>
   target_account (fst (uploadToGoogleDriveMultiAccount demo_two_accounts (demo_ranges 0)
      ''chunks/0401020304000000.chunk'' ''distributed-chunks/0401020304000000.chunk'' 0
      demo_upload_world)) = Some ''primary'' \<and>
   target_account (fst (uploadToGoogleDriveMultiAccount demo_two_accounts (demo_ranges 1)
      ''chunks/0405060708000000.chunk'' ''distributed-chunks/0405060708000000.chunk'' 1
      demo_upload_world)) = Some ''primary'' \<and>
   (\<exists>w'. UploadChunks demo_lib demo_two_accounts demo_ranges ''chunks'' ''manifest.json'' 0
           demo_upload_world = (Inr (), 2, w') \<and>
         files w' ''manifest.json'' = Some (json_marshal demo_lib demo_uploaded_manifest))"
proof -
  have r0: "range_keys (googleDrives demo_two_accounts) (demo_ranges 0)"
    and r1: "range_keys (googleDrives demo_two_accounts) (demo_ranges 1)"
    by (auto simp: range_keys_def demo_two_accounts_def demo_ranges_def)
  have "target_account (fst (uploadToGoogleDriveMultiAccount demo_two_accounts (demo_ranges 0)
      ''chunks/0401020304000000.chunk'' ''distributed-chunks/0401020304000000.chunk'' 0
      demo_upload_world)) = Some (demo_ranges 0 ! (nat 0 mod length (demo_ranges 0)))"
    using account_selection_by_map_order[OF r0, of 0] by (simp add: demo_ranges_def)
  then have c0: "target_account (fst (uploadToGoogleDriveMultiAccount demo_two_accounts (demo_ranges 0)
      ''chunks/0401020304000000.chunk'' ''distributed-chunks/0401020304000000.chunk'' 0
      demo_upload_world)) = Some ''primary''"
    by (simp add: demo_ranges_def)
  have f1: "files demo_upload_world ''chunks/0405060708000000.chunk'' = Some [5, 6, 7, 8]"
    by (simp add: demo_upload_world_def)
  have c1: "target_account (fst (uploadToGoogleDriveMultiAccount demo_two_accounts (demo_ranges 1)
      ''chunks/0405060708000000.chunk'' ''distributed-chunks/0405060708000000.chunk'' 1
      demo_upload_world)) = Some ''primary''"
    using demo_call1[OF f1] by simp
  show ?thesis using r0 r1 c0 c1 demo_UploadChunks by (intro conjI)
qed

end
